(* ===== verification/TR_Prelude.thy ===== *)
theory TR_Prelude
  imports Main "HOL-Library.Sublist" "HOL-Library.Code_Target_Nat"
begin

text \<open>
  Shared vocabulary of the development: Rust's \<open>Result\<close> and \<open>Option\<close> combinators, the parts
  of the standard library's string, integer and duration types that the SDK uses, and the
  generic lemmas on them. A Rust \<open>String\<close>, \<open>&str\<close> or \<open>&[u8]\<close> is its sequence of bytes, a HOL
  \<open>string\<close> (a \<open>char\<close> is one byte), so that \<open>length\<close> is Rust's \<open>len()\<close>. A \<open>Duration\<close> is a
  number of nanoseconds. Unsigned machine integers are naturals with the bound written out
  wherever the code saturates, clamps or checks.
\<close>

named_theorems result_simps \<open>success of a chain of fallible steps, as a conjunction\<close>
named_theorems text_simps \<open>facts on the string functions of the standard library\<close>

section \<open>Result and Option\<close>

text \<open>\<open>Result<T, E>\<close> is \<open>'e + 'a\<close>: \<open>Inl\<close> the error, \<open>Inr\<close> the value. \<open>and_then\<close> is both
  \<open>Result::and_then\<close> and the question-mark operator.\<close>

definition and_then :: "'e + 'a \<Rightarrow> ('a \<Rightarrow> 'e + 'b) \<Rightarrow> 'e + 'b" where
  "and_then r k = (case r of Inl e \<Rightarrow> Inl e | Inr v \<Rightarrow> k v)"

definition ensure :: "bool \<Rightarrow> 'e \<Rightarrow> 'e + unit" where
  "ensure b e = (if b then Inr () else Inl e)"

definition ok_or :: "'a option \<Rightarrow> 'e \<Rightarrow> 'e + 'a" where
  "ok_or x e = (case x of None \<Rightarrow> Inl e | Some v \<Rightarrow> Inr v)"

definition map_err :: "('e \<Rightarrow> 'f) \<Rightarrow> 'e + 'a \<Rightarrow> 'f + 'a" where
  "map_err f r = (case r of Inl e \<Rightarrow> Inl (f e) | Inr v \<Rightarrow> Inr v)"

definition result_ok :: "'e + 'a \<Rightarrow> 'a option" where
  "result_ok r = (case r of Inl _ \<Rightarrow> None | Inr v \<Rightarrow> Some v)"

definition is_ok :: "'e + 'a \<Rightarrow> bool" where
  "is_ok r = (case r of Inl _ \<Rightarrow> False | Inr _ \<Rightarrow> True)"

lemma and_then_simps [simp]:
  "and_then (Inl e) k = Inl e"
  "and_then (Inr v) k = k v"
  by (simp_all add: and_then_def)

lemma and_then_Inr_iff [result_simps]:
  "and_then r k = Inr y \<longleftrightarrow> (\<exists>v. r = Inr v \<and> k v = Inr y)"
  by (cases r) simp_all

lemma and_then_Inl_iff:
  "and_then r k = Inl e \<longleftrightarrow> r = Inl e \<or> (\<exists>v. r = Inr v \<and> k v = Inl e)"
  by (cases r) simp_all

lemma and_then_assoc: "and_then (and_then r f) g = and_then r (\<lambda>v. and_then (f v) g)"
  by (cases r) simp_all

lemma ensure_simps [simp]:
  "ensure True e = Inr ()"
  "ensure False e = Inl e"
  by (simp_all add: ensure_def)

lemma ensure_Inr_iff [result_simps]: "ensure b e = Inr u \<longleftrightarrow> b"
  by (simp add: ensure_def)

lemma ensure_Inl_iff: "ensure b e = Inl f \<longleftrightarrow> \<not> b \<and> f = e"
  by (auto simp: ensure_def)

lemma ok_or_simps [simp]:
  "ok_or None e = Inl e"
  "ok_or (Some v) e = Inr v"
  by (simp_all add: ok_or_def)

lemma ok_or_Inr_iff [result_simps]: "ok_or x e = Inr v \<longleftrightarrow> x = Some v"
  by (cases x) simp_all

lemma map_err_simps [simp]:
  "map_err f (Inl e) = Inl (f e)"
  "map_err f (Inr v) = Inr v"
  by (simp_all add: map_err_def)

lemma map_err_Inr_iff [result_simps]: "map_err f r = Inr v \<longleftrightarrow> r = Inr v"
  by (cases r) simp_all

lemma result_ok_simps [simp]:
  "result_ok (Inl e) = None"
  "result_ok (Inr v) = Some v"
  by (simp_all add: result_ok_def)

lemma result_ok_Some_iff: "result_ok r = Some v \<longleftrightarrow> r = Inr v"
  by (cases r) simp_all

lemma is_ok_simps [simp]: "\<not> is_ok (Inl e)" "is_ok (Inr v)"
  by (simp_all add: is_ok_def)

text \<open>\<open>Option::filter\<close>, \<open>Option::or_else\<close> (also \<open>or\<close>) and \<open>Option::is_some_and\<close>.\<close>

definition opt_filter :: "('a \<Rightarrow> bool) \<Rightarrow> 'a option \<Rightarrow> 'a option" where
  "opt_filter P x = (case x of None \<Rightarrow> None | Some v \<Rightarrow> if P v then Some v else None)"

definition opt_or :: "'a option \<Rightarrow> 'a option \<Rightarrow> 'a option" where
  "opt_or x y = (case x of None \<Rightarrow> y | Some v \<Rightarrow> Some v)"

definition is_some_and :: "('a \<Rightarrow> bool) \<Rightarrow> 'a option \<Rightarrow> bool" where
  "is_some_and P x = (case x of None \<Rightarrow> False | Some v \<Rightarrow> P v)"

definition is_none_or :: "('a \<Rightarrow> bool) \<Rightarrow> 'a option \<Rightarrow> bool" where
  "is_none_or P x = (case x of None \<Rightarrow> True | Some v \<Rightarrow> P v)"

definition unwrap_or :: "'a \<Rightarrow> 'a option \<Rightarrow> 'a" where
  "unwrap_or d x = (case x of None \<Rightarrow> d | Some v \<Rightarrow> v)"

definition the_list :: "'a option \<Rightarrow> 'a list" where
  "the_list x = (case x of None \<Rightarrow> [] | Some v \<Rightarrow> [v])"

lemma opt_filter_Some_iff [simp]: "opt_filter P x = Some v \<longleftrightarrow> x = Some v \<and> P v"
  by (auto simp: opt_filter_def split: option.splits)

lemma opt_filter_None_iff: "opt_filter P x = None \<longleftrightarrow> (\<forall>v. x = Some v \<longrightarrow> \<not> P v)"
  by (auto simp: opt_filter_def split: option.splits)

lemma opt_filter_simps [simp]:
  "opt_filter P None = None"
  "opt_filter P (Some v) = (if P v then Some v else None)"
  by (simp_all add: opt_filter_def)

lemma opt_or_simps [simp]:
  "opt_or None y = y"
  "opt_or (Some v) y = Some v"
  by (simp_all add: opt_or_def)

lemma opt_or_None_iff [simp]: "opt_or x y = None \<longleftrightarrow> x = None \<and> y = None"
  by (cases x) simp_all

lemma is_some_and_simps [simp]:
  "\<not> is_some_and P None"
  "is_some_and P (Some v) = P v"
  by (simp_all add: is_some_and_def)

lemma is_none_or_simps [simp]:
  "is_none_or P None"
  "is_none_or P (Some v) = P v"
  by (simp_all add: is_none_or_def)

lemma is_some_and_iff: "is_some_and P x \<longleftrightarrow> (\<exists>v. x = Some v \<and> P v)"
  by (cases x) simp_all

lemma unwrap_or_simps [simp]:
  "unwrap_or d None = d"
  "unwrap_or d (Some v) = v"
  by (simp_all add: unwrap_or_def)

section \<open>Integers and durations\<close>

definition u64_max :: nat where "u64_max = 18446744073709551615"
definition i64_max :: int where "i64_max = 9223372036854775807"
definition i64_min :: int where "i64_min = - 9223372036854775808"

definition saturating_add :: "nat \<Rightarrow> nat \<Rightarrow> nat" where
  "saturating_add a b = min (a + b) u64_max"

definition saturating_mul :: "nat \<Rightarrow> nat \<Rightarrow> nat" where
  "saturating_mul a b = min (a * b) u64_max"

text \<open>\<open>saturating_sub\<close> on unsigned values is the truncated subtraction of \<open>nat\<close>.\<close>

definition clamp :: "nat \<Rightarrow> nat \<Rightarrow> nat \<Rightarrow> nat" where
  "clamp lo hi v = (if v < lo then lo else if hi < v then hi else v)"

lemma clamp_bounds: "lo \<le> hi \<Longrightarrow> lo \<le> clamp lo hi v \<and> clamp lo hi v \<le> hi"
  by (simp add: clamp_def)

lemma clamp_le [simp]: "lo \<le> hi \<Longrightarrow> clamp lo hi v \<le> hi"
  by (simp add: clamp_def)

lemma clamp_id: "lo \<le> v \<Longrightarrow> v \<le> hi \<Longrightarrow> clamp lo hi v = v"
  by (simp add: clamp_def)

type_synonym duration = nat

definition from_secs :: "nat \<Rightarrow> duration" where "from_secs s = s * 1000000000"
definition from_millis :: "nat \<Rightarrow> duration" where "from_millis m = m * 1000000"
definition as_secs :: "duration \<Rightarrow> nat" where "as_secs d = d div 1000000000"
definition as_millis :: "duration \<Rightarrow> nat" where "as_millis d = d div 1000000"

lemma as_millis_from_millis [simp]: "as_millis (from_millis m) = m"
  by (simp add: as_millis_def from_millis_def)

lemma as_secs_from_secs [simp]: "as_secs (from_secs s) = s"
  by (simp add: as_secs_def from_secs_def)

lemma from_millis_mono [simp]: "from_millis a \<le> from_millis b \<longleftrightarrow> a \<le> b"
  by (simp add: from_millis_def)

lemma from_secs_mono [simp]: "from_secs a \<le> from_secs b \<longleftrightarrow> a \<le> b"
  by (simp add: from_secs_def)

section \<open>Bytes and text\<close>

definition byte :: "char \<Rightarrow> nat" where "byte c = of_char c"

definition in_range :: "char \<Rightarrow> char \<Rightarrow> char \<Rightarrow> bool" where
  "in_range lo hi c \<longleftrightarrow> byte lo \<le> byte c \<and> byte c \<le> byte hi"

definition is_ascii_digit :: "char \<Rightarrow> bool" where
  "is_ascii_digit c = in_range CHR ''0'' CHR ''9'' c"
definition is_ascii_lowercase :: "char \<Rightarrow> bool" where
  "is_ascii_lowercase c = in_range CHR ''a'' CHR ''z'' c"
definition is_ascii_uppercase :: "char \<Rightarrow> bool" where
  "is_ascii_uppercase c = in_range CHR ''A'' CHR ''Z'' c"
definition is_ascii_alphanumeric :: "char \<Rightarrow> bool" where
  "is_ascii_alphanumeric c \<longleftrightarrow> is_ascii_digit c \<or> is_ascii_lowercase c \<or> is_ascii_uppercase c"
definition is_ascii_hexdigit :: "char \<Rightarrow> bool" where
  "is_ascii_hexdigit c \<longleftrightarrow> is_ascii_digit c \<or> in_range CHR ''a'' CHR ''f'' c \<or> in_range CHR ''A'' CHR ''F'' c"

definition ascii_lower :: "char \<Rightarrow> char" where
  "ascii_lower c = (if is_ascii_uppercase c then char_of (byte c + 32) else c)"

definition to_ascii_lowercase :: "string \<Rightarrow> string" where
  "to_ascii_lowercase s = map ascii_lower s"

definition eq_ignore_ascii_case :: "string \<Rightarrow> string \<Rightarrow> bool" where
  "eq_ignore_ascii_case a b \<longleftrightarrow> to_ascii_lowercase a = to_ascii_lowercase b"

definition is_ascii :: "string \<Rightarrow> bool" where
  "is_ascii s \<longleftrightarrow> list_all (\<lambda>c. byte c < 128) s"

lemmas char_class_defs = byte_def in_range_def is_ascii_digit_def is_ascii_lowercase_def
  is_ascii_uppercase_def is_ascii_alphanumeric_def is_ascii_hexdigit_def

lemma byte_less [simp]: "byte c < 256"
  by (simp add: byte_def)

lemma byte_char_of [simp]: "n < 256 \<Longrightarrow> byte (char_of n) = n"
  by (simp add: byte_def)

lemma byte_eq_iff: "byte a = byte b \<longleftrightarrow> a = b"
  by (simp add: byte_def)

lemma byte_ascii_lower:
  "byte (ascii_lower c) = (if 65 \<le> byte c \<and> byte c \<le> 90 then byte c + 32 else byte c)"
  by (simp add: ascii_lower_def is_ascii_uppercase_def in_range_def)
    (simp add: byte_def)

lemma ascii_lower_idem [simp]: "ascii_lower (ascii_lower c) = ascii_lower c"
  by (simp add: byte_eq_iff [symmetric] byte_ascii_lower)

lemma to_ascii_lowercase_idem [simp]:
  "to_ascii_lowercase (to_ascii_lowercase s) = to_ascii_lowercase s"
  by (simp add: to_ascii_lowercase_def)

lemma length_to_ascii_lowercase [simp]: "length (to_ascii_lowercase s) = length s"
  by (simp add: to_ascii_lowercase_def)

lemma to_ascii_lowercase_Nil_iff [simp]: "to_ascii_lowercase s = [] \<longleftrightarrow> s = []"
  by (simp add: to_ascii_lowercase_def)

subsection \<open>Prefixes, suffixes, searching and splitting\<close>

definition starts_with :: "string \<Rightarrow> string \<Rightarrow> bool" where
  "starts_with p s \<longleftrightarrow> take (length p) s = p"

definition ends_with :: "string \<Rightarrow> string \<Rightarrow> bool" where
  "ends_with p s \<longleftrightarrow> starts_with (rev p) (rev s)"

definition strip_prefix :: "string \<Rightarrow> string \<Rightarrow> string option" where
  "strip_prefix p s = (if starts_with p s then Some (drop (length p) s) else None)"

definition strip_suffix :: "string \<Rightarrow> string \<Rightarrow> string option" where
  "strip_suffix p s = (if ends_with p s then Some (take (length s - length p) s) else None)"

fun find_subslice :: "string \<Rightarrow> string \<Rightarrow> nat option" where
  "find_subslice needle [] = (if needle = [] then Some 0 else None)"
| "find_subslice needle (c # cs) =
     (if starts_with needle (c # cs) then Some 0
      else map_option Suc (find_subslice needle cs))"

definition str_contains :: "string \<Rightarrow> string \<Rightarrow> bool" where
  "str_contains needle s \<longleftrightarrow> find_subslice needle s \<noteq> None"

fun split_on :: "char \<Rightarrow> string \<Rightarrow> string list" where
  "split_on d [] = [[]]"
| "split_on d (c # cs) =
     (if c = d then [] # split_on d cs
      else (case split_on d cs of [] \<Rightarrow> [[c]] | p # ps \<Rightarrow> (c # p) # ps))"

fun join_with :: "string \<Rightarrow> string list \<Rightarrow> string" where
  "join_with d [] = []"
| "join_with d [p] = p"
| "join_with d (p # q # ps) = p @ d @ join_with d (q # ps)"

lemma starts_with_iff: "starts_with p s \<longleftrightarrow> (\<exists>t. s = p @ t)"
  unfolding starts_with_def
  by (metis append_eq_conv_conj append_take_drop_id)

lemma starts_with_append [simp]: "starts_with p (p @ t)"
  by (simp add: starts_with_def)

lemma starts_with_Nil [simp]: "starts_with [] s"
  by (simp add: starts_with_def)

lemma ends_with_iff: "ends_with p s \<longleftrightarrow> (\<exists>t. s = t @ p)"
  unfolding ends_with_def starts_with_iff
  by (metis rev_append rev_rev_ident)

lemma ends_with_append [simp]: "ends_with p (t @ p)"
  by (auto simp: ends_with_iff)

lemma strip_prefix_Some_iff: "strip_prefix p s = Some t \<longleftrightarrow> s = p @ t"
  by (auto simp: strip_prefix_def starts_with_iff)

lemma strip_suffix_Some_iff: "strip_suffix p s = Some t \<longleftrightarrow> s = t @ p"
  by (auto simp: strip_suffix_def ends_with_iff)

lemma find_subslice_SomeD:
  "find_subslice needle s = Some i \<Longrightarrow> \<exists>a b. s = a @ needle @ b \<and> length a = i"
proof (induction s arbitrary: i)
  case Nil
  then show ?case by (simp split: if_splits)
next
  case (Cons c cs)
  show ?case
  proof (cases "starts_with needle (c # cs)")
    case True
    then obtain t where "c # cs = needle @ t" by (auto simp: starts_with_iff)
    moreover from True Cons.prems have "i = 0" by simp
    ultimately show ?thesis by (intro exI [of _ "[]"] exI [of _ t]) simp
  next
    case False
    with Cons.prems obtain j where j: "find_subslice needle cs = Some j" "i = Suc j" by auto
    from Cons.IH [OF j(1)] obtain a b where "cs = a @ needle @ b" "length a = j" by blast
    with j(2) show ?thesis by (intro exI [of _ "c # a"] exI [of _ b]) simp
  qed
qed

lemma find_subslice_None_iff:
  "find_subslice needle s = None \<longleftrightarrow> (\<nexists>a b. s = a @ needle @ b)"
proof (induction s)
  case Nil
  then show ?case by auto
next
  case (Cons c cs)
  have "(\<exists>a b. c # cs = a @ needle @ b) \<longleftrightarrow>
        starts_with needle (c # cs) \<or> (\<exists>a b. cs = a @ needle @ b)"
    unfolding starts_with_iff
    by (metis append_Cons append_Nil append_eq_Cons_conv)
  with Cons show ?case by auto
qed

lemma find_subslice_first:
  "find_subslice needle s = Some i \<Longrightarrow> j < i \<Longrightarrow> \<not> starts_with needle (drop j s)"
proof (induction s arbitrary: i j)
  case Nil
  then show ?case by (simp split: if_splits)
next
  case (Cons c cs)
  then show ?case
    by (cases j) (auto split: if_splits)
qed

lemma str_contains_iff: "str_contains needle s \<longleftrightarrow> (\<exists>a b. s = a @ needle @ b)"
  by (simp add: str_contains_def find_subslice_None_iff)

lemma split_on_not_Nil [simp]: "split_on d s \<noteq> []"
  by (induction s) (auto split: list.splits)

lemma join_split_on: "join_with [d] (split_on d s) = s"
proof (induction s)
  case Nil
  then show ?case by simp
next
  case (Cons c cs)
  obtain p ps where ps: "split_on d cs = p # ps"
    by (cases "split_on d cs") simp_all
  with Cons show ?case
    by (cases ps) auto
qed

lemma split_on_no_sep: "p \<in> set (split_on d s) \<Longrightarrow> d \<notin> set p"
  by (induction s arbitrary: p) (auto split: if_splits list.splits)

lemma split_on_single: "d \<notin> set s \<Longrightarrow> split_on d s = [s]"
  by (induction s) auto

lemma split_on_append: "d \<notin> set p \<Longrightarrow> split_on d (p @ d # s) = p # split_on d s"
  by (induction p) auto

lemma split_on_append_join: "split_on d (s @ d # t) = split_on d s @ split_on d t"
  by (induction s) (auto split: list.splits)

lemma split_on_join:
  "ps \<noteq> [] \<Longrightarrow> (\<And>p. p \<in> set ps \<Longrightarrow> d \<notin> set p) \<Longrightarrow> split_on d (join_with [d] ps) = ps"
proof (induction "[d]" ps rule: join_with.induct)
  case (2 p)
  then show ?case by (simp add: split_on_single)
next
  case (3 p q ps)
  then have "split_on d (p @ d # join_with [d] (q # ps)) = p # split_on d (join_with [d] (q # ps))"
    by (intro split_on_append) simp
  with 3 show ?case by simp
qed simp

subsection \<open>Trimming\<close>

text \<open>\<open>str::trim\<close> removes leading and trailing characters with the Unicode property
  \<open>White_Space\<close>; these are their UTF-8 encodings.\<close>

definition white_space :: "string list" where
  "white_space = map (map char_of)
     ([[9], [10], [11], [12], [13], [32], [194, 133], [194, 160], [225, 154, 128]]
      @ map (\<lambda>b. [226, 128, b]) [128, 129, 130, 131, 132, 133, 134, 135, 136, 137, 138]
      @ [[226, 128, 168], [226, 128, 169], [226, 128, 175], [226, 129, 159],
         [227, 128, (128 :: nat)]])"

function strip_leading :: "string list \<Rightarrow> string \<Rightarrow> string" where
  "strip_leading ws s =
     (case find (\<lambda>w. w \<noteq> [] \<and> starts_with w s) ws of
        None \<Rightarrow> s
      | Some w \<Rightarrow> strip_leading ws (drop (length w) s))"
  by pat_completeness auto
termination
proof (relation "measure (\<lambda>(ws, s). length s)", simp)
  fix ws s w
  assume "find (\<lambda>w. w \<noteq> [] \<and> starts_with w s) ws = Some w"
  then have "w \<noteq> []" and "starts_with w s"
    by (auto simp: find_Some_iff)
  then show "((ws, drop (length w) s), ws, s) \<in> measure (\<lambda>(ws, s). length s)"
    by (cases s) (auto simp: starts_with_iff)
qed

declare strip_leading.simps [simp del]

definition trim :: "string \<Rightarrow> string" where
  "trim s = rev (strip_leading (map rev white_space) (rev (strip_leading white_space s)))"

lemma strip_leading_stop:
  "(\<And>w. w \<in> set ws \<Longrightarrow> w \<noteq> [] \<Longrightarrow> \<not> starts_with w s) \<Longrightarrow> strip_leading ws s = s"
  by (subst strip_leading.simps) (auto split: option.splits simp: find_Some_iff)

lemma strip_leading_idem [simp]: "strip_leading ws (strip_leading ws s) = strip_leading ws s"
proof (induction ws s rule: strip_leading.induct)
  case (1 ws s)
  show ?case
  proof (cases "find (\<lambda>w. w \<noteq> [] \<and> starts_with w s) ws")
    case None
    then have "strip_leading ws s = s" by (simp add: strip_leading.simps [of ws s])
    then show ?thesis by simp
  next
    case (Some w)
    then have "strip_leading ws s = strip_leading ws (drop (length w) s)"
      by (simp add: strip_leading.simps [of ws s])
    with 1 [OF Some] show ?thesis by simp
  qed
qed

lemma length_strip_leading: "length (strip_leading ws s) \<le> length s"
proof (induction ws s rule: strip_leading.induct)
  case (1 ws s)
  then show ?case
    by (subst strip_leading.simps) (force split: option.splits)
qed

lemma length_trim: "length (trim s) \<le> length s"
  using length_strip_leading [of "map rev white_space" "rev (strip_leading white_space s)"]
    length_strip_leading [of white_space s]
  by (simp add: trim_def)

text \<open>A text that starts and ends with a graphic ASCII character is its own trimming.\<close>

definition is_graphic :: "char \<Rightarrow> bool" where
  "is_graphic c \<longleftrightarrow> 33 \<le> byte c \<and> byte c \<le> 126"

lemma white_space_ends:
  "w \<in> set white_space \<Longrightarrow> w \<noteq> [] \<and> \<not> is_graphic (hd w) \<and> \<not> is_graphic (last w)"
  by (auto simp: white_space_def is_graphic_def)

lemma strip_leading_graphic:
  assumes "\<And>w. w \<in> set ws \<Longrightarrow> w \<noteq> [] \<and> \<not> is_graphic (hd w)"
    and "s = [] \<or> is_graphic (hd s)"
  shows "strip_leading ws s = s"
proof (rule strip_leading_stop)
  fix w
  assume w: "w \<in> set ws" "w \<noteq> []"
  show "\<not> starts_with w s"
  proof
    assume "starts_with w s"
    then obtain t where "s = w @ t" by (auto simp: starts_with_iff)
    with w assms show False by force
  qed
qed

lemma trim_graphic:
  assumes "s = [] \<or> is_graphic (hd s) \<and> is_graphic (last s)"
  shows "trim s = s"
proof -
  have "strip_leading white_space s = s"
    using assms white_space_ends by (intro strip_leading_graphic) auto
  moreover have "strip_leading (map rev white_space) (rev s) = rev s"
    using assms white_space_ends
    by (intro strip_leading_graphic) (auto simp: hd_rev)
  ultimately show ?thesis by (simp add: trim_def)
qed

lemma trim_all_graphic: "(\<And>c. c \<in> set s \<Longrightarrow> is_graphic c) \<Longrightarrow> trim s = s"
  by (rule trim_graphic) (cases s; simp)

subsection \<open>Decimal numbers\<close>

text \<open>\<open>str::parse::<u64>\<close>: an optional plus sign, at least one digit, nothing else, and no
  overflow. \<open>show_nat\<close> is \<open>to_string\<close> of an unsigned integer.\<close>

fun parse_digits :: "nat \<Rightarrow> string \<Rightarrow> nat option" where
  "parse_digits acc [] = Some acc"
| "parse_digits acc (c # cs) =
     (if is_ascii_digit c then parse_digits (acc * 10 + (byte c - 48)) cs else None)"

definition parse_u64 :: "string \<Rightarrow> nat option" where
  "parse_u64 s =
     (let digits = (case s of c # cs \<Rightarrow> if c = CHR ''+'' then cs else s | [] \<Rightarrow> [])
      in if digits = [] then None else opt_filter (\<lambda>n. n \<le> u64_max) (parse_digits 0 digits))"

fun show_nat :: "nat \<Rightarrow> string" where
  "show_nat n = (if n < 10 then [char_of (48 + n)] else show_nat (n div 10) @ [char_of (48 + n mod 10)])"

declare show_nat.simps [simp del]

lemma parse_u64_bound: "parse_u64 s = Some n \<Longrightarrow> n \<le> u64_max"
  by (auto simp: parse_u64_def Let_def split: if_splits)

lemma parse_digits_append:
  "parse_digits acc (s @ t) = Option.bind (parse_digits acc s) (\<lambda>n. parse_digits n t)"
  by (induction s arbitrary: acc) auto

lemma is_ascii_digit_iff: "is_ascii_digit c \<longleftrightarrow> 48 \<le> byte c \<and> byte c \<le> 57"
  by (simp add: is_ascii_digit_def in_range_def) (simp add: byte_def)

lemma byte_digit_char_of: "(d :: nat) < 10 \<Longrightarrow> byte (char_of (48 + d)) = 48 + d"
  by simp

lemma is_ascii_digit_char_of: "(d :: nat) < 10 \<Longrightarrow> is_ascii_digit (char_of (48 + d))"
  by (simp add: is_ascii_digit_iff)

lemma parse_digits_show_nat: "parse_digits 0 (show_nat n) = Some n"
proof (induction n rule: show_nat.induct)
  case (1 n)
  show ?case
  proof (cases "n < 10")
    case True
    then show ?thesis
      by (subst show_nat.simps) (simp add: is_ascii_digit_char_of byte_digit_char_of)
  next
    case False
    with 1 have "parse_digits 0 (show_nat (n div 10)) = Some (n div 10)" by simp
    moreover have "n mod 10 < 10" by simp
    ultimately show ?thesis using False
      by (subst show_nat.simps)
        (simp add: parse_digits_append is_ascii_digit_char_of byte_digit_char_of)
  qed
qed

lemma show_nat_digits: "c \<in> set (show_nat n) \<Longrightarrow> is_ascii_digit c"
proof (induction n rule: show_nat.induct)
  case (1 n)
  show ?case
  proof (cases "n < 10")
    case True
    with 1 show ?thesis
      by (simp add: show_nat.simps [of n] is_ascii_digit_char_of)
  next
    case False
    with 1 show ?thesis
      by (auto simp: show_nat.simps [of n] is_ascii_digit_char_of)
  qed
qed

lemma is_graphic_digit: "is_ascii_digit c \<Longrightarrow> is_graphic c"
  by (simp add: is_graphic_def is_ascii_digit_iff)

lemma trim_show_nat [simp]: "trim (show_nat n) = show_nat n"
  by (rule trim_all_graphic) (rule is_graphic_digit, rule show_nat_digits)

lemma show_nat_not_Nil [simp]: "show_nat n \<noteq> []"
  by (subst show_nat.simps) simp

lemma parse_u64_show_nat: "n \<le> u64_max \<Longrightarrow> parse_u64 (show_nat n) = Some n"
proof -
  assume n: "n \<le> u64_max"
  obtain c cs where c: "show_nat n = c # cs" by (cases "show_nat n") simp_all
  then have "is_ascii_digit c" by (intro show_nat_digits [of _ n]) simp
  then have "c \<noteq> CHR ''+''" by (auto simp: is_ascii_digit_iff byte_def)
  with n c show ?thesis
    using parse_digits_show_nat [of n] by (simp add: parse_u64_def)
qed

lemma length_show_nat_le: "n < 10 ^ k \<Longrightarrow> 0 < k \<Longrightarrow> length (show_nat n) \<le> k"
proof (induction k arbitrary: n)
  case 0
  then show ?case by simp
next
  case (Suc k)
  show ?case
  proof (cases "n < 10")
    case True
    then show ?thesis by (simp add: show_nat.simps [of n])
  next
    case False
    with Suc.prems have "0 < k" by (cases k) auto
    moreover from Suc.prems have "n div 10 < 10 ^ k" by (simp add: less_mult_imp_div_less mult.commute)
    ultimately have "length (show_nat (n div 10)) \<le> k" using Suc.IH by blast
    with False show ?thesis by (simp add: show_nat.simps [of n])
  qed
qed

subsection \<open>UTF-8\<close>

text \<open>\<open>str::from_utf8\<close>: \<open>None\<close> for valid UTF-8, otherwise the index of the first invalid sequence and
  its length, with no length when the input ends inside it.\<close>

definition byte_in :: "nat \<Rightarrow> nat \<Rightarrow> char \<Rightarrow> bool" where
  "byte_in lo hi c \<longleftrightarrow> lo \<le> byte c \<and> byte c \<le> hi"

definition second_ok :: "char \<Rightarrow> char \<Rightarrow> bool" where
  "second_ok a b =
     (if byte a = 224 then byte_in 160 191 b
      else if byte a = 237 then byte_in 128 159 b
      else if byte a = 240 then byte_in 144 191 b
      else if byte a = 244 then byte_in 128 143 b
      else byte_in 128 191 b)"

definition utf8_width :: "char \<Rightarrow> nat" where
  "utf8_width a =
     (if byte a < 128 then 1 else if byte_in 194 223 a then 2 else if byte_in 224 239 a then 3
      else if byte_in 240 244 a then 4 else 0)"

fun utf8_error_from :: "nat \<Rightarrow> string \<Rightarrow> (nat \<times> nat option) option" where
  "utf8_error_from i [] = None"
| "utf8_error_from i (a # s) =
     (if utf8_width a = 1 then utf8_error_from (i + 1) s
      else if utf8_width a = 0 then Some (i, Some 1)
      else
        (case s of
           [] \<Rightarrow> Some (i, None)
         | b # s \<Rightarrow>
             if \<not> second_ok a b then Some (i, Some 1)
             else if utf8_width a = 2 then utf8_error_from (i + 2) s
             else
               (case s of
                  [] \<Rightarrow> Some (i, None)
                | c # s \<Rightarrow>
                    if \<not> byte_in 128 191 c then Some (i, Some 2)
                    else if utf8_width a = 3 then utf8_error_from (i + 3) s
                    else
                      (case s of
                         [] \<Rightarrow> Some (i, None)
                       | d # s \<Rightarrow>
                           if \<not> byte_in 128 191 d then Some (i, Some 3) else utf8_error_from (i + 4) s))))"

definition utf8_error_text :: "nat \<times> nat option \<Rightarrow> string" where
  "utf8_error_text e =
     (case e of
        (i, Some n) \<Rightarrow> ''invalid utf-8 sequence of '' @ show_nat n @ '' bytes from index '' @ show_nat i
      | (i, None) \<Rightarrow> ''incomplete utf-8 byte sequence from index '' @ show_nat i)"

definition from_utf8 :: "string \<Rightarrow> string + string" where
  "from_utf8 s = (case utf8_error_from 0 s of None \<Rightarrow> Inr s | Some e \<Rightarrow> Inl (utf8_error_text e))"

lemma from_utf8_Inr_iff [result_simps]: "from_utf8 s = Inr t \<longleftrightarrow> t = s \<and> utf8_error_from 0 s = None"
  by (auto simp: from_utf8_def split: option.splits)

lemma utf8_error_from_ascii: "is_ascii s \<Longrightarrow> utf8_error_from i s = None"
  by (induction s arbitrary: i) (auto simp: is_ascii_def utf8_width_def)

lemma from_utf8_ascii: "is_ascii s \<Longrightarrow> from_utf8 s = Inr s"
  by (simp add: from_utf8_def utf8_error_from_ascii)

subsection \<open>Hexadecimal\<close>

definition hex_digit :: "nat \<Rightarrow> char" where
  "hex_digit n = (if n < 10 then char_of (48 + n) else char_of (87 + n))"

definition hex :: "string \<Rightarrow> string" where
  "hex s = concat (map (\<lambda>c. [hex_digit (byte c div 16), hex_digit (byte c mod 16)]) s)"

lemma hex_digit_inj: "m < 16 \<Longrightarrow> n < 16 \<Longrightarrow> hex_digit m = hex_digit n \<longleftrightarrow> m = n"
  by (auto simp: hex_digit_def byte_eq_iff [symmetric])

lemma hex_digit_class: "n < 16 \<Longrightarrow> is_ascii_hexdigit (hex_digit n) \<and> ascii_lower (hex_digit n) = hex_digit n"
  by (auto simp: hex_digit_def is_ascii_hexdigit_def is_ascii_digit_iff in_range_def
      byte_eq_iff [symmetric] byte_ascii_lower) (simp_all add: byte_def)

lemma length_hex [simp]: "length (hex s) = 2 * length s"
  by (induction s) (simp_all add: hex_def)

lemma hex_inj: "hex s = hex t \<longleftrightarrow> s = t"
proof (induction s arbitrary: t)
  case Nil
  then show ?case by (cases t) (simp_all add: hex_def)
next
  case (Cons c s)
  show ?case
  proof (cases t)
    case Nil
    then show ?thesis by (simp add: hex_def)
  next
    case (Cons d t')
    have "byte c div 16 < 16" "byte d div 16 < 16"
      using byte_less [of c] byte_less [of d] by linarith+
    then have "hex (c # s) = hex (d # t') \<longleftrightarrow>
        byte c div 16 = byte d div 16 \<and> byte c mod 16 = byte d mod 16 \<and> hex s = hex t'"
      by (simp add: hex_def hex_digit_inj)
    also have "\<dots> \<longleftrightarrow> c = d \<and> s = t'"
      by (metis Cons.IH byte_eq_iff div_mult_mod_eq)
    finally show ?thesis using Cons by simp
  qed
qed

lemma hex_lower: "to_ascii_lowercase (hex s) = hex s"
proof (induction s)
  case (Cons c s)
  have "byte c div 16 < 16" using byte_less [of c] by linarith
  with Cons show ?case by (simp add: hex_def to_ascii_lowercase_def hex_digit_class)
qed (simp add: hex_def to_ascii_lowercase_def)

end
