(* ===== verification/TR_Json.thy ===== *)
theory TR_Json
  imports TR_Prelude Complex_Main "HOL-Library.Finite_Map"
begin

text \<open>
  The JSON values of the program, \<open>serde_json::Value\<close>, and the accessors the SDK calls on them.
  An object is a finite map, as \<open>serde_json::Map\<close> is an ordered map without insertion order:
  two objects are equal when they have the same entries. A number is one of the three
  representations of \<open>serde_json::Number\<close>; a floating-point number is a rational. Parsing and
  printing belong to \<open>serde_json\<close> and are parameters of the definitions that use them.
\<close>

datatype jnumber = PosInt nat | NegInt int | JFloat rat

datatype json =
    JNull
  | JBool bool
  | JNumber jnumber
  | JString string
  | JArray "json list"
  | JObject "(string, json) fmap"

type_synonym jobject = "(string, json) fmap"

fun as_str :: "json \<Rightarrow> string option" where
  "as_str (JString s) = Some s"
| "as_str _ = None"

fun as_object :: "json \<Rightarrow> jobject option" where
  "as_object (JObject m) = Some m"
| "as_object _ = None"

fun as_array :: "json \<Rightarrow> json list option" where
  "as_array (JArray xs) = Some xs"
| "as_array _ = None"

fun as_bool :: "json \<Rightarrow> bool option" where
  "as_bool (JBool b) = Some b"
| "as_bool _ = None"

fun as_u64 :: "json \<Rightarrow> nat option" where
  "as_u64 (JNumber (PosInt n)) = Some n"
| "as_u64 _ = None"

fun as_i64 :: "json \<Rightarrow> int option" where
  "as_i64 (JNumber (PosInt n)) = (if int n \<le> i64_max then Some (int n) else None)"
| "as_i64 (JNumber (NegInt i)) = Some i"
| "as_i64 _ = None"

definition is_object :: "json \<Rightarrow> bool" where "is_object v \<longleftrightarrow> as_object v \<noteq> None"
definition is_string :: "json \<Rightarrow> bool" where "is_string v \<longleftrightarrow> as_str v \<noteq> None"
definition is_array :: "json \<Rightarrow> bool" where "is_array v \<longleftrightarrow> as_array v \<noteq> None"
definition is_null :: "json \<Rightarrow> bool" where "is_null v \<longleftrightarrow> v = JNull"

text \<open>\<open>Value::get\<close> with a string key: the member of an object, nothing for every other value.\<close>

fun jget :: "string \<Rightarrow> json \<Rightarrow> json option" where
  "jget k (JObject m) = fmlookup m k"
| "jget k _ = None"

definition jstr :: "string \<Rightarrow> json \<Rightarrow> string option" where
  "jstr k v = Option.bind (jget k v) as_str"

definition obj :: "(string \<times> json) list \<Rightarrow> json" where
  "obj xs = JObject (fmap_of_list xs)"

lemma jget_obj [simp]: "jget k (obj xs) = map_of xs k"
  by (simp add: obj_def fmlookup_of_list)

lemma as_object_obj [simp]: "as_object (obj xs) = Some (fmap_of_list xs)"
  by (simp add: obj_def)

lemma jstr_obj [simp]: "jstr k (obj xs) = Option.bind (map_of xs k) as_str"
  by (simp add: jstr_def)

lemma is_object_simps [simp]: "is_object (JObject m)" "is_object (obj xs)"
  by (simp_all add: is_object_def obj_def)

lemma as_str_Some_iff [simp]: "as_str v = Some s \<longleftrightarrow> v = JString s"
  by (cases v) simp_all

lemma as_object_Some_iff [simp]: "as_object v = Some m \<longleftrightarrow> v = JObject m"
  by (cases v) simp_all

lemma as_array_Some_iff [simp]: "as_array v = Some xs \<longleftrightarrow> v = JArray xs"
  by (cases v) simp_all

lemma as_bool_Some_iff [simp]: "as_bool v = Some b \<longleftrightarrow> v = JBool b"
  by (cases v) simp_all

lemma jstr_Some_iff: "jstr k v = Some s \<longleftrightarrow> jget k v = Some (JString s)"
  by (simp add: jstr_def bind_eq_Some_conv)

lemma jget_Some_object: "jget k v = Some w \<Longrightarrow> \<exists>m. v = JObject m \<and> fmlookup m k = Some w"
  by (cases v) simp_all

end
