(* ===== verification/TR_Error.thy ===== *)
theory TR_Error
  imports TR_Json
begin

text \<open>
  Typed SDK errors (\<open>error.rs\<close>): the error enumeration, its stable classification, and the
  classification of a failed HTTP response.
\<close>

datatype error_kind =
    KBadRequest | KAuthentication | KPermissionDenied | KNotFound | KRateLimit
  | KEndpointNotSupported | KInternal | KTransport | KTimeout | KSerialization
  | KInvalidConfiguration | KAttestation | KOAuth

record api_error =
  api_status_code :: nat
  api_message :: string
  api_payload :: "json option"
  api_retry_after :: "duration option"
  api_layer :: "string option"
  api_source :: "string option"
  api_provider :: "string option"
  api_request_id :: "string option"

datatype error =
    ErrApi error_kind api_error
  | ErrTransport string
  | ErrTimeout string
  | ErrSerialization string
  | ErrInvalidConfiguration string
  | ErrAttestation string
  | ErrOAuth string

fun kind :: "error \<Rightarrow> error_kind" where
  "kind (ErrApi k _) = k"
| "kind (ErrTransport _) = KTransport"
| "kind (ErrTimeout _) = KTimeout"
| "kind (ErrSerialization _) = KSerialization"
| "kind (ErrInvalidConfiguration _) = KInvalidConfiguration"
| "kind (ErrAttestation _) = KAttestation"
| "kind (ErrOAuth _) = KOAuth"

fun status_code :: "error \<Rightarrow> nat option" where
  "status_code (ErrApi _ e) = Some (api_status_code e)"
| "status_code _ = None"

fun api_error_of :: "error \<Rightarrow> api_error option" where
  "api_error_of (ErrApi _ e) = Some e"
| "api_error_of _ = None"

definition error_object :: "json \<Rightarrow> jobject option" where
  "error_object payload = Option.bind (jget ''error'' payload) as_object"

text \<open>The lookup closure \<open>string_field\<close> of \<open>classify_api_error\<close>: the field of the \<open>error\<close> object
  shadows the top-level one even when it is not a string.\<close>

definition string_field :: "json option \<Rightarrow> string \<Rightarrow> string option" where
  "string_field payload name =
     Option.bind
       (opt_or
         (Option.bind (Option.bind payload error_object) (\<lambda>m. fmlookup m name))
         (Option.bind payload (jget name)))
       as_str"

definition kind_of_status :: "nat \<Rightarrow> error_kind" where
  "kind_of_status status =
     (if status = 401 then KAuthentication
      else if status = 403 then KPermissionDenied
      else if status = 404 then KNotFound
      else if status = 429 then KRateLimit
      else if status = 501 then KEndpointNotSupported
      else if 400 \<le> status \<and> status \<le> 499 then KBadRequest
      else KInternal)"

definition error_message :: "json option \<Rightarrow> string" where
  "error_message payload =
     unwrap_or ''TrustedRouter error''
       (opt_or
         (Option.bind (Option.bind (Option.bind payload error_object)
            (\<lambda>m. fmlookup m ''message'')) as_str)
         (Option.bind payload (jstr ''message'')))"

definition classify_api_error :: "nat \<Rightarrow> json option \<Rightarrow> duration option \<Rightarrow> error" where
  "classify_api_error status payload retry_after =
     ErrApi (kind_of_status status)
       \<lparr>api_status_code = status,
        api_message = error_message payload,
        api_payload = payload,
        api_retry_after = retry_after,
        api_layer = string_field payload ''layer'',
        api_source = string_field payload ''source'',
        api_provider = string_field payload ''provider'',
        api_request_id = string_field payload ''request_id''\<rparr>"

lemma status_code_classify [simp]:
  "status_code (classify_api_error status payload ra) = Some status"
  by (simp add: classify_api_error_def)

lemma kind_classify [simp]: "kind (classify_api_error status payload ra) = kind_of_status status"
  by (simp add: classify_api_error_def)

lemma kind_of_status_client_error:
  "kind_of_status s = KBadRequest \<longleftrightarrow> 400 \<le> s \<and> s \<le> 499 \<and> s \<notin> {401, 403, 404, 429}"
  by (auto simp: kind_of_status_def)

lemma kind_of_status_internal:
  "kind_of_status s = KInternal \<longleftrightarrow> (s < 400 \<or> 500 \<le> s) \<and> s \<noteq> 501"
  by (auto simp: kind_of_status_def)

lemma kind_classify_not_transport:
  "kind (classify_api_error s p ra) \<notin>
     {KTransport, KTimeout, KSerialization, KInvalidConfiguration, KAttestation, KOAuth}"
  by (auto simp: kind_of_status_def)

text \<open>The \<open>Display\<close> texts; the kind of an API error is shown by its name.\<close>

definition kind_name :: "error_kind \<Rightarrow> string" where
  "kind_name k =
     (case k of
        KBadRequest \<Rightarrow> ''BadRequest'' | KAuthentication \<Rightarrow> ''Authentication''
      | KPermissionDenied \<Rightarrow> ''PermissionDenied'' | KNotFound \<Rightarrow> ''NotFound'' | KRateLimit \<Rightarrow> ''RateLimit''
      | KEndpointNotSupported \<Rightarrow> ''EndpointNotSupported'' | KInternal \<Rightarrow> ''Internal''
      | KTransport \<Rightarrow> ''Transport'' | KTimeout \<Rightarrow> ''Timeout'' | KSerialization \<Rightarrow> ''Serialization''
      | KInvalidConfiguration \<Rightarrow> ''InvalidConfiguration'' | KAttestation \<Rightarrow> ''Attestation''
      | KOAuth \<Rightarrow> ''OAuth'')"

fun error_text :: "error \<Rightarrow> string" where
  "error_text (ErrApi k e) = kind_name k @ '': '' @ api_message e"
| "error_text (ErrTransport m) = ''TrustedRouter endpoint unavailable: '' @ m"
| "error_text (ErrTimeout m) = ''TrustedRouter request timed out: '' @ m"
| "error_text (ErrSerialization m) = ''TrustedRouter JSON error: '' @ m"
| "error_text (ErrInvalidConfiguration m) = ''Invalid TrustedRouter configuration: '' @ m"
| "error_text (ErrAttestation m) = ''TrustedRouter attestation verification failed: '' @ m"
| "error_text (ErrOAuth m) = ''TrustedRouter OAuth error: '' @ m"

end
