(* ===== verification/TR_Http.thy ===== *)
theory TR_Http
  imports TR_Prelude
begin

text \<open>
  The data of the \<open>http\<close> crate as the SDK uses it. A \<open>HeaderMap\<close> is a multimap from lower-case
  header names to the values in insertion order: \<open>get\<close> reads the first value, and \<open>extend\<close> with
  another map replaces the values of every name the other map has. The crate's parsers and
  decoders are parameters, the fields of \<open>http_api\<close>: \<open>HeaderValue::to_str\<close>,
  \<open>HeaderName::from_bytes\<close>, \<open>HeaderValue::from_str\<close>, and \<open>httpdate::parse_http_date\<close> (in
  nanoseconds since the epoch). What the SDK relies on about them is \<open>http_api_ok\<close>.
\<close>

type_synonym header_map = "string \<Rightarrow> string list"

definition no_headers :: header_map where "no_headers = (\<lambda>_. [])"

definition header_get :: "string \<Rightarrow> header_map \<Rightarrow> string option" where
  "header_get name h = (case h name of [] \<Rightarrow> None | v # _ \<Rightarrow> Some v)"

definition header_contains :: "string \<Rightarrow> header_map \<Rightarrow> bool" where
  "header_contains name h \<longleftrightarrow> h name \<noteq> []"

definition header_insert :: "string \<Rightarrow> string \<Rightarrow> header_map \<Rightarrow> header_map" where
  "header_insert name v h = h(name := [v])"

definition header_append :: "string \<Rightarrow> string \<Rightarrow> header_map \<Rightarrow> header_map" where
  "header_append name v h = h(name := h name @ [v])"

definition header_remove :: "string \<Rightarrow> header_map \<Rightarrow> header_map" where
  "header_remove name h = h(name := [])"

definition header_extend :: "header_map \<Rightarrow> header_map \<Rightarrow> header_map" where
  "header_extend h k = (\<lambda>name. if k name = [] then h name else k name)"

definition headers_of :: "(string \<times> string) list \<Rightarrow> header_map" where
  "headers_of xs = fold (\<lambda>(n, v). header_append n v) xs no_headers"

record http_api =
  hv_to_str :: "string \<Rightarrow> string option"
  hn_from_bytes :: "string \<Rightarrow> string + string"
  hv_from_str :: "string \<Rightarrow> string + string"
  http_date :: "string \<Rightarrow> nat option"

definition visible_ascii :: "char \<Rightarrow> bool" where
  "visible_ascii c \<longleftrightarrow> (32 \<le> byte c \<and> byte c < 127) \<or> byte c = 9"

text \<open>The documented behaviour: \<open>to_str\<close> and \<open>from_str\<close> keep the text, both accept visible ASCII,
  and a parsed header name is the lower-case form of its spelling.\<close>

definition http_api_ok :: "http_api \<Rightarrow> bool" where
  "http_api_ok H \<longleftrightarrow>
     (\<forall>v. list_all visible_ascii v \<longrightarrow> hv_to_str H v = Some v) \<and>
     (\<forall>v. list_all visible_ascii v \<longrightarrow> hv_from_str H v = Inr v) \<and>
     (\<forall>v w. hv_to_str H v = Some w \<longrightarrow> w = v) \<and>
     (\<forall>v w. hv_from_str H v = Inr w \<longrightarrow> w = v) \<and>
     (\<forall>n m. hn_from_bytes H n = Inr m \<longrightarrow> m = to_ascii_lowercase n)"

definition header_text :: "http_api \<Rightarrow> string \<Rightarrow> header_map \<Rightarrow> string option" where
  "header_text H name h = Option.bind (header_get name h) (hv_to_str H)"

text \<open>A concrete instance with these properties, for evaluating the model on examples.\<close>

definition plain_http :: http_api where
  "plain_http =
     \<lparr>hv_to_str = (\<lambda>v. if list_all visible_ascii v then Some v else None),
      hn_from_bytes = (\<lambda>n. if n \<noteq> [] \<and> list_all is_graphic n then Inr (to_ascii_lowercase n)
                            else Inl ''invalid HTTP header name''),
      hv_from_str = (\<lambda>v. if list_all visible_ascii v then Inr v
                          else Inl ''failed to parse header value''),
      http_date = (\<lambda>_. None)\<rparr>"

lemma plain_http_ok: "http_api_ok plain_http"
  by (simp add: http_api_ok_def plain_http_def)

lemma http_to_str: "http_api_ok H \<Longrightarrow> list_all visible_ascii v \<Longrightarrow> hv_to_str H v = Some v"
  by (simp add: http_api_ok_def)

lemma http_from_str: "http_api_ok H \<Longrightarrow> list_all visible_ascii v \<Longrightarrow> hv_from_str H v = Inr v"
  by (simp add: http_api_ok_def)

lemma http_from_str_id: "http_api_ok H \<Longrightarrow> hv_from_str H v = Inr w \<Longrightarrow> w = v"
  by (simp add: http_api_ok_def)

lemma http_name_lower: "http_api_ok H \<Longrightarrow> hn_from_bytes H n = Inr m \<Longrightarrow> m = to_ascii_lowercase n"
  by (simp add: http_api_ok_def)

lemma visible_graphic: "(\<And>c. c \<in> set s \<Longrightarrow> is_graphic c) \<Longrightarrow> list_all visible_ascii s"
  by (force simp: list_all_iff visible_ascii_def is_graphic_def)

lemma visible_show_nat: "list_all visible_ascii (show_nat n)"
  by (rule visible_graphic) (rule is_graphic_digit, rule show_nat_digits)

lemma http_to_str_show_nat: "http_api_ok H \<Longrightarrow> hv_to_str H (show_nat n) = Some (show_nat n)"
  by (rule http_to_str [OF _ visible_show_nat])

lemmas header_defs = header_get_def header_contains_def header_insert_def header_append_def
  header_remove_def header_extend_def no_headers_def

lemma header_get_None_iff: "header_get name h = None \<longleftrightarrow> \<not> header_contains name h"
  by (simp add: header_defs split: list.splits)

lemma header_get_insert [simp]:
  "header_get n (header_insert m v h) = (if n = m then Some v else header_get n h)"
  by (simp add: header_defs)

lemma header_get_remove [simp]:
  "header_get n (header_remove m h) = (if n = m then None else header_get n h)"
  by (simp add: header_defs)

lemma header_get_no_headers [simp]: "header_get n no_headers = None"
  by (simp add: header_defs)

lemma header_get_extend [simp]:
  "header_get n (header_extend h k) = (if header_contains n k then header_get n k else header_get n h)"
  by (simp add: header_defs)

lemma header_contains_insert [simp]:
  "header_contains n (header_insert m v h) \<longleftrightarrow> n = m \<or> header_contains n h"
  by (simp add: header_defs)

lemma header_contains_remove [simp]:
  "header_contains n (header_remove m h) \<longleftrightarrow> n \<noteq> m \<and> header_contains n h"
  by (simp add: header_defs)

lemma header_contains_extend [simp]:
  "header_contains n (header_extend h k) \<longleftrightarrow> header_contains n h \<or> header_contains n k"
  by (simp add: header_defs)

lemma header_contains_no_headers [simp]: "\<not> header_contains n no_headers"
  by (simp add: header_defs)

end
