(* ===== verification/TR_Types.thy ===== *)
theory TR_Types
  imports TR_Error TR_Http
begin

text \<open>
  The data every layer of the transport shares (\<open>client.rs\<close>, \<open>constants.rs\<close>): planes, HTTP
  methods, per-call options and the client itself. The URL type of the \<open>url\<close> crate is the type
  parameter \<open>'u\<close>, and its operations are the fields of \<open>url_api\<close>, which the definitions that
  handle URLs take as an argument. The two HTTP transports of a client (an injected one and the
  SDK-owned credential-free one) are values of the type parameter \<open>'c\<close>.
\<close>

datatype plane = Inference | Control

datatype http_method =
  GET | HEAD | OPTIONS | TRACE | POST | PUT | PATCH | DELETE | CONNECT | Extension string

text \<open>A \<open>BTreeMap<String, String>\<close> of headers is the sequence of its entries in key order.\<close>

type_synonym header_layer = "(string \<times> string) list"

record call_options =
  co_api_key :: "string option"
  co_workspace_id :: "string option"
  co_idempotency_key :: "string option"
  co_timeout :: "duration option"
  co_headers :: header_layer

definition default_call_options :: call_options where
  "default_call_options =
     \<lparr>co_api_key = None, co_workspace_id = None, co_idempotency_key = None, co_timeout = None,
      co_headers = []\<rparr>"

record ('u, 'c) client =
  cl_api_key :: "string option"
  cl_api_base_url :: 'u
  cl_api_base_urls :: "'u list"
  cl_control_base_url :: 'u
  cl_workspace_id :: "string option"
  cl_timeout :: "duration option"
  cl_max_retries :: nat
  cl_telemetry :: bool
  cl_telemetry_sink :: bool
  cl_headers :: header_layer
  cl_http :: 'c
  cl_credential_free_http :: 'c

record 'u url_api =
  url_parse :: "string \<Rightarrow> string + 'u"
  url_join :: "'u \<Rightarrow> string \<Rightarrow> string + 'u"
  url_scheme :: "'u \<Rightarrow> string"
  url_host_str :: "'u \<Rightarrow> string option"
  url_path :: "'u \<Rightarrow> string"
  url_set_path :: "string \<Rightarrow> 'u \<Rightarrow> 'u"
  url_same_origin :: "'u \<Rightarrow> 'u \<Rightarrow> bool"

definition DEFAULT_API_BASE_URL :: string where
  "DEFAULT_API_BASE_URL = ''https://api.trustedrouter.com/v1''"

definition ALIAS_API_BASE_URLS :: "string list" where
  "ALIAS_API_BASE_URLS = [''https://api.allyrouter.com/v1'', ''https://api.uptimerouter.com/v1'']"

definition DEFAULT_CONTROL_BASE_URL :: string where
  "DEFAULT_CONTROL_BASE_URL = ''https://trustedrouter.com/v1''"

text \<open>\<open>StatusCode::is_success\<close>: 200 to 299.\<close>

definition is_success :: "nat \<Rightarrow> bool" where
  "is_success status \<longleftrightarrow> 200 \<le> status \<and> status \<le> 299"

text \<open>A concrete URL type for evaluating the model on examples: scheme, host and path of
  \<open>scheme://host/path\<close>, with \<open>join\<close> of a relative path below the base.\<close>

record plain_url =
  pu_scheme :: string
  pu_host :: string
  pu_path :: string

definition plain_parse :: "string \<Rightarrow> string + plain_url" where
  "plain_parse s =
     (case find_subslice ''://'' s of
        None \<Rightarrow> Inl ''relative URL without a base''
      | Some i \<Rightarrow>
          (let rest = drop (i + 3) s; host = takeWhile (\<lambda>c. c \<noteq> CHR ''/'') rest;
               path = dropWhile (\<lambda>c. c \<noteq> CHR ''/'') rest
           in Inr \<lparr>pu_scheme = take i s, pu_host = host,
                   pu_path = (if path = [] then ''/'' else path)\<rparr>))"

definition plain_urls :: "plain_url url_api" where
  "plain_urls =
     \<lparr>url_parse = plain_parse,
      url_join = (\<lambda>u p. Inr (u\<lparr>pu_path := pu_path u @ p\<rparr>)),
      url_scheme = pu_scheme,
      url_host_str = (\<lambda>u. if pu_host u = [] then None else Some (pu_host u)),
      url_path = pu_path,
      url_set_path = (\<lambda>p u. u\<lparr>pu_path := p\<rparr>),
      url_same_origin = (\<lambda>u v. pu_scheme u = pu_scheme v \<and> pu_host u = pu_host v)\<rparr>"

lemma plain_urls_simps [simp]:
  "url_parse plain_urls = plain_parse"
  "url_join plain_urls u p = Inr (u\<lparr>pu_path := pu_path u @ p\<rparr>)"
  "url_scheme plain_urls u = pu_scheme u"
  "url_host_str plain_urls u = (if pu_host u = [] then None else Some (pu_host u))"
  "url_path plain_urls u = pu_path u"
  "url_set_path plain_urls p u = u\<lparr>pu_path := p\<rparr>"
  "url_same_origin plain_urls u v \<longleftrightarrow> pu_scheme u = pu_scheme v \<and> pu_host u = pu_host v"
  by (simp_all add: plain_urls_def)

end
