(* ===== verification/TR_Routing.thy ===== *)
theory TR_Routing
  imports TR_Types
begin

text \<open>
  The plane router (\<open>transport/routing.rs\<close>): the ordered candidate URLs of one logical call and
  the semantic route classifier shared by telemetry and stream validation. A semantic route is a
  sequence of code points up to U+00FF (what \<open>char::from(byte)\<close> pushes), one \<open>char\<close> each.
\<close>

section \<open>Candidate URLs\<close>

definition trim_start_slashes :: "string \<Rightarrow> string" where
  "trim_start_slashes p = dropWhile (\<lambda>c. c = CHR ''/'') p"

definition root_relative :: "string \<Rightarrow> bool" where
  "root_relative path \<longleftrightarrow>
     starts_with ''/'' path \<and> \<not> starts_with ''//'' path \<and> \<not> str_contains [CHR 0x5C] path"

definition not_root_relative :: error where
  "not_root_relative = ErrInvalidConfiguration ''API path must be a root-relative path''"

definition relative_url ::
    "'u url_api \<Rightarrow> ('u, 'c) client \<Rightarrow> plane \<Rightarrow> string \<Rightarrow> error + 'u" where
  "relative_url U cl plane path =
     (if \<not> root_relative path then Inl not_root_relative
      else (let base = (case plane of Inference \<Rightarrow> cl_api_base_url cl | Control \<Rightarrow> cl_control_base_url cl)
            in map_err ErrInvalidConfiguration (url_join U base (trim_start_slashes path))))"

text \<open>The loop of \<open>plane_urls\<close> over the bases: the first failing join ends it.\<close>

fun join_all :: "'u url_api \<Rightarrow> string \<Rightarrow> 'u list \<Rightarrow> error + 'u list" where
  "join_all U trimmed [] = Inr []"
| "join_all U trimmed (base # bases) =
     and_then (map_err ErrInvalidConfiguration (url_join U base trimmed)) (\<lambda>u.
     and_then (join_all U trimmed bases) (\<lambda>us. Inr (u # us)))"

definition plane_urls ::
    "'u url_api \<Rightarrow> ('u, 'c) client \<Rightarrow> plane \<Rightarrow> string \<Rightarrow> error + 'u list" where
  "plane_urls U cl plane path =
     (case plane of
        Control \<Rightarrow> and_then (relative_url U cl plane path) (\<lambda>u. Inr [u])
      | Inference \<Rightarrow>
          (if \<not> root_relative path then Inl not_root_relative
           else join_all U (trim_start_slashes path) (cl_api_base_urls cl)))"

definition parse_base_url :: "'u url_api \<Rightarrow> string \<Rightarrow> string \<Rightarrow> error + 'u" where
  "parse_base_url U value name =
     and_then
       (map_err (\<lambda>e. ErrInvalidConfiguration (''invalid '' @ name @ '' base URL: '' @ e))
         (url_parse U value)) (\<lambda>url.
     if (url_scheme U url \<noteq> ''http'' \<and> url_scheme U url \<noteq> ''https'') \<or> url_host_str U url = None
     then Inl (ErrInvalidConfiguration (name @ '' base URL must be an HTTP(S) origin''))
     else if \<not> ends_with ''/'' (url_path U url)
     then Inr (url_set_path U (url_path U url @ ''/'') url)
     else Inr url)"

definition inference_base_urls :: "'u url_api \<Rightarrow> 'u \<Rightarrow> 'u list" where
  "inference_base_urls U primary =
     (let default_url = result_ok (parse_base_url U DEFAULT_API_BASE_URL ''inference'')
      in if default_url \<noteq> Some primary then [primary]
         else primary #
           List.map_filter (\<lambda>alias. result_ok (parse_base_url U alias ''inference''))
             ALIAS_API_BASE_URLS)"

section \<open>Semantic routes\<close>

definition to_digit16 :: "char \<Rightarrow> nat option" where
  "to_digit16 c =
     (if in_range CHR ''0'' CHR ''9'' c then Some (byte c - 48)
      else if in_range CHR ''a'' CHR ''f'' c then Some (byte c - 87)
      else if in_range CHR ''A'' CHR ''F'' c then Some (byte c - 55)
      else None)"

fun percent_decode_ascii :: "string \<Rightarrow> string" where
  "percent_decode_ascii (c # h # l # cs) =
     (if c = CHR ''%'' then
        (case (to_digit16 h, to_digit16 l) of
           (Some high, Some low) \<Rightarrow> char_of (high * 16 + low) # percent_decode_ascii cs
         | _ \<Rightarrow> c # percent_decode_ascii (h # l # cs))
      else c # percent_decode_ascii (h # l # cs))"
| "percent_decode_ascii (c # cs) = c # percent_decode_ascii cs"
| "percent_decode_ascii [] = []"

definition push_route :: "string \<Rightarrow> char \<Rightarrow> string" where
  "push_route route character =
     (let character = ascii_lower character
      in if character = CHR ''/'' \<and> route \<noteq> [] \<and> last route = CHR ''/'' then route
         else route @ [character])"

function pop_trailing :: "string \<Rightarrow> string" where
  "pop_trailing route =
     (if length route > 1 \<and> last route = CHR ''/'' then pop_trailing (butlast route) else route)"
  by pat_completeness auto
termination
  by (relation "measure length") auto

declare pop_trailing.simps [simp del]

definition semantic_route :: "string \<Rightarrow> string" where
  "semantic_route path = pop_trailing (foldl push_route [] (percent_decode_ascii path))"

definition semantic_request_route :: "'u url_api \<Rightarrow> string \<Rightarrow> string" where
  "semantic_request_route U path =
     (case url_parse U ''https://sdk.invalid/'' of
        Inl _ \<Rightarrow> semantic_route path
      | Inr root_url \<Rightarrow>
          (case url_join U root_url (trim_start_slashes path) of
             Inl _ \<Rightarrow> semantic_route path
           | Inr resolved \<Rightarrow> semantic_route (url_path U resolved)))"

definition semantic_route_relative_to_base :: "'u url_api \<Rightarrow> 'u \<Rightarrow> 'u \<Rightarrow> string option" where
  "semantic_route_relative_to_base U base response =
     (if \<not> url_same_origin U base response then None
      else
        (let base_path = semantic_route (url_path U base);
             response_path = semantic_route (url_path U response)
         in if base_path = ''/'' then Some response_path
            else if response_path = base_path then Some ''/''
            else map_option (\<lambda>relative. ''/'' @ relative)
                   (strip_prefix (base_path @ ''/'') response_path)))"

section \<open>Routes as component lists\<close>

text \<open>The reference view of a route: the non-empty components of the decoded, case-folded path.\<close>

definition folded :: "string \<Rightarrow> string" where
  "folded path = map ascii_lower (percent_decode_ascii path)"

definition components :: "string \<Rightarrow> string list" where
  "components d = filter (\<lambda>p. p \<noteq> []) (split_on CHR ''/'' d)"

definition render_route :: "bool \<Rightarrow> string list \<Rightarrow> string" where
  "render_route rooted comps = (if rooted then ''/'' else []) @ join_with ''/'' comps"

fun squeeze :: "string \<Rightarrow> string" where
  "squeeze (a # b # cs) =
     (if a = CHR ''/'' \<and> b = CHR ''/'' then squeeze (b # cs) else a # squeeze (b # cs))"
| "squeeze cs = cs"

lemma foldl_push_route:
  "foldl push_route (route @ [c]) d = route @ squeeze (c # map ascii_lower d)"
  if "ascii_lower c = c"
  using that
proof (induction d arbitrary: route c)
  case (Cons x d)
  show ?case
  proof (cases "ascii_lower x = CHR ''/'' \<and> c = CHR ''/''")
    case True
    with Cons show ?thesis by (simp add: push_route_def)
  next
    case False
    then have "push_route (route @ [c]) x = (route @ [c]) @ [ascii_lower x]"
      by (auto simp: push_route_def Let_def)
    with False Cons.IH [of "ascii_lower x" "route @ [c]"] show ?thesis by auto
  qed
qed simp

lemma fold_route_squeeze: "foldl push_route [] d = squeeze (map ascii_lower d)"
proof (cases d)
  case (Cons x xs)
  have "push_route [] x = [] @ [ascii_lower x]" by (simp add: push_route_def)
  with Cons foldl_push_route [of "ascii_lower x" "[]" xs] show ?thesis by simp
qed simp

lemma components_Nil [simp]: "components [] = []"
  by (simp add: components_def)

lemma components_slash [simp]: "components (CHR ''/'' # d) = components d"
  by (simp add: components_def)

lemma components_Cons:
  "c \<noteq> CHR ''/'' \<Longrightarrow> components (c # d) =
     (if d = [] \<or> hd d = CHR ''/'' then [c] # components d
      else (c # hd (components d)) # tl (components d))"
  by (cases d) (auto simp: components_def split: list.splits)

lemma components_props: "p \<in> set (components d) \<Longrightarrow> p \<noteq> [] \<and> CHR ''/'' \<notin> set p"
  using split_on_no_sep [of p "CHR ''/''" d] by (auto simp: components_def)

lemma components_empty_iff: "components d = [] \<longleftrightarrow> set d \<subseteq> {CHR ''/''}"
proof (induction d)
  case (Cons c d)
  show ?case
  proof (cases "c = CHR ''/''")
    case True
    with Cons show ?thesis by simp
  next
    case False
    then have "components (c # d) \<noteq> []" by (simp add: components_Cons)
    with False show ?thesis by simp
  qed
qed simp

lemma join_with_Cons: "join_with d (p # ps) = p @ (if ps = [] then [] else d @ join_with d ps)"
  by (cases ps) simp_all

lemma join_with_append:
  "ps \<noteq> [] \<Longrightarrow> qs \<noteq> [] \<Longrightarrow> join_with d (ps @ qs) = join_with d ps @ d @ join_with d qs"
  by (induction ps) (auto simp: join_with_Cons)

lemma squeeze_components:
  "d \<noteq> [] \<Longrightarrow> squeeze d =
     (if hd d = CHR ''/'' then ''/'' else []) @ join_with ''/'' (components d) @
     (if last d = CHR ''/'' \<and> components d \<noteq> [] then ''/'' else [])"
proof (induction d rule: squeeze.induct [case_names double empty single])
  case (double a b cs)
  let ?C = "components (b # cs)"
  have all_slash: "last (b # cs) = CHR ''/''" if "?C = []"
    using that components_empty_iff [of "b # cs"] last_in_set [of "b # cs"] by auto
  consider "a = CHR ''/''" | "a \<noteq> CHR ''/''" "b = CHR ''/''" | "a \<noteq> CHR ''/''" "b \<noteq> CHR ''/''"
    by blast
  then show ?case
  proof cases
    case 1
    then show ?thesis using double.IH by auto
  next
    case 2
    then have "components (a # b # cs) = [a] # ?C" by (simp add: components_Cons)
    with 2 all_slash double.IH(2) show ?thesis by (auto simp: join_with_Cons)
  next
    case 3
    then have C: "components (a # b # cs) = (a # hd ?C) # tl ?C" by (simp add: components_Cons)
    have "?C \<noteq> []" using 3 components_empty_iff [of "b # cs"] by auto
    then obtain h t where "?C = h # t" by (cases ?C) auto
    with 3 C double.IH(2) show ?thesis by (auto simp: join_with_Cons)
  qed
next
  case (single c)
  then show ?case by (cases "c = CHR ''/''") (simp_all add: components_Cons)
qed simp

lemma last_join_components:
  "components d \<noteq> [] \<Longrightarrow> join_with ''/'' (components d) \<noteq> [] \<and> last (join_with ''/'' (components d)) \<noteq> CHR ''/''"
proof -
  have "ps \<noteq> [] \<Longrightarrow> (\<And>p. p \<in> set ps \<Longrightarrow> p \<noteq> [] \<and> CHR ''/'' \<notin> set p) \<Longrightarrow>
    join_with ''/'' ps \<noteq> [] \<and> last (join_with ''/'' ps) \<noteq> CHR ''/''" for ps
  proof (induction ps)
    case (Cons p ps)
    then have "p \<noteq> []" "last p \<noteq> CHR ''/''"
      using last_in_set [of p] by (auto, metis last_in_set)
    with Cons show ?case by (auto simp: join_with_Cons)
  qed simp
  then show "components d \<noteq> [] \<Longrightarrow> ?thesis" using components_props by blast
qed

lemma pop_trailing_stop: "s = [] \<or> last s \<noteq> CHR ''/'' \<or> length s \<le> 1 \<Longrightarrow> pop_trailing s = s"
  by (subst pop_trailing.simps) auto

lemma pop_trailing_slash: "s \<noteq> [] \<Longrightarrow> pop_trailing (s @ ''/'') = pop_trailing s"
  by (subst pop_trailing.simps) (simp add: butlast_append)

text \<open>The imperative normaliser computes exactly the component view.\<close>

lemma semantic_route_components:
  "semantic_route path = render_route (starts_with ''/'' (folded path)) (components (folded path))"
proof (cases "folded path = []")
  case True
  then have "percent_decode_ascii path = []" by (simp add: folded_def)
  then show ?thesis
    by (simp add: semantic_route_def folded_def render_route_def starts_with_def pop_trailing_stop)
next
  case False
  let ?d = "folded path"
  let ?j = "join_with ''/'' (components ?d)"
  let ?r = "(if hd ?d = CHR ''/'' then ''/'' else []) @ ?j"
  have route: "semantic_route path =
    pop_trailing (?r @ (if last ?d = CHR ''/'' \<and> components ?d \<noteq> [] then ''/'' else []))"
    using squeeze_components [OF False] by (simp add: semantic_route_def fold_route_squeeze folded_def)
  have rooted: "hd ?d = CHR ''/'' \<longleftrightarrow> starts_with ''/'' ?d"
    using False by (cases ?d) (auto simp: starts_with_def)
  have "pop_trailing ?r = ?r"
  proof (cases "components ?d = []")
    case True
    then show ?thesis by (intro pop_trailing_stop) auto
  next
    case False
    then show ?thesis using last_join_components [OF False] by (intro pop_trailing_stop) auto
  qed
  moreover have "components ?d \<noteq> [] \<Longrightarrow> ?r \<noteq> []"
    using last_join_components [of ?d] by auto
  ultimately have "semantic_route path = ?r"
    unfolding route using pop_trailing_slash [of ?r]
    by (cases "last ?d = CHR ''/'' \<and> components ?d \<noteq> []")
      (simp_all only: if_True if_False append_Nil2 simp_thms)
  then show ?thesis unfolding render_route_def rooted .
qed

lemma folded_slash [simp]: "folded (CHR ''/'' # p) = CHR ''/'' # folded p"
proof -
  have "percent_decode_ascii (CHR ''/'' # p) = CHR ''/'' # percent_decode_ascii p"
    by (cases p; cases "tl p") simp_all
  moreover have "ascii_lower CHR ''/'' = CHR ''/''"
    by (simp add: byte_eq_iff [symmetric] byte_ascii_lower) (simp add: byte_def)
  ultimately show ?thesis by (simp add: folded_def)
qed

definition route_components :: "string \<Rightarrow> string list" where
  "route_components path = components (folded path)"

lemma rooted_semantic_route:
  "starts_with ''/'' path \<Longrightarrow> semantic_route path = ''/'' @ join_with ''/'' (route_components path)"
  by (auto simp: starts_with_iff semantic_route_components render_route_def route_components_def)

lemma split_join_components: "components d \<noteq> [] \<Longrightarrow> split_on CHR ''/'' (join_with ''/'' (components d)) = components d"
  by (rule split_on_join) (auto dest: components_props)

lemma join_components_Nil_iff: "join_with ''/'' (components d) = [] \<longleftrightarrow> components d = []"
  using last_join_components [of d] by (cases "components d = []") simp_all

lemma join_components_inj:
  "join_with ''/'' (components d) = join_with ''/'' (components e) \<longleftrightarrow> components d = components e"
  by (metis join_components_Nil_iff split_join_components)

lemma join_prefix_components:
  assumes "components d \<noteq> []" and "components e \<noteq> components d"
  shows "join_with ''/'' (components e) = join_with ''/'' (components d) @ ''/'' @ x \<longleftrightarrow>
    prefix (components d) (components e) \<and>
    x = join_with ''/'' (drop (length (components d)) (components e))"
    (is "?j e = ?j d @ _ \<longleftrightarrow> ?P")
proof
  assume eq: "?j e = ?j d @ ''/'' @ x"
  then have e: "components e \<noteq> []" using join_components_Nil_iff [of e] by auto
  have "split_on CHR ''/'' (?j d @ CHR ''/'' # x) = split_on CHR ''/'' (?j d) @ split_on CHR ''/'' x"
    by (rule split_on_append_join)
  then have "components e = components d @ split_on CHR ''/'' x"
    using eq split_join_components [OF e] split_join_components [OF assms(1)] by simp
  then show ?P by (simp add: join_split_on)
next
  assume ?P
  then obtain r where r: "components e = components d @ r" and x: "x = join_with ''/'' r"
    by (auto simp: prefix_def)
  with assms have "r \<noteq> []" by auto
  with r x assms show "?j e = ?j d @ ''/'' @ x" by (simp add: join_with_append)
qed

section \<open>Candidate lemmas\<close>

lemma join_all_Inr_iff:
  "join_all U t bases = Inr us \<longleftrightarrow> list_all2 (\<lambda>b u. url_join U b t = Inr u) bases us"
proof (induction bases arbitrary: us)
  case (Cons b bs)
  then show ?case by (cases us) (auto simp: result_simps)
qed auto

lemma plane_urls_Inr_length:
  "plane_urls U cl pl path = Inr us \<Longrightarrow>
     length us = (case pl of Control \<Rightarrow> 1 | Inference \<Rightarrow> length (cl_api_base_urls cl))"
  by (cases pl)
    (auto simp: plane_urls_def result_simps join_all_Inr_iff list_all2_lengthD split: if_splits)

lemma plane_urls_root_relative: "plane_urls U cl pl path = Inr us \<Longrightarrow> root_relative path"
  by (cases pl) (auto simp: plane_urls_def relative_url_def result_simps split: if_splits)

lemma parse_base_url_Inr:
  "parse_base_url U v n = Inr u \<Longrightarrow> \<exists>w. url_parse U v = Inr w \<and>
     url_scheme U w \<in> {''http'', ''https''} \<and> url_host_str U w \<noteq> None \<and>
     u = (if ends_with ''/'' (url_path U w) then w else url_set_path U (url_path U w @ ''/'') w)"
  by (auto simp: parse_base_url_def result_simps split: if_splits)

section \<open>Properties\<close>

text \<open>The candidate list of a call. When routing succeeds the path is root-relative (one leading
  slash, no backslash); a control-plane call has exactly one candidate, its base joined with the
  path; an inference call has one candidate per configured base, in the same order, each that
  base joined with the same path. A path that is not root-relative is an error on both planes.\<close>

theorem plane_urls_candidates:
  "(\<not> root_relative path \<longrightarrow> plane_urls U cl pl path = Inl not_root_relative) \<and>
   (plane_urls U cl pl path = Inr us \<longrightarrow>
      root_relative path \<and>
      list_all2 (\<lambda>b u. url_join U b (trim_start_slashes path) = Inr u)
        (case pl of Control \<Rightarrow> [cl_control_base_url cl] | Inference \<Rightarrow> cl_api_base_urls cl) us)"
  by (cases pl) (auto simp: plane_urls_def relative_url_def result_simps join_all_Inr_iff)

definition example_client :: "(plain_url, unit) client" where
  "example_client =
     (let u = \<lparr>pu_scheme = ''https'', pu_host = ''api.example'', pu_path = ''/v1/''\<rparr>
      in \<lparr>cl_api_key = Some ''sk'', cl_api_base_url = u,
          cl_api_base_urls = [u, u\<lparr>pu_host := ''alt.example''\<rparr>],
          cl_control_base_url = u\<lparr>pu_host := ''control.example''\<rparr>, cl_workspace_id = None,
          cl_timeout = None, cl_max_retries = 2, cl_telemetry = False, cl_telemetry_sink = False,
          cl_headers = [], cl_http = (), cl_credential_free_http = ()\<rparr>)"

theorem plane_urls_candidates_witness:
  "plane_urls plain_urls example_client Control ''//x'' = Inl not_root_relative \<and>
   root_relative ''/chat'' \<and>
   list_all2 (\<lambda>b u. url_join plain_urls b (trim_start_slashes ''/chat'') = Inr u)
     (cl_api_base_urls example_client)
     (map (\<lambda>b. b\<lparr>pu_path := ''/v1/chat''\<rparr>) (cl_api_base_urls example_client))"
proof -
  have "plane_urls plain_urls example_client Inference ''/chat'' =
    Inr (map (\<lambda>b. b\<lparr>pu_path := ''/v1/chat''\<rparr>) (cl_api_base_urls example_client))"
    by code_simp
  moreover have "\<not> root_relative ''//x''" by code_simp
  ultimately show ?thesis
    using plane_urls_candidates [of "''/chat''" plain_urls example_client Inference
        "map (\<lambda>b. b\<lparr>pu_path := ''/v1/chat''\<rparr>) (cl_api_base_urls example_client)"]
      plane_urls_candidates [of "''//x''" plain_urls example_client Control "[]"]
    by (simp del: plain_urls_simps)
qed

text \<open>Alias domains. The candidate bases always start with the configured base; every further one
  is a parsed alias constant; and there is a further one only when the configured base is the
  parsed default base, so a custom base URL is never redirected to a public alias.\<close>

theorem inference_base_urls_aliases:
  "\<exists>rest. inference_base_urls U primary = primary # rest \<and>
     set rest \<subseteq> {u. \<exists>alias\<in>set ALIAS_API_BASE_URLS. parse_base_url U alias ''inference'' = Inr u} \<and>
     (parse_base_url U DEFAULT_API_BASE_URL ''inference'' \<noteq> Inr primary \<longrightarrow> rest = [])"
proof (cases "parse_base_url U DEFAULT_API_BASE_URL ''inference'' = Inr primary")
  case True
  then show ?thesis
    by (auto simp: inference_base_urls_def List.map_filter_def result_ok_def split: sum.splits)
next
  case False
  then show ?thesis
    by (auto simp: inference_base_urls_def result_ok_Some_iff)
qed

theorem inference_base_urls_aliases_witness:
  "\<exists>rest. inference_base_urls plain_urls (cl_api_base_url example_client) =
     cl_api_base_url example_client # rest \<and> rest = []"
proof -
  have "parse_base_url plain_urls DEFAULT_API_BASE_URL ''inference'' \<noteq>
    Inr (cl_api_base_url example_client)"
    by code_simp
  with inference_base_urls_aliases [of plain_urls "cl_api_base_url example_client"]
  show ?thesis by auto
qed

text \<open>Semantic routes. The character loop that decodes percent escapes, folds case, collapses
  separators and drops trailing ones yields exactly the non-empty components of the decoded and
  case-folded path, joined by single slashes, with a leading slash when the path had one.\<close>

theorem semantic_route_spec:
  "semantic_route path =
     (if starts_with ''/'' (map ascii_lower (percent_decode_ascii path)) then ''/'' else []) @
     join_with ''/'' (filter (\<lambda>p. p \<noteq> [])
       (split_on CHR ''/'' (map ascii_lower (percent_decode_ascii path))))"
  using semantic_route_components [of path]
  by (simp add: render_route_def components_def folded_def)

text \<open>Routes relative to a base. For rooted paths (every HTTP URL has one) a response has a
  route relative to a base exactly when the origins agree and the components of the base path
  are a prefix of the components of the response path, and the route is what remains: a
  component boundary is required, so \<open>/v10\<close> is not below \<open>/v1\<close>.\<close>

theorem relative_route_component_prefix:
  assumes "starts_with ''/'' (url_path U base)" and "starts_with ''/'' (url_path U response)"
  shows "semantic_route_relative_to_base U base response =
    (if url_same_origin U base response \<and>
        prefix (route_components (url_path U base)) (route_components (url_path U response))
     then Some (''/'' @ join_with ''/'' (drop (length (route_components (url_path U base)))
            (route_components (url_path U response))))
     else None)"
proof -
  let ?b = "folded (url_path U base)" and ?r = "folded (url_path U response)"
  let ?j = "\<lambda>d. join_with ''/'' (components d)"
  have routes: "semantic_route (url_path U base) = ''/'' @ ?j ?b"
    "semantic_route (url_path U response) = ''/'' @ ?j ?r"
    using assms by (simp_all add: rooted_semantic_route route_components_def)
  have strip: "strip_prefix ((''/'' @ ?j ?b) @ ''/'') (''/'' @ ?j ?r) =
    (if prefix (components ?b) (components ?r)
     then Some (join_with ''/'' (drop (length (components ?b)) (components ?r))) else None)"
    if "components ?b \<noteq> []" "components ?r \<noteq> components ?b"
  proof (cases "prefix (components ?b) (components ?r)")
    case True
    then show ?thesis using join_prefix_components [OF that] by (simp add: strip_prefix_Some_iff)
  next
    case False
    then have "strip_prefix ((''/'' @ ?j ?b) @ ''/'') (''/'' @ ?j ?r) \<noteq> Some x" for x
      using join_prefix_components [OF that] by (simp add: strip_prefix_Some_iff)
    with False show ?thesis by (metis option.exhaust)
  qed
  show ?thesis
    unfolding semantic_route_relative_to_base_def routes Let_def route_components_def
    using strip join_components_Nil_iff [of ?b] join_components_inj [of ?r ?b]
    by (auto split: if_splits)
qed

definition base_url_example :: plain_url where
  "base_url_example = \<lparr>pu_scheme = ''https'', pu_host = ''api.example'', pu_path = ''/v1/''\<rparr>"

theorem relative_route_component_prefix_witness:
  "semantic_route_relative_to_base plain_urls base_url_example
     (base_url_example\<lparr>pu_path := ''/v1/CHAT//completions''\<rparr>) = Some ''/chat/completions'' \<and>
   semantic_route_relative_to_base plain_urls base_url_example
     (base_url_example\<lparr>pu_path := ''/v10/chat''\<rparr>) = None"
proof -
  have c: "route_components ''/v1/'' = [''v1'']" "route_components ''/v10/chat'' = [''v10'', ''chat'']"
    "route_components ''/v1/CHAT//completions'' = [''v1'', ''chat'', ''completions'']"
    by code_simp+
  show ?thesis
    using relative_route_component_prefix [of plain_urls base_url_example
        "base_url_example\<lparr>pu_path := ''/v1/CHAT//completions''\<rparr>"]
      relative_route_component_prefix [of plain_urls base_url_example
        "base_url_example\<lparr>pu_path := ''/v10/chat''\<rparr>"]
    by (simp add: base_url_example_def starts_with_def c)
qed

end
