(* ===== verification/TR_Policy.thy ===== *)
theory TR_Policy
  imports TR_Error TR_Http
begin

text \<open>
  The policy kernel (\<open>transport/policy.rs\<close>): the pure decisions about one failed attempt. The
  header crate is the parameter \<open>H\<close>, the wall clock read is the argument \<open>now\<close> (nanoseconds since the epoch), and the random draw of the jitter from
  \<open>0..=ceiling\<close> is the parameter \<open>draw\<close>.
\<close>

record failure_disposition =
  disp_error :: error
  disp_retry :: bool
  disp_failover :: bool
  disp_retry_after :: "duration option"

definition should_retry_verdict :: "http_api \<Rightarrow> header_map \<Rightarrow> bool option" where
  "should_retry_verdict H headers =
     Option.bind (header_text H ''x-should-retry'' headers)
       (\<lambda>v. let t = to_ascii_lowercase (trim v)
            in if t = ''true'' then Some True
               else if t = ''false'' then Some False
               else None)"

definition retryable_status :: "http_api \<Rightarrow> nat \<Rightarrow> header_map \<Rightarrow> bool" where
  "retryable_status H status headers =
     (case should_retry_verdict H headers of
        Some verdict \<Rightarrow> verdict
      | None \<Rightarrow> status = 429 \<or> 500 \<le> status)"

fun retryable_transport :: "error \<Rightarrow> bool" where
  "retryable_transport (ErrTransport _) = True"
| "retryable_transport (ErrTimeout _) = True"
| "retryable_transport _ = False"

definition MAX_RETRY_AFTER :: duration where "MAX_RETRY_AFTER = from_secs 60"

definition retry_delay :: "(nat \<Rightarrow> nat) \<Rightarrow> nat \<Rightarrow> duration option \<Rightarrow> duration" where
  "retry_delay draw attempt retry_after =
     (let exponent = min attempt 6;
          ceiling_ms = min (saturating_mul 500 (2 ^ exponent)) 30000;
          jitter_ms = draw ceiling_ms
      in max (min (unwrap_or 0 retry_after) MAX_RETRY_AFTER) (from_millis jitter_ms))"

definition parse_retry_after ::
    "http_api \<Rightarrow> nat \<Rightarrow> header_map \<Rightarrow> duration option" where
  "parse_retry_after H now headers =
     (case Option.bind (header_text H ''retry-after-ms'' headers) (\<lambda>raw. parse_u64 (trim raw)) of
        Some millis \<Rightarrow> Some (min (from_millis millis) MAX_RETRY_AFTER)
      | None \<Rightarrow>
          Option.bind (header_text H ''retry-after'' headers) (\<lambda>value.
            case parse_u64 (trim value) of
              Some seconds \<Rightarrow> Some (min (from_secs seconds) MAX_RETRY_AFTER)
            | None \<Rightarrow>
                Option.bind (http_date H value) (\<lambda>timestamp.
                  if now \<le> timestamp then Some (min (timestamp - now) MAX_RETRY_AFTER) else None)))"

text \<open>A \<open>reqwest::Error\<close>, as far as this module reads it: \<open>is_timeout()\<close> and its text.\<close>

definition map_reqwest_error :: "bool \<Rightarrow> string \<Rightarrow> error" where
  "map_reqwest_error is_timeout msg = (if is_timeout then ErrTimeout msg else ErrTransport msg)"

definition failoverable_status :: "http_api \<Rightarrow> nat \<Rightarrow> header_map \<Rightarrow> bool" where
  "failoverable_status H status headers =
     (if should_retry_verdict H headers = Some False then False
      else 502 \<le> status \<and> status \<le> 504)"

definition from_http ::
    "http_api \<Rightarrow> nat \<Rightarrow> nat \<Rightarrow> header_map \<Rightarrow> json option \<Rightarrow> failure_disposition" where
  "from_http H now status headers payload =
     (let retry_after = parse_retry_after H now headers
      in \<lparr>disp_error = classify_api_error status payload retry_after,
          disp_retry = retryable_status H status headers,
          disp_failover = failoverable_status H status headers,
          disp_retry_after = retry_after\<rparr>)"

definition from_transport :: "error \<Rightarrow> failure_disposition" where
  "from_transport e =
     \<lparr>disp_error = e, disp_retry = retryable_transport e, disp_failover = True,
      disp_retry_after = None\<rparr>"

section \<open>Lemmas\<close>

lemma failover_imp_retry: "failoverable_status H s h \<Longrightarrow> retryable_status H s h"
  by (auto simp: failoverable_status_def retryable_status_def split: if_splits option.splits)

lemma parse_retry_after_bound:
  "parse_retry_after H now h = Some d \<Longrightarrow> d \<le> MAX_RETRY_AFTER"
  by (auto simp: parse_retry_after_def bind_eq_Some_conv split: option.splits if_splits)

lemma jitter_ceiling_le: "min (saturating_mul 500 (2 ^ min attempt 6)) 30000 \<le> (30000 :: nat)"
  by simp

lemma MAX_RETRY_AFTER_millis: "MAX_RETRY_AFTER = from_millis 60000"
  by (simp add: MAX_RETRY_AFTER_def from_secs_def from_millis_def)

text \<open>The jitter ceiling of an attempt: doubling from half a second, at most thirty seconds.\<close>

lemma jitter_ceiling_eq:
  "min (saturating_mul 500 (2 ^ min attempt 6)) 30000 = (if attempt < 6 then 500 * 2 ^ attempt else 30000)"
proof (cases "attempt < 6")
  case True
  then have "(2 :: nat) ^ attempt \<le> 2 ^ 5"
    by (intro power_increasing) simp_all
  with True show ?thesis
    by (simp add: saturating_mul_def u64_max_def)
next
  case False
  then show ?thesis by (simp add: saturating_mul_def u64_max_def)
qed

lemma retry_delay_eq:
  "retry_delay draw attempt ra =
     max (min (unwrap_or 0 ra) MAX_RETRY_AFTER)
       (from_millis (draw (if attempt < 6 then 500 * 2 ^ attempt else 30000)))"
  by (simp only: retry_delay_def Let_def jitter_ceiling_eq)

lemma retry_delay_max: "(\<And>c. draw c \<le> c) \<Longrightarrow> retry_delay draw attempt ra \<le> MAX_RETRY_AFTER"
proof -
  assume "\<And>c. draw c \<le> c"
  then have "draw (if attempt < 6 then 500 * 2 ^ attempt else 30000) \<le>
      (if attempt < 6 then 500 * 2 ^ attempt else 30000)" by blast
  also have "\<dots> \<le> 30000" using jitter_ceiling_le [of attempt] by (simp only: jitter_ceiling_eq)
  finally have "from_millis (draw (if attempt < 6 then 500 * 2 ^ attempt else 30000)) \<le> MAX_RETRY_AFTER"
    unfolding MAX_RETRY_AFTER_millis from_millis_mono by simp
  then show ?thesis unfolding retry_delay_eq by simp
qed

lemma from_http_simps [simp]:
  "disp_retry (from_http H now s h p) = retryable_status H s h"
  "disp_failover (from_http H now s h p) = failoverable_status H s h"
  "disp_retry_after (from_http H now s h p) = parse_retry_after H now h"
  "disp_error (from_http H now s h p) = classify_api_error s p (parse_retry_after H now h)"
  by (simp_all add: from_http_def Let_def)

lemma from_transport_simps [simp]:
  "disp_retry (from_transport e) = retryable_transport e"
  "disp_failover (from_transport e) = True"
  "disp_retry_after (from_transport e) = None"
  "disp_error (from_transport e) = e"
  by (simp_all add: from_transport_def)

lemma retryable_map_reqwest_error [simp]: "retryable_transport (map_reqwest_error t m)"
  by (simp add: map_reqwest_error_def)

lemma http_api_ok_date: "http_api_ok (plain_http\<lparr>http_date := f\<rparr>)"
  using plain_http_ok by (simp add: http_api_ok_def)

section \<open>Properties\<close>

text \<open>C37: The decision table of a failed HTTP response. Moving to another domain implies being
  allowed to try again, and happens only for 502, 503 and 504; in particular neither a 429 nor a
  500 ever moves. An explicit \<open>x-should-retry: false\<close> forbids both; an explicit \<open>true\<close> allows a
  retry of any status but never adds a status to the failover set; with no verdict the retry set
  is 429 and everything from 500.\<close>

theorem http_decision_table:
  fixes H now s h p
  defines "d \<equiv> from_http H now s h p"
  shows "(disp_failover d \<longrightarrow> disp_retry d \<and> s \<in> {502, 503, 504}) \<and>
    (case should_retry_verdict H h of
       Some False \<Rightarrow> \<not> disp_retry d \<and> \<not> disp_failover d
     | Some True \<Rightarrow> disp_retry d \<and> (disp_failover d \<longleftrightarrow> s \<in> {502, 503, 504})
     | None \<Rightarrow> (disp_retry d \<longleftrightarrow> s = 429 \<or> 500 \<le> s) \<and> (disp_failover d \<longleftrightarrow> s \<in> {502, 503, 504}))"
  using failover_imp_retry [of H s h]
  by (auto simp: d_def retryable_status_def failoverable_status_def split: option.splits bool.splits)

theorem http_decision_table_witness:
  "disp_failover (from_http plain_http 0 503 no_headers None) \<and>
   disp_retry (from_http plain_http 0 503 no_headers None)"
  using http_decision_table [of plain_http 0 503 no_headers None]
  by (simp add: should_retry_verdict_def header_text_def)

text \<open>The backoff sleep. Whatever the server asked for and whatever the random draw (any value
  of the drawn interval), the sleep before the next attempt lies between the server's request
  capped at sixty seconds and sixty seconds; without a request it is at most the exponential
  ceiling of the attempt, which doubles from half a second and stops at thirty seconds.\<close>

theorem retry_delay_bounds:
  assumes "\<And>c. draw c \<le> c"
  shows "min (unwrap_or 0 ra) MAX_RETRY_AFTER \<le> retry_delay draw attempt ra \<and>
    retry_delay draw attempt ra \<le> MAX_RETRY_AFTER \<and>
    retry_delay draw attempt None \<le> from_millis (if attempt < 6 then 500 * 2 ^ attempt else 30000)"
proof -
  have "draw (if attempt < 6 then 500 * 2 ^ attempt else 30000) \<le>
      (if attempt < 6 then 500 * 2 ^ attempt else 30000)" by (rule assms)
  with retry_delay_max [OF assms, of attempt ra] show ?thesis
    unfolding retry_delay_eq by simp
qed

theorem retry_delay_bounds_witness:
  "min (unwrap_or 0 (Some (from_secs 100000))) MAX_RETRY_AFTER
     \<le> retry_delay (\<lambda>c. c div 2) 3 (Some (from_secs 100000)) \<and>
   retry_delay (\<lambda>c. c div 2) 3 (Some (from_secs 100000)) \<le> MAX_RETRY_AFTER \<and>
   retry_delay (\<lambda>c. c div 2) 3 None \<le> from_millis 4000"
  using retry_delay_bounds [of "\<lambda>c. c div 2" "Some (from_secs 100000)" 3]
  by simp

text \<open>The server's backoff request. It never exceeds sixty seconds, from whichever header form it
  came; a decimal \<open>retry-after-ms\<close> is read back exactly (up to that cap) whatever \<open>retry-after\<close>
  says; a \<open>retry-after-ms\<close> that is not a number is ignored in favour of \<open>retry-after\<close>; and a date
  in the past asks for nothing.\<close>

theorem parse_retry_after_spec:
  assumes "http_api_ok H"
  shows "pred_option (\<lambda>d. d \<le> MAX_RETRY_AFTER) (parse_retry_after H now h) \<and>
   (n \<le> u64_max \<longrightarrow>
      parse_retry_after H now (header_insert ''retry-after-ms'' (show_nat n) h)
        = Some (min (from_millis n) MAX_RETRY_AFTER)) \<and>
   (n \<le> u64_max \<and> Option.bind (header_text H ''retry-after-ms'' h) (\<lambda>v. parse_u64 (trim v)) = None \<longrightarrow>
      parse_retry_after H now (header_insert ''retry-after'' (show_nat n) h)
        = Some (min (from_secs n) MAX_RETRY_AFTER)) \<and>
   (header_get ''retry-after-ms'' h = None \<and> header_text H ''retry-after'' h = Some v \<and>
      parse_u64 (trim v) = None \<and> http_date H v = Some t \<and> t < now \<longrightarrow>
      parse_retry_after H now h = None)"
proof (intro conjI impI)
  show "pred_option (\<lambda>d. d \<le> MAX_RETRY_AFTER) (parse_retry_after H now h)"
    using parse_retry_after_bound by (auto simp: option.pred_set)
qed (auto simp: parse_retry_after_def header_text_def parse_u64_show_nat http_to_str_show_nat [OF assms])

theorem parse_retry_after_spec_witness:
  "parse_retry_after plain_http 7 (header_insert ''retry-after-ms'' (show_nat 250) no_headers)
     = Some (min (from_millis 250) MAX_RETRY_AFTER) \<and>
   parse_retry_after plain_http 7 (header_insert ''retry-after'' (show_nat 250) no_headers)
     = Some (min (from_secs 250) MAX_RETRY_AFTER) \<and>
   parse_retry_after (plain_http\<lparr>http_date := (\<lambda>_. Some 5)\<rparr>) 7
     (header_insert ''retry-after'' ''date'' no_headers) = None"
  using parse_retry_after_spec [of plain_http 7 no_headers 250 "[]" 0]
    parse_retry_after_spec [of "plain_http\<lparr>http_date := (\<lambda>_. Some 5)\<rparr>" 7
      "header_insert ''retry-after'' ''date'' no_headers" 250 "''date''" 5]
  by (simp add: plain_http_ok http_api_ok_date u64_max_def header_text_def)
    (simp add: plain_http_def visible_ascii_def parse_u64_def trim_graphic is_graphic_def byte_def
      is_ascii_digit_iff)

end
