(* ===== verification/TR_Telemetry.thy ===== *)
theory TR_Telemetry
  imports TR_Routing TR_Policy
begin

text \<open>
  Client telemetry, first part (\<open>telemetry.rs\<close>): the closed vocabularies, the classifiers of
  hosts, routes, transport errors, latencies and statuses, and the opt-out precedence.
\<close>

section \<open>Vocabularies\<close>

datatype host =
  HostApex | HostAlly | HostUptime | HostUsCentral1 | HostUsEast4 | HostEuropeWest4
  | HostControl | HostCustom

fun host_as_str :: "host \<Rightarrow> string" where
  "host_as_str HostApex = ''apex''"
| "host_as_str HostAlly = ''ally''"
| "host_as_str HostUptime = ''uptime''"
| "host_as_str HostUsCentral1 = ''us_central1''"
| "host_as_str HostUsEast4 = ''us_east4''"
| "host_as_str HostEuropeWest4 = ''europe_west4''"
| "host_as_str HostControl = ''control''"
| "host_as_str HostCustom = ''custom''"

datatype attempt_outcome =
  OutOk | OutHttpError | OutTransportError | OutTimeout | OutStreamBroken | OutAborted

fun outcome_as_str :: "attempt_outcome \<Rightarrow> string" where
  "outcome_as_str OutOk = ''ok''"
| "outcome_as_str OutHttpError = ''http_error''"
| "outcome_as_str OutTransportError = ''transport_error''"
| "outcome_as_str OutTimeout = ''timeout''"
| "outcome_as_str OutStreamBroken = ''stream_broken''"
| "outcome_as_str OutAborted = ''aborted''"

datatype final_outcome = FinalOutcome attempt_outcome | Exhausted

fun final_as_str :: "final_outcome \<Rightarrow> string" where
  "final_as_str (FinalOutcome a) = outcome_as_str a"
| "final_as_str Exhausted = ''exhausted''"

definition final_is_ok :: "final_outcome \<Rightarrow> bool" where
  "final_is_ok f \<longleftrightarrow> f = FinalOutcome OutOk"

datatype error_class =
  EcDns | EcTls | EcConnectRefused | EcConnectTimeout | EcConnectError | EcReadTimeout
  | EcWriteTimeout | EcPoolTimeout | EcProtocolError | EcReset | EcIoError | EcProxyError
  | EcStreamStalled | EcUnknown

fun class_as_str :: "error_class \<Rightarrow> string" where
  "class_as_str EcDns = ''dns''"
| "class_as_str EcTls = ''tls''"
| "class_as_str EcConnectRefused = ''connect_refused''"
| "class_as_str EcConnectTimeout = ''connect_timeout''"
| "class_as_str EcConnectError = ''connect_error''"
| "class_as_str EcReadTimeout = ''read_timeout''"
| "class_as_str EcWriteTimeout = ''write_timeout''"
| "class_as_str EcPoolTimeout = ''pool_timeout''"
| "class_as_str EcProtocolError = ''protocol_error''"
| "class_as_str EcReset = ''reset''"
| "class_as_str EcIoError = ''io_error''"
| "class_as_str EcProxyError = ''proxy_error''"
| "class_as_str EcStreamStalled = ''stream_stalled''"
| "class_as_str EcUnknown = ''unknown''"

datatype endpoint =
  EpChatCompletions | EpMessages | EpResponses | EpEmbeddings | EpImages | EpVideos | EpModels
  | EpFusion | EpControlOther | EpInferenceOther

fun endpoint_as_str :: "endpoint \<Rightarrow> string" where
  "endpoint_as_str EpChatCompletions = ''chat_completions''"
| "endpoint_as_str EpMessages = ''messages''"
| "endpoint_as_str EpResponses = ''responses''"
| "endpoint_as_str EpEmbeddings = ''embeddings''"
| "endpoint_as_str EpImages = ''images''"
| "endpoint_as_str EpVideos = ''videos''"
| "endpoint_as_str EpModels = ''models''"
| "endpoint_as_str EpFusion = ''fusion''"
| "endpoint_as_str EpControlOther = ''control_other''"
| "endpoint_as_str EpInferenceOther = ''inference_other''"

datatype timeout_phase = TpNone | TpConnect | TpFirstByte | TpIdle | TpTotal

fun phase_as_str :: "timeout_phase \<Rightarrow> string" where
  "phase_as_str TpNone = ''none''"
| "phase_as_str TpConnect = ''connect''"
| "phase_as_str TpFirstByte = ''first_byte''"
| "phase_as_str TpIdle = ''idle''"
| "phase_as_str TpTotal = ''total''"

datatype http_status_class = ScNone | ScSuccess | ScClientError | ScRateLimited | ScServerError

fun status_class_as_str :: "http_status_class \<Rightarrow> string" where
  "status_class_as_str ScNone = ''none''"
| "status_class_as_str ScSuccess = ''2xx''"
| "status_class_as_str ScClientError = ''4xx''"
| "status_class_as_str ScRateLimited = ''429''"
| "status_class_as_str ScServerError = ''5xx''"

datatype lat_bucket =
  Lt100 | Lt200 | Lt400 | Lt800 | Lt1600 | Lt3200 | Lt6400 | Lt12800 | Lt25600 | Lt51200
  | Lt102400 | Ge102400

fun bucket_as_str :: "lat_bucket \<Rightarrow> string" where
  "bucket_as_str Lt100 = ''lt100''"
| "bucket_as_str Lt200 = ''lt200''"
| "bucket_as_str Lt400 = ''lt400''"
| "bucket_as_str Lt800 = ''lt800''"
| "bucket_as_str Lt1600 = ''lt1600''"
| "bucket_as_str Lt3200 = ''lt3200''"
| "bucket_as_str Lt6400 = ''lt6400''"
| "bucket_as_str Lt12800 = ''lt12800''"
| "bucket_as_str Lt25600 = ''lt25600''"
| "bucket_as_str Lt51200 = ''lt51200''"
| "bucket_as_str Lt102400 = ''lt102400''"
| "bucket_as_str Ge102400 = ''ge102400''"

datatype error_source = SrcRouter | SrcProvider | SrcUnknown

fun source_as_str :: "error_source \<Rightarrow> string" where
  "source_as_str SrcRouter = ''router''"
| "source_as_str SrcProvider = ''provider''"
| "source_as_str SrcUnknown = ''unknown''"

definition error_source_parse :: "string option \<Rightarrow> error_source option" where
  "error_source_parse value =
     Option.bind value (\<lambda>v.
       if v = ''router'' then Some SrcRouter
       else if v = ''provider'' then Some SrcProvider
       else if v = ''unknown'' then Some SrcUnknown
       else None)"

datatype should_retry = SrTrue | SrFalse | SrAbsent

datatype level = LvAttempt | LvRequest

fun level_as_str :: "level \<Rightarrow> string" where
  "level_as_str LvAttempt = ''attempt''"
| "level_as_str LvRequest = ''request''"

section \<open>Hosts and the opt-out precedence\<close>

definition REGION_HOSTS :: "(string \<times> host) list" where
  "REGION_HOSTS =
     [(''api-us-central1.quillrouter.com'', HostUsCentral1),
      (''api-us-east4.quillrouter.com'', HostUsEast4),
      (''api-europe-west4.quillrouter.com'', HostEuropeWest4)]"

definition constant_host :: "'u url_api \<Rightarrow> string \<Rightarrow> string option" where
  "constant_host U constant =
     Option.bind (result_ok (url_parse U constant))
       (\<lambda>url. map_option to_ascii_lowercase (url_host_str U url))"

definition trustedrouter_domain :: "string \<Rightarrow> bool" where
  "trustedrouter_domain host \<longleftrightarrow>
     host = ''trustedrouter.com'' \<or> ends_with ''.trustedrouter.com'' host"

definition host_enum :: "'u url_api \<Rightarrow> 'u \<Rightarrow> host" where
  "host_enum U url =
     (case url_host_str U url of
        None \<Rightarrow> HostCustom
      | Some h \<Rightarrow>
          (let host = to_ascii_lowercase h in
           if Some host = constant_host U DEFAULT_API_BASE_URL then HostApex
           else if Some host = constant_host U (ALIAS_API_BASE_URLS ! 0) then HostAlly
           else if Some host = constant_host U (ALIAS_API_BASE_URLS ! 1) then HostUptime
           else (case map_of REGION_HOSTS host of
                   Some region \<Rightarrow> region
                 | None \<Rightarrow>
                     if url_scheme U url = ''https'' \<and> trustedrouter_domain host then HostControl
                     else HostCustom)))"

definition host_enum_str :: "'u url_api \<Rightarrow> string \<Rightarrow> host" where
  "host_enum_str U base_url =
     (case url_parse U base_url of Inr url \<Rightarrow> host_enum U url | Inl _ \<Rightarrow> HostCustom)"

definition control_host :: "'u url_api \<Rightarrow> string \<Rightarrow> bool" where
  "control_host U url =
     (case url_parse U url of
        Inl _ \<Rightarrow> False
      | Inr parsed \<Rightarrow>
          url_scheme U parsed = ''https'' \<and>
          is_some_and (\<lambda>h. trustedrouter_domain (to_ascii_lowercase h)) (url_host_str U parsed))"

definition resolve_telemetry_enabled ::
    "'u url_api \<Rightarrow> bool option \<Rightarrow> string \<Rightarrow> string \<Rightarrow> (string \<Rightarrow> string option) \<Rightarrow> bool" where
  "resolve_telemetry_enabled U explicit base_url control_base_url env =
     (case explicit of
        Some b \<Rightarrow> b
      | None \<Rightarrow>
          (let configured = to_ascii_lowercase (trim (unwrap_or [] (env ''TRUSTEDROUTER_TELEMETRY'')))
           in if configured \<in> set [''0'', ''false'', ''off'', ''no''] then False
              else if configured \<in> set [''1'', ''true'', ''on'', ''yes''] then True
              else if trim (unwrap_or [] (env ''DO_NOT_TRACK'')) = ''1'' then False
              else host_enum_str U base_url \<noteq> HostCustom \<and> control_host U control_base_url))"

section \<open>Routes\<close>

text \<open>\<open>path.split(['?', '#']).next()\<close>: the text before the first of the two separators.\<close>

definition clean_path :: "string \<Rightarrow> string" where
  "clean_path path = takeWhile (\<lambda>c. c \<noteq> CHR ''?'' \<and> c \<noteq> CHR ''#'') path"

definition route_excluded :: "string \<Rightarrow> string \<Rightarrow> bool" where
  "route_excluded route name \<longleftrightarrow> ends_with name route \<or> str_contains (name @ ''/'') route"

definition tracked_inference_path :: "string \<Rightarrow> bool" where
  "tracked_inference_path path =
     (let route = semantic_route (clean_path path)
      in \<not> route_excluded route ''/attestation'' \<and>
         \<not> route_excluded route ''/internal/gateway/authorize'')"

fun grouped_endpoint :: "string \<Rightarrow> (string \<times> endpoint) list \<Rightarrow> endpoint" where
  "grouped_endpoint route [] = EpInferenceOther"
| "grouped_endpoint route ((pre, endpoint) # rest) =
     (if route = pre \<or> starts_with (pre @ ''/'') route then endpoint
      else grouped_endpoint route rest)"

definition endpoint_enum :: "'u url_api \<Rightarrow> string \<Rightarrow> endpoint" where
  "endpoint_enum U path =
     (let route = semantic_request_route U (clean_path path) in
      if route = ''/chat/completions'' then EpChatCompletions
      else if route = ''/messages'' then EpMessages
      else if route = ''/responses'' then EpResponses
      else if route = ''/embeddings'' then EpEmbeddings
      else grouped_endpoint route
        [(''/images'', EpImages), (''/videos'', EpVideos), (''/models'', EpModels),
         (''/fusion'', EpFusion)])"

section \<open>Transport errors\<close>

text \<open>A \<open>reqwest::Error\<close> as the SDK reads it: the two predicates, its text, and the chain of
  \<open>std::error::Error\<close> links from the outermost inwards, each with the kind it has when it is an
  \<open>std::io::Error\<close> and its \<open>Display\<close> text.\<close>

datatype io_kind =
  IoConnectionRefused | IoConnectionReset | IoConnectionAborted | IoBrokenPipe | IoTimedOut
  | IoInvalidData | IoOther

record error_link =
  link_io :: "io_kind option"
  link_text :: string

record reqwest_error =
  re_is_timeout :: bool
  re_is_connect :: bool
  re_text :: string
  re_chain :: "error_link list"

definition MAX_DEPTH :: nat where "MAX_DEPTH = 8"

text \<open>One link of the first pass: a class that ends the walk, or nothing.\<close>

fun io_class :: "bool \<Rightarrow> io_kind \<Rightarrow> error_class option" where
  "io_class connect IoConnectionRefused = Some EcConnectRefused"
| "io_class connect IoConnectionReset = Some EcReset"
| "io_class connect IoConnectionAborted = Some EcReset"
| "io_class connect IoBrokenPipe = Some EcReset"
| "io_class connect IoTimedOut = Some (if connect then EcConnectTimeout else EcReadTimeout)"
| "io_class connect IoInvalidData = (if connect then Some EcTls else None)"
| "io_class connect IoOther = None"

fun walk_io :: "bool \<Rightarrow> bool \<Rightarrow> error_link list \<Rightarrow> error_class option \<times> bool" where
  "walk_io connect saw_io [] = (None, saw_io)"
| "walk_io connect saw_io (l # ls) =
     (case link_io l of
        None \<Rightarrow> walk_io connect saw_io ls
      | Some k \<Rightarrow>
          (case io_class connect k of
             Some c \<Rightarrow> (Some c, saw_io)
           | None \<Rightarrow> walk_io connect True ls))"

definition text_class :: "string \<Rightarrow> error_class option" where
  "text_class display =
     (let text = to_ascii_lowercase display in
      if str_contains ''dns error'' text \<or> str_contains ''failed to lookup address'' text
      then Some EcDns
      else if str_contains ''certificate'' text \<or> str_contains ''handshake'' text \<or>
              str_contains ''tls'' text \<or> str_contains ''corrupt message'' text
      then Some EcTls
      else if str_contains ''proxy'' text then Some EcProxyError
      else if str_contains ''connection closed before'' text \<or> str_contains ''parse'' text
      then Some EcProtocolError
      else None)"

fun walk_text :: "error_link list \<Rightarrow> error_class option" where
  "walk_text [] = None"
| "walk_text (l # ls) = opt_or (text_class (link_text l)) (walk_text ls)"

definition classify_chain :: "error_link list \<Rightarrow> bool \<Rightarrow> error_class" where
  "classify_chain chain connect =
     (case walk_io connect False (take MAX_DEPTH chain) of
        (Some c, _) \<Rightarrow> c
      | (None, saw_io) \<Rightarrow>
          (case walk_text (take MAX_DEPTH (tl chain)) of
             Some c \<Rightarrow> c
           | None \<Rightarrow> if connect then EcConnectError else if saw_io then EcIoError else EcUnknown))"

definition classify_transport_error :: "reqwest_error \<Rightarrow> error_class" where
  "classify_transport_error e =
     (if re_is_timeout e then (if re_is_connect e then EcConnectTimeout else EcReadTimeout)
      else classify_chain (re_chain e) (re_is_connect e))"

section \<open>Latencies, statuses, deadlines, identifiers\<close>

definition LATENCY_BOUNDS :: "(nat \<times> lat_bucket) list" where
  "LATENCY_BOUNDS =
     [(100, Lt100), (200, Lt200), (400, Lt400), (800, Lt800), (1600, Lt1600), (3200, Lt3200),
      (6400, Lt6400), (12800, Lt12800), (25600, Lt25600), (51200, Lt51200), (102400, Lt102400)]"

fun bucket_of :: "(nat \<times> lat_bucket) list \<Rightarrow> nat \<Rightarrow> lat_bucket" where
  "bucket_of [] ms = Ge102400"
| "bucket_of ((upper, bucket) # rest) ms = (if ms < upper then bucket else bucket_of rest ms)"

definition latency_bucket :: "nat \<Rightarrow> lat_bucket" where
  "latency_bucket ms = bucket_of LATENCY_BOUNDS ms"

definition status_class :: "nat option \<Rightarrow> http_status_class" where
  "status_class status =
     (case status of
        None \<Rightarrow> ScNone
      | Some s \<Rightarrow>
          if 200 \<le> s \<and> s \<le> 299 then ScSuccess
          else if s = 429 then ScRateLimited
          else if 400 \<le> s \<and> s \<le> 499 then ScClientError
          else if 500 \<le> s \<and> s \<le> 599 then ScServerError
          else ScNone)"

definition timeout_floor_met :: "timeout_phase \<Rightarrow> nat option \<Rightarrow> bool" where
  "timeout_floor_met phase configured =
     (case configured of
        None \<Rightarrow> False
      | Some ms \<Rightarrow>
          (case phase of
             TpConnect \<Rightarrow> 10000 \<le> ms
           | TpFirstByte \<Rightarrow> 60000 \<le> ms
           | TpIdle \<Rightarrow> 30000 \<le> ms
           | TpNone \<Rightarrow> False
           | TpTotal \<Rightarrow> False))"

fun phase_for_class :: "error_class \<Rightarrow> timeout_phase" where
  "phase_for_class EcConnectTimeout = TpConnect"
| "phase_for_class EcReadTimeout = TpFirstByte"
| "phase_for_class EcWriteTimeout = TpFirstByte"
| "phase_for_class _ = TpNone"

definition valid_model :: "string \<Rightarrow> bool" where
  "valid_model model \<longleftrightarrow>
     model \<noteq> [] \<and> length model \<le> 128 \<and>
     list_all (\<lambda>c. is_ascii_alphanumeric c \<or> c \<in> set ''._:/~@-'') model"

definition valid_request_id :: "string \<Rightarrow> bool" where
  "valid_request_id value =
     is_some_and
       (\<lambda>hex. length hex = 32 \<and>
          list_all (\<lambda>c. is_ascii_digit c \<or> in_range CHR ''a'' CHR ''f'' c) hex)
       (strip_prefix ''rlog_'' value)"

section \<open>Lemmas on excluded routes\<close>

lemma route_excluded_closed:
  "route_excluded s w \<longleftrightarrow> str_contains (w @ ''/'') (s @ ''/'')"
proof
  assume "route_excluded s w"
  then show "str_contains (w @ ''/'') (s @ ''/'')"
    unfolding route_excluded_def ends_with_iff str_contains_iff by force
next
  assume "str_contains (w @ ''/'') (s @ ''/'')"
  then obtain a b where ab: "s @ ''/'' = a @ (w @ ''/'') @ b" by (auto simp: str_contains_iff)
  show "route_excluded s w"
  proof (cases b rule: rev_cases)
    case Nil
    with ab show ?thesis by (simp add: route_excluded_def ends_with_iff)
  next
    case (snoc b' c)
    with ab have "s = a @ (w @ ''/'') @ b'" by simp
    then show ?thesis unfolding route_excluded_def str_contains_iff by blast
  qed
qed

lemma sublist_components:
  assumes cs: "\<And>p. p \<in> set cs \<Longrightarrow> p \<noteq> [] \<and> CHR ''/'' \<notin> set p"
    and ws: "ws \<noteq> []" "\<And>p. p \<in> set ws \<Longrightarrow> p \<noteq> [] \<and> CHR ''/'' \<notin> set p"
  shows "str_contains (''/'' @ join_with ''/'' ws @ ''/'') (''/'' @ join_with ''/'' cs @ ''/'')
    \<longleftrightarrow> sublist ws cs"
proof
  assume "str_contains (''/'' @ join_with ''/'' ws @ ''/'') (''/'' @ join_with ''/'' cs @ ''/'')"
  then obtain a b where ab: "''/'' @ join_with ''/'' cs @ ''/'' =
      a @ (''/'' @ join_with ''/'' ws @ ''/'') @ b"
    by (auto simp: str_contains_iff)
  let ?sp = "split_on CHR ''/''"
  have ws_split: "?sp (join_with ''/'' ws) = ws" using ws by (intro split_on_join) auto
  have "?sp (''/'' @ join_with ''/'' cs @ ''/'') = [] # ?sp (join_with ''/'' cs) @ [[]]"
    using split_on_append_join [of "CHR ''/''" "join_with ''/'' cs" "[]"] by simp
  moreover have "?sp (a @ (''/'' @ join_with ''/'' ws @ ''/'') @ b) = ?sp a @ ws @ ?sp b"
    using split_on_append_join [of "CHR ''/''" a "join_with ''/'' ws @ CHR ''/'' # b"]
      split_on_append_join [of "CHR ''/''" "join_with ''/'' ws" b] ws_split by simp
  ultimately have eq: "[] # ?sp (join_with ''/'' cs) @ [[]] = ?sp a @ ws @ ?sp b"
    using ab by metis
  obtain x xs where a: "?sp a = x # xs" by (cases "?sp a") simp_all
  obtain y ys where b: "?sp b = ys @ [y]" by (cases "?sp b" rule: rev_cases) simp_all
  from eq a b have core: "?sp (join_with ''/'' cs) = xs @ ws @ ys" by simp
  show "sublist ws cs"
  proof (cases "cs = []")
    case True
    with core have "[[]] = xs @ ws @ ys" by simp
    with ws have False by (auto simp: append_eq_Cons_conv Cons_eq_append_conv)
    then show ?thesis ..
  next
    case False
    then have "?sp (join_with ''/'' cs) = cs" using cs by (intro split_on_join) auto
    with core show ?thesis by (auto simp: sublist_def)
  qed
next
  assume "sublist ws cs"
  then obtain x y where xy: "cs = x @ ws @ y" by (auto simp: sublist_def)
  let ?j = "join_with ''/''"
  have "\<exists>b. ?j (ws @ y) @ ''/'' = ?j ws @ ''/'' @ b"
    using ws(1) by (cases "y = []") (auto simp: join_with_append)
  then obtain b where b: "?j (ws @ y) @ ''/'' = ?j ws @ ''/'' @ b" ..
  have "\<exists>a. ''/'' @ ?j cs @ ''/'' = a @ ''/'' @ ?j (ws @ y) @ ''/''"
  proof (cases "x = []")
    case True
    with xy show ?thesis by (intro exI [of _ "[]"]) simp
  next
    case False
    with xy ws(1) show ?thesis by (intro exI [of _ "''/'' @ ?j x"]) (simp add: join_with_append)
  qed
  with b show "str_contains (''/'' @ ?j ws @ ''/'') (''/'' @ ?j cs @ ''/'')"
    unfolding str_contains_iff by (metis append.assoc)
qed

lemma excluded_component:
  assumes "starts_with ''/'' path" and "ws \<noteq> []"
    and "\<And>p. p \<in> set ws \<Longrightarrow> p \<noteq> [] \<and> CHR ''/'' \<notin> set p"
  shows "route_excluded (semantic_route path) (''/'' @ join_with ''/'' ws) \<longleftrightarrow>
    sublist ws (route_components path)"
proof -
  have "\<And>p. p \<in> set (route_components path) \<Longrightarrow> p \<noteq> [] \<and> CHR ''/'' \<notin> set p"
    using components_props by (simp add: route_components_def)
  from sublist_components [OF this assms(2,3)] show ?thesis
    by (simp add: rooted_semantic_route [OF assms(1)] route_excluded_closed)
qed

lemma sublist_single: "sublist [x] xs \<longleftrightarrow> x \<in> set xs"
  by (auto simp: sublist_def in_set_conv_decomp)

lemma clean_path_rooted: "starts_with ''/'' path \<Longrightarrow> starts_with ''/'' (clean_path path)"
  by (auto simp: starts_with_iff clean_path_def)

section \<open>Properties\<close>

text \<open>Routes without client context. A resolved path carries telemetry exactly when, after
  percent-decoding, case folding and separator collapsing, none of its components is
  \<open>attestation\<close> and the components \<open>internal\<close>, \<open>gateway\<close>, \<open>authorize\<close> do not occur in sequence: no
  other spelling of an excluded route slips through, and nothing else is excluded.\<close>

theorem tracked_path_components:
  assumes "starts_with ''/'' path"
  shows "tracked_inference_path path \<longleftrightarrow>
    ''attestation'' \<notin> set (route_components (clean_path path)) \<and>
    \<not> sublist [''internal'', ''gateway'', ''authorize''] (route_components (clean_path path))"
proof -
  have "route_excluded (semantic_route (clean_path path))
      (''/'' @ join_with ''/'' [''internal'', ''gateway'', ''authorize'']) \<longleftrightarrow>
    sublist [''internal'', ''gateway'', ''authorize''] (route_components (clean_path path))"
    by (rule excluded_component [OF clean_path_rooted [OF assms]]) auto
  with excluded_component [OF clean_path_rooted [OF assms], of "[''attestation'']"]
  show ?thesis by (simp add: tracked_inference_path_def sublist_single)
qed

theorem tracked_path_components_witness:
  "\<not> tracked_inference_path ''/v1/internal//Gateway/%61uthorize?x=1'' \<and>
   tracked_inference_path ''/v1/attestations''"
proof -
  have c: "route_components (clean_path ''/v1/internal//Gateway/%61uthorize?x=1'') =
      [''v1'', ''internal'', ''gateway'', ''authorize'']"
    "route_components (clean_path ''/v1/attestations'') = [''v1'', ''attestations'']"
    by code_simp+
  have "sublist [''internal'', ''gateway'', ''authorize''] [''v1'', ''internal'', ''gateway'', ''authorize'']"
    unfolding sublist_def by (intro exI [of _ "[''v1'']"] exI [of _ "[]"]) simp
  moreover have "\<not> sublist [''internal'', ''gateway'', ''authorize''] [''v1'', ''attestations'']"
    by code_simp
  ultimately show ?thesis
    using tracked_path_components [of "''/v1/internal//Gateway/%61uthorize?x=1''"]
      tracked_path_components [of "''/v1/attestations''"]
    by (simp add: c starts_with_def)
qed

text \<open>Error classification never reads caller-controlled text. The text of the outermost error
  (which embeds the request URL) has no influence on the class, and a typed I/O cause within the
  walked depth decides before any message is looked at.\<close>

theorem classify_chain_ignores_outer_text:
  "classify_chain (l\<lparr>link_text := t\<rparr> # ls) connect = classify_chain (l # ls) connect \<and>
   (walk_io connect False (take MAX_DEPTH (l # ls)) = (Some c, seen) \<longrightarrow>
      classify_chain (l # map (link_text_update f) ls) connect = c)"
proof -
  have typed: "walk_io connect b (map (link_text_update f) xs) = walk_io connect b xs" for b xs
    by (induction xs arbitrary: b) (auto split: option.splits)
  have tail: "walk_io connect b (take MAX_DEPTH (l # map (link_text_update f) ls)) =
      walk_io connect b (take MAX_DEPTH (l # ls))" for b
    using typed [of _ "take 7 ls"] by (auto simp: MAX_DEPTH_def take_map split: option.splits)
  have outer: "walk_io connect b (take MAX_DEPTH (l\<lparr>link_text := t\<rparr> # ls)) =
      walk_io connect b (take MAX_DEPTH (l # ls))" for b
    by (simp add: MAX_DEPTH_def)
  show ?thesis unfolding classify_chain_def tail outer list.sel by (simp split: prod.split)
qed

theorem classify_chain_ignores_outer_text_witness:
  "classify_chain [\<lparr>link_io = None, link_text = ''GET https://tls.proxy/ failed''\<rparr>,
     \<lparr>link_io = Some IoConnectionRefused, link_text = ''certificate''\<rparr>] True = EcConnectRefused"
  using classify_chain_ignores_outer_text [of "''GET https://tls.proxy/ failed''"
      "\<lparr>link_io = None, link_text = []\<rparr>"
      "[\<lparr>link_io = Some IoConnectionRefused, link_text = ''certificate''\<rparr>]" True EcConnectRefused
      False "\<lambda>_. ''certificate''"]
  by (simp add: MAX_DEPTH_def)

end
