(* ===== verification/TR_Machines.thy ===== *)
theory TR_Machines
  imports TR_Prelude
begin

text \<open>
  Interfaces of the stateful components. \<open>run_steps\<close> drives a component through a sequence of
  operations and collects what it emits. \<open>kept_invariant\<close> is the contract of a component whose
  operations all keep an invariant, \<open>guarded_invariant\<close> of one whose allowed operations do; \<open>silent\<close> adds
  that they emit nothing; \<open>budgeted\<close> bounds what is emitted by a budget; \<open>one_shot\<close> reports once and is
  silent afterwards; \<open>ledger\<close> delivers each item at most once.
\<close>

fun run_steps :: "('op \<Rightarrow> 's \<Rightarrow> 's \<times> 'e option) \<Rightarrow> 'op list \<Rightarrow> 's \<Rightarrow> 's \<times> 'e list" where
  "run_steps step [] s = (s, [])"
| "run_steps step (a # ops) s =
     (let (s', e) = step a s; (s'', es) = run_steps step ops s'
      in (s'', (case e of None \<Rightarrow> es | Some x \<Rightarrow> x # es)))"

lemma run_steps_append:
  "run_steps step (a @ b) s =
     (let (s', es) = run_steps step a s; (s'', es') = run_steps step b s' in (s'', es @ es'))"
  by (induction a arbitrary: s) (auto simp: Let_def split: prod.splits option.splits)

locale guarded_invariant =
  fixes step :: "'op \<Rightarrow> 's \<Rightarrow> 's \<times> 'e option"
    and inv :: "'s \<Rightarrow> bool"
    and allowed :: "'op \<Rightarrow> bool"
  assumes guarded_step: "allowed a \<Longrightarrow> inv s \<Longrightarrow> inv (fst (step a s))"
begin

lemma guarded_run: "list_all allowed ops \<Longrightarrow> inv s \<Longrightarrow> inv (fst (run_steps step ops s))"
proof (induction ops arbitrary: s)
  case (Cons a ops)
  then have "inv (fst (run_steps step ops (fst (step a s))))" using guarded_step by simp
  then show ?case by (auto simp: Let_def split: prod.splits)
qed simp

end

locale silent = guarded_invariant +
  assumes no_effect: "allowed a \<Longrightarrow> inv s \<Longrightarrow> snd (step a s) = None"
begin

lemma silent_run: "list_all allowed ops \<Longrightarrow> inv s \<Longrightarrow> snd (run_steps step ops s) = []"
proof (induction ops arbitrary: s)
  case (Cons a ops)
  then have "snd (step a s) = None" and "snd (run_steps step ops (fst (step a s))) = []"
    using no_effect guarded_step by simp_all
  then show ?case by (auto simp: Let_def split: prod.splits)
qed simp

end

locale kept_invariant =
  fixes step :: "'op \<Rightarrow> 's \<Rightarrow> 's \<times> 'e option"
    and inv :: "'s \<Rightarrow> bool"
  assumes step_inv: "inv s \<Longrightarrow> inv (fst (step a s))"

sublocale kept_invariant \<subseteq> any: guarded_invariant step inv "\<lambda>_. True"
  by unfold_locales (rule step_inv)

context kept_invariant
begin

lemma run_inv: "inv s \<Longrightarrow> inv (fst (run_steps step ops s))"
  by (rule any.guarded_run) (simp_all add: list_all_iff)

lemma run_effects:
  assumes each: "\<And>a s e. inv s \<Longrightarrow> snd (step a s) = Some e \<Longrightarrow> P e"
  shows "inv s \<Longrightarrow> e \<in> set (snd (run_steps step ops s)) \<Longrightarrow> P e"
proof (induction ops arbitrary: s)
  case (Cons a ops)
  have "snd (step a s) = Some e \<or> e \<in> set (snd (run_steps step ops (fst (step a s))))"
    using Cons.prems(2) by (auto simp: Let_def split: prod.splits option.splits)
  then show ?case
    using each [OF Cons.prems(1)] Cons.IH [OF step_inv [OF Cons.prems(1)]] by blast
qed simp

end

locale budgeted = kept_invariant step inv
  for step :: "'op \<Rightarrow> 's \<Rightarrow> 's \<times> 'e option" and inv :: "'s \<Rightarrow> bool" +
  fixes budget :: "'s \<Rightarrow> nat" and cost :: "'e \<Rightarrow> nat"
  assumes spend: "inv s \<Longrightarrow>
    (case snd (step a s) of None \<Rightarrow> 0 | Some e \<Rightarrow> cost e) + budget (fst (step a s)) \<le> budget s"
begin

lemma spent_within: "inv s \<Longrightarrow> sum_list (map cost (snd (run_steps step ops s))) \<le> budget s"
proof (induction ops arbitrary: s)
  case (Cons a ops)
  have "sum_list (map cost (snd (run_steps step ops (fst (step a s))))) \<le> budget (fst (step a s))"
    using Cons.IH [OF step_inv [OF Cons.prems]] .
  with spend [OF Cons.prems, of a] show ?case
    by (auto simp: Let_def split: prod.splits option.splits)
qed simp

end

locale one_shot =
  fixes step :: "'op \<Rightarrow> 's \<Rightarrow> 's \<times> 'e option"
    and closed :: "'s \<Rightarrow> bool"
  assumes closed_stays: "closed s \<Longrightarrow> closed (fst (step a s))"
    and closed_silent: "closed s \<Longrightarrow> snd (step a s) = None"
    and emit_closes: "snd (step a s) = Some e \<Longrightarrow> closed (fst (step a s))"
begin

lemma closed_run: "closed s \<Longrightarrow> closed (fst (run_steps step ops s)) \<and> snd (run_steps step ops s) = []"
proof (induction ops arbitrary: s)
  case (Cons a ops)
  then have "closed (fst (step a s))" and "snd (step a s) = None"
    using closed_stays closed_silent by blast+
  with Cons.IH [of "fst (step a s)"] show ?case by (auto simp: Let_def split: prod.splits)
qed simp

lemma at_most_once: "length (snd (run_steps step ops s)) \<le> 1"
proof (induction ops arbitrary: s)
  case (Cons a ops)
  show ?case
  proof (cases "snd (step a s)")
    case None
    with Cons.IH [of "fst (step a s)"] show ?thesis by (auto simp: Let_def split: prod.splits)
  next
    case (Some e)
    then have "closed (fst (step a s))" by (rule emit_closes)
    with closed_run [of "fst (step a s)" ops] Some show ?thesis
      by (auto simp: Let_def split: prod.splits)
  qed
qed simp

end


text \<open>A ledger hands items out and takes deliveries: what is live was issued before, becomes live only
  when it is new, and is live no more once delivered. No item is then delivered twice in a run.\<close>

locale ledger = kept_invariant step inv
  for step :: "'op \<Rightarrow> 's \<Rightarrow> 's \<times> 'e option" and inv :: "'s \<Rightarrow> bool" +
  fixes live :: "'s \<Rightarrow> 'i set" and used :: "'s \<Rightarrow> 'i set" and delivered :: "'e \<Rightarrow> 'i list"
  assumes live_used: "inv s \<Longrightarrow> live s \<subseteq> used s"
    and used_grows: "inv s \<Longrightarrow> used s \<subseteq> used (fst (step a s))"
    and live_fresh: "inv s \<Longrightarrow> live (fst (step a s)) \<subseteq> live s \<union> - used s"
    and deliver: "inv s \<Longrightarrow> step a s = (s', Some e) \<Longrightarrow>
      distinct (delivered e) \<and> set (delivered e) \<subseteq> live s \<and> set (delivered e) \<inter> live s' = {}"
begin

lemma deliveries_live:
  "inv s \<Longrightarrow> set (concat (map delivered (snd (run_steps step ops s)))) \<subseteq> live s \<union> - used s"
proof (induction ops arbitrary: s)
  case (Cons a ops)
  obtain s' e where st: "step a s = (s', e)" by (cases "step a s")
  have inv': "inv s'" using step_inv [OF Cons.prems, of a] by (simp add: st)
  have "live s' \<union> - used s' \<subseteq> live s \<union> - used s"
    using used_grows [OF Cons.prems, of a] live_fresh [OF Cons.prems, of a] by (auto simp: st)
  moreover have "e = Some x \<Longrightarrow> set (delivered x) \<subseteq> live s" for x
    using deliver [OF Cons.prems, of a s' x] st by simp
  ultimately show ?case
    using Cons.IH [OF inv'] by (fastforce simp: st Let_def split: prod.splits option.splits)
qed simp

lemma delivered_once:
  "inv s \<Longrightarrow> distinct (concat (map delivered (snd (run_steps step ops s))))"
proof (induction ops arbitrary: s)
  case (Cons a ops)
  obtain s' e where st: "step a s = (s', e)" by (cases "step a s")
  have inv': "inv s'" using step_inv [OF Cons.prems, of a] by (simp add: st)
  have later: "set (concat (map delivered (snd (run_steps step ops s')))) \<subseteq> live s' \<union> - used s'"
    by (rule deliveries_live [OF inv'])
  show ?case
  proof (cases e)
    case None
    with Cons.IH [OF inv'] show ?thesis by (simp add: st Let_def split_beta)
  next
    case (Some x)
    from deliver [OF Cons.prems, of a s' x] st Some
    have d: "distinct (delivered x)" "set (delivered x) \<subseteq> live s" "set (delivered x) \<inter> live s' = {}" by auto
    moreover have "live s \<subseteq> used s'"
      using live_used [OF Cons.prems] used_grows [OF Cons.prems, of a] by (auto simp: st)
    ultimately have "set (delivered x) \<inter> set (concat (map delivered (snd (run_steps step ops s')))) = {}"
      using later by blast
    with d(1) Cons.IH [OF inv'] Some show ?thesis by (simp add: st Let_def split_beta)
  qed
qed simp

end

end
