(* ===== verification/TR_Recorder.thy ===== *)
theory TR_Recorder
  imports TR_Telemetry TR_Machines
begin

text \<open>
  Client telemetry, second part (\<open>telemetry.rs\<close>): the recorder of one logical call, the
  \<open>x-tr-client\<close> header it derives for each attempt, the event and counters it hands to the sink
  when the call is finished, and the recorder of an open stream. A read of the monotonic clock is
  an argument \<open>now\<close> in nanoseconds, and \<open>wall\<close> a read of the wall clock. Handing an event to the
  sink is the second component of a result.
\<close>

section \<open>Data\<close>

definition MAX_DURATION_MS :: nat where "MAX_DURATION_MS = 3600000"
definition MAX_HEADER_BYTES :: nat where "MAX_HEADER_BYTES = 160"

record attempt_record =
  at_index :: nat
  at_host :: host
  at_outcome :: attempt_outcome
  at_http_status :: "nat option"
  at_error_class :: "error_class option"
  at_error_source :: "error_source option"
  at_should_retry :: should_retry
  at_retry_after_ms :: "nat option"
  at_elapsed_ms :: nat
  at_ttfb_ms :: "nat option"
  at_request_id :: "string option"
  at_moved :: bool
  at_phase :: timeout_phase

record request_event =
  ev_endpoint :: endpoint
  ev_method :: http_method
  ev_streaming :: bool
  ev_provider_pinned :: bool
  ev_model :: "string option"
  ev_attempts :: "attempt_record list"
  ev_final_outcome :: final_outcome
  ev_final_http_status :: "nat option"
  ev_total_ms :: nat
  ev_ttft_ms :: "nat option"
  ev_failover_used :: bool
  ev_timeout_phase :: timeout_phase
  ev_configured_timeout_ms :: "nat option"

record counter_key =
  ck_level :: level
  ck_endpoint :: endpoint
  ck_streaming :: bool
  ck_host :: host
  ck_outcome :: attempt_outcome
  ck_error_class :: "error_class option"
  ck_http_status_class :: http_status_class
  ck_timeout_phase :: timeout_phase
  ck_timeout_floor_met :: bool
  ck_provider_pinned :: bool

type_synonym histogram = "lat_bucket \<rightharpoonup> nat"

record counter_row =
  cr_requests :: nat
  cr_attempts :: nat
  cr_failover_used :: nat
  cr_first_attempt_success :: nat
  cr_total_ms_hist :: histogram
  cr_first_event_ms_hist :: histogram

type_synonym emission = "request_event \<times> (counter_key \<times> counter_row) list"

record recorder_spec =
  rs_endpoint :: endpoint
  rs_method :: http_method
  rs_streaming :: bool
  rs_provider_pinned :: bool
  rs_model :: "string option"
  rs_configured_timeout :: "duration option"

record request_recorder =
  rr_endpoint :: endpoint
  rr_method :: http_method
  rr_recordable :: bool
  rr_streaming :: bool
  rr_provider_pinned :: bool
  rr_model :: "string option"
  rr_configured_timeout :: "duration option"
  rr_attempts :: "attempt_record list"
  rr_failover_used :: bool
  rr_ttft_ms :: "nat option"
  rr_first_started :: "nat option"
  rr_attempt_started :: "nat option"
  rr_current_host :: "host option"
  rr_current_index :: "nat option"
  rr_finished :: bool

section \<open>Operations\<close>

definition duration_ms :: "nat \<Rightarrow> nat \<Rightarrow> nat" where
  "duration_ms start finish = min (as_millis (finish - start)) MAX_DURATION_MS"

definition valid_value :: "string \<Rightarrow> bool" where
  "valid_value value \<longleftrightarrow>
     value \<noteq> [] \<and> length value \<le> 24 \<and>
     list_all (\<lambda>c. in_range CHR ''a'' CHR ''z'' c \<or> in_range CHR ''0'' CHR ''9'' c \<or> c = CHR ''_'') value"

definition finalize_header :: "(string \<times> string) list \<Rightarrow> string option" where
  "finalize_header values =
     (if \<not> list_all (\<lambda>(_, v). valid_value v) values then None
      else (let header = join_with '';'' (map (\<lambda>(key, v). key @ ''='' @ v) values)
            in if MAX_HEADER_BYTES < length header then None else Some header))"

definition recorder_new :: "recorder_spec \<Rightarrow> request_recorder" where
  "recorder_new spec =
     \<lparr>rr_endpoint = rs_endpoint spec,
      rr_method = rs_method spec,
      rr_recordable = (rs_method spec = GET \<or> rs_method spec = POST),
      rr_streaming = rs_streaming spec,
      rr_provider_pinned = rs_provider_pinned spec,
      rr_model = opt_filter valid_model (rs_model spec),
      rr_configured_timeout = opt_filter (\<lambda>d. d \<noteq> 0) (rs_configured_timeout spec),
      rr_attempts = [],
      rr_failover_used = False,
      rr_ttft_ms = None,
      rr_first_started = None,
      rr_attempt_started = None,
      rr_current_host = None,
      rr_current_index = None,
      rr_finished = False\<rparr>"

definition begin_attempt :: "'u url_api \<Rightarrow> nat \<Rightarrow> 'u \<Rightarrow> request_recorder \<Rightarrow> request_recorder" where
  "begin_attempt U now url r =
     r\<lparr>rr_first_started := opt_or (rr_first_started r) (Some now),
       rr_attempt_started := Some now,
       rr_current_host := Some (host_enum U url),
       rr_current_index := Some (length (rr_attempts r))\<rparr>"

definition bit_str :: "bool \<Rightarrow> string" where
  "bit_str b = (if b then ''1'' else ''0'')"

text \<open>The values of the header for an attempt after the first: outcome, class, host and time of
  the previous attempt, and the time since the first.\<close>

definition previous_values :: "attempt_record \<Rightarrow> nat \<Rightarrow> nat \<Rightarrow> (string \<times> string) list" where
  "previous_values previous first_started attempt_started =
     (let (po, pc) =
        (case at_outcome previous of
           OutOk \<Rightarrow> (''none'', ''none'')
         | OutAborted \<Rightarrow> (''none'', ''none'')
         | outcome \<Rightarrow>
             (outcome_as_str outcome,
              (case at_error_class previous of None \<Rightarrow> ''none'' | Some c \<Rightarrow> class_as_str c)))
      in [(''po'', po), (''pc'', pc), (''ph'', host_as_str (at_host previous)),
          (''pm'', show_nat (at_elapsed_ms previous)),
          (''sm'', show_nat (duration_ms first_started attempt_started))])"

definition header_value :: "request_recorder \<Rightarrow> string option" where
  "header_value r =
     Option.bind (rr_current_index r) (\<lambda>index.
       if 99 < index then None
       else Option.bind (rr_current_host r) (\<lambda>host.
         if host = HostCustom then None
         else if index = 0
         then finalize_header [(''v'', ''1''), (''a'', show_nat index), (''s'', bit_str (rr_streaming r))]
         else if rr_attempts r = [] then None
         else Option.bind (rr_attempt_started r) (\<lambda>attempt_started.
           finalize_header
             ([(''v'', ''1''), (''a'', show_nat index)] @
              previous_values (last (rr_attempts r))
                (unwrap_or attempt_started (rr_first_started r)) attempt_started @
              [(''s'', bit_str (rr_streaming r)), (''fo'', bit_str (rr_failover_used r))]))))"

definition get_attempt :: "nat \<Rightarrow> request_recorder \<Rightarrow> attempt_record option" where
  "get_attempt i r = (if i < length (rr_attempts r) then Some (rr_attempts r ! i) else None)"

definition store_attempt :: "attempt_record \<Rightarrow> request_recorder \<Rightarrow> request_recorder" where
  "store_attempt rec r =
     (if at_index rec < length (rr_attempts r)
      then r\<lparr>rr_attempts := (rr_attempts r)[at_index rec := rec]\<rparr>
      else r\<lparr>rr_attempts := rr_attempts r @ [rec]\<rparr>)"

definition in_flight :: "request_recorder \<Rightarrow> (nat \<times> host \<times> nat) option" where
  "in_flight r =
     Option.bind (rr_attempt_started r) (\<lambda>started.
     Option.bind (rr_current_host r) (\<lambda>host.
     Option.bind (rr_current_index r) (\<lambda>index. Some (started, host, index))))"

definition observed_should_retry :: "http_api \<Rightarrow> header_map \<Rightarrow> should_retry" where
  "observed_should_retry H headers =
     (case map_option (\<lambda>v. to_ascii_lowercase (trim v)) (header_text H ''x-should-retry'' headers) of
        None \<Rightarrow> SrAbsent
      | Some t \<Rightarrow> if t = ''true'' then SrTrue else if t = ''false'' then SrFalse else SrAbsent)"

definition on_response ::
    "http_api \<Rightarrow> nat \<Rightarrow> nat \<Rightarrow> nat \<Rightarrow> header_map \<Rightarrow> error_source option \<Rightarrow>
     request_recorder \<Rightarrow> request_recorder" where
  "on_response H now wall status headers error_source r =
     (case in_flight r of
        None \<Rightarrow> r
      | Some (started, host, index) \<Rightarrow>
          (let elapsed_ms = duration_ms started now in
           store_attempt
             \<lparr>at_index = index, at_host = host,
              at_outcome = (if status < 400 then OutOk else OutHttpError),
              at_http_status = Some status, at_error_class = None,
              at_error_source = error_source,
              at_should_retry = observed_should_retry H headers,
              at_retry_after_ms =
                map_option (\<lambda>delay. min (as_millis delay) MAX_DURATION_MS)
                  (parse_retry_after H wall headers),
              at_elapsed_ms = elapsed_ms, at_ttfb_ms = Some elapsed_ms,
              at_request_id = opt_filter valid_request_id (header_text H ''x-request-id'' headers),
              at_moved = False, at_phase = TpNone\<rparr> r))"

definition on_response_body_complete ::
    "nat \<Rightarrow> error_source option \<Rightarrow> request_recorder \<Rightarrow> request_recorder" where
  "on_response_body_complete now error_source r =
     (case in_flight r of
        None \<Rightarrow> r
      | Some (started, _, index) \<Rightarrow>
          (if index < length (rr_attempts r)
           then r\<lparr>rr_attempts := (rr_attempts r)[index :=
                  (rr_attempts r ! index)\<lparr>at_elapsed_ms := duration_ms started now,
                                         at_error_source := error_source\<rparr>]\<rparr>
           else r))"

definition on_transport_error ::
    "nat \<Rightarrow> error_class \<Rightarrow> bool \<Rightarrow> bool \<Rightarrow> bool \<Rightarrow> request_recorder \<Rightarrow> request_recorder" where
  "on_transport_error now cls timed_out response_opened body_started r =
     (case in_flight r of
        None \<Rightarrow> r
      | Some (started, host, index) \<Rightarrow>
          (let phase = (if timed_out \<and> body_started then TpIdle else phase_for_class cls);
               cls' = (if timed_out \<and> body_started \<and> cls = EcReadTimeout then EcStreamStalled else cls);
               outcome = (if timed_out then OutTimeout
                          else if body_started then OutStreamBroken else OutTransportError);
               previous = get_attempt index r;
               opened = opt_filter (\<lambda>_. response_opened) previous
           in store_attempt
             \<lparr>at_index = index, at_host = host, at_outcome = outcome,
              at_http_status = Option.bind opened at_http_status,
              at_error_class = Some cls',
              at_error_source = Option.bind previous at_error_source,
              at_should_retry = (case previous of None \<Rightarrow> SrAbsent | Some p \<Rightarrow> at_should_retry p),
              at_retry_after_ms = Option.bind previous at_retry_after_ms,
              at_elapsed_ms = duration_ms started now,
              at_ttfb_ms = Option.bind opened at_ttfb_ms,
              at_request_id = Option.bind previous at_request_id,
              at_moved = False, at_phase = phase\<rparr> r))"

definition on_moved :: "request_recorder \<Rightarrow> request_recorder" where
  "on_moved r =
     (if rr_attempts r = [] then r
      else r\<lparr>rr_attempts := butlast (rr_attempts r) @ [(last (rr_attempts r))\<lparr>at_moved := True\<rparr>],
             rr_failover_used := True\<rparr>)"

definition on_first_event :: "nat \<Rightarrow> request_recorder \<Rightarrow> request_recorder" where
  "on_first_event now r =
     (if rr_ttft_ms r = None
      then (case rr_first_started r of
              None \<Rightarrow> r
            | Some first_started \<Rightarrow> r\<lparr>rr_ttft_ms := Some (duration_ms first_started now)\<rparr>)
      else r)"

definition on_aborted :: "nat \<Rightarrow> request_recorder \<Rightarrow> request_recorder" where
  "on_aborted now r =
     (case in_flight r of
        None \<Rightarrow> r
      | Some (started, host, index) \<Rightarrow>
          (let previous = get_attempt index r in
           store_attempt
             \<lparr>at_index = index, at_host = host, at_outcome = OutAborted,
              at_http_status = Option.bind previous at_http_status,
              at_error_class = Option.bind previous at_error_class,
              at_error_source = Option.bind previous at_error_source,
              at_should_retry = (case previous of None \<Rightarrow> SrAbsent | Some p \<Rightarrow> at_should_retry p),
              at_retry_after_ms = Option.bind previous at_retry_after_ms,
              at_elapsed_ms = duration_ms started now,
              at_ttfb_ms = Option.bind previous at_ttfb_ms,
              at_request_id = Option.bind previous at_request_id,
              at_moved = is_some_and at_moved previous,
              at_phase = (case previous of None \<Rightarrow> TpNone | Some p \<Rightarrow> at_phase p)\<rparr> r))"

definition configured_timeout_ms :: "timeout_phase \<Rightarrow> request_recorder \<Rightarrow> nat option" where
  "configured_timeout_ms phase r =
     (if phase \<in> set [TpConnect, TpFirstByte, TpIdle]
      then map_option (\<lambda>deadline. clamp 1 MAX_DURATION_MS (as_millis deadline)) (rr_configured_timeout r)
      else None)"

definition request_event_of :: "nat \<Rightarrow> bool \<Rightarrow> nat \<Rightarrow> attempt_record \<Rightarrow> request_recorder \<Rightarrow> request_event" where
  "request_event_of now exhausted first_started lst r =
     \<lparr>ev_endpoint = rr_endpoint r, ev_method = rr_method r, ev_streaming = rr_streaming r,
      ev_provider_pinned = rr_provider_pinned r, ev_model = rr_model r,
      ev_attempts = rr_attempts r,
      ev_final_outcome =
        (if exhausted \<and> 1 < length (rr_attempts r) \<and> at_outcome lst \<noteq> OutOk then Exhausted
         else FinalOutcome (at_outcome lst)),
      ev_final_http_status = at_http_status lst,
      ev_total_ms = duration_ms first_started now,
      ev_ttft_ms = rr_ttft_ms r,
      ev_failover_used = rr_failover_used r,
      ev_timeout_phase = at_phase lst,
      ev_configured_timeout_ms = configured_timeout_ms (at_phase lst) r\<rparr>"

definition request_counter :: "nat \<Rightarrow> attempt_record \<Rightarrow> request_recorder \<Rightarrow> counter_key \<times> counter_row" where
  "request_counter total_ms lst r =
     (\<lparr>ck_level = LvRequest, ck_endpoint = rr_endpoint r, ck_streaming = rr_streaming r,
       ck_host = at_host lst, ck_outcome = at_outcome lst,
       ck_error_class = Option.bind (find (\<lambda>a. at_error_class a \<noteq> None) (rr_attempts r)) at_error_class,
       ck_http_status_class = status_class (at_http_status lst),
       ck_timeout_phase = at_phase lst,
       ck_timeout_floor_met = timeout_floor_met (at_phase lst) (configured_timeout_ms (at_phase lst) r),
       ck_provider_pinned = rr_provider_pinned r\<rparr>,
      \<lparr>cr_requests = 1, cr_attempts = length (rr_attempts r),
       cr_failover_used = of_bool (rr_failover_used r),
       cr_first_attempt_success =
         of_bool (rr_attempts r \<noteq> [] \<and> at_outcome (hd (rr_attempts r)) = OutOk),
       cr_total_ms_hist = [latency_bucket total_ms \<mapsto> 1],
       cr_first_event_ms_hist =
         (case opt_or (rr_ttft_ms r) (at_ttfb_ms lst) of
            None \<Rightarrow> Map.empty
          | Some ms \<Rightarrow> [latency_bucket ms \<mapsto> 1])\<rparr>)"

definition attempt_counter :: "request_recorder \<Rightarrow> attempt_record \<Rightarrow> counter_key \<times> counter_row" where
  "attempt_counter r a =
     (\<lparr>ck_level = LvAttempt, ck_endpoint = rr_endpoint r, ck_streaming = rr_streaming r,
       ck_host = at_host a, ck_outcome = at_outcome a, ck_error_class = at_error_class a,
       ck_http_status_class = status_class (at_http_status a),
       ck_timeout_phase = at_phase a,
       ck_timeout_floor_met = timeout_floor_met (at_phase a) (configured_timeout_ms (at_phase a) r),
       ck_provider_pinned = rr_provider_pinned r\<rparr>,
      \<lparr>cr_requests = 1, cr_attempts = 1, cr_failover_used = of_bool (at_moved a),
       cr_first_attempt_success = 0,
       cr_total_ms_hist = Map.empty, cr_first_event_ms_hist = Map.empty\<rparr>)"

definition finish :: "nat \<Rightarrow> bool \<Rightarrow> request_recorder \<Rightarrow> request_recorder \<times> emission option" where
  "finish now exhausted r =
     (if rr_finished r then (r, None)
      else
        (let r = r\<lparr>rr_finished := True\<rparr> in
         case rr_first_started r of
           None \<Rightarrow> (r, None)
         | Some first_started \<Rightarrow>
             (if rr_attempts r = [] \<or> \<not> rr_recordable r then (r, None)
              else
                (let lst = last (rr_attempts r);
                     event = request_event_of now exhausted first_started lst r
                 in (r, Some (event, request_counter (ev_total_ms event) lst r
                                     # map (attempt_counter r) (rr_attempts r)))))))"

definition recorder_drop :: "nat \<Rightarrow> request_recorder \<Rightarrow> request_recorder \<times> emission option" where
  "recorder_drop now r = (if rr_finished r then (r, None) else finish now False (on_aborted now r))"

section \<open>The recorder of an open stream\<close>

record stream_recorder =
  sr_recorder :: request_recorder
  sr_body_started :: bool

definition stream_recorder_new :: "request_recorder \<Rightarrow> stream_recorder" where
  "stream_recorder_new r = \<lparr>sr_recorder = r, sr_body_started = False\<rparr>"

definition on_event :: "nat \<Rightarrow> stream_recorder \<Rightarrow> stream_recorder" where
  "on_event now st =
     (if sr_body_started st then st
      else st\<lparr>sr_body_started := True, sr_recorder := on_first_event now (sr_recorder st)\<rparr>)"

definition on_wire_failure ::
    "nat \<Rightarrow> error_class \<Rightarrow> bool \<Rightarrow> stream_recorder \<Rightarrow> stream_recorder \<times> emission option" where
  "on_wire_failure now cls timed_out st =
     (let (r, e) = finish now False
        (on_transport_error now cls timed_out True (sr_body_started st) (sr_recorder st))
      in (st\<lparr>sr_recorder := r\<rparr>, e))"

definition on_complete :: "nat \<Rightarrow> stream_recorder \<Rightarrow> stream_recorder \<times> emission option" where
  "on_complete now st =
     (let (r, e) = finish now False (sr_recorder st) in (st\<lparr>sr_recorder := r\<rparr>, e))"

section \<open>Runs of a recorder\<close>

text \<open>Every method call a recorder can see, with the values its environment supplies.\<close>

datatype 'u recorder_op =
    RBegin nat 'u
  | RResponse nat nat nat header_map "error_source option"
  | RBodyComplete nat "error_source option"
  | RTransportError nat error_class bool bool bool
  | RMoved
  | RFirstEvent nat
  | RAborted nat
  | RFinish nat bool
  | RDrop nat

fun recorder_step ::
    "'u url_api \<Rightarrow> http_api \<Rightarrow> 'u recorder_op \<Rightarrow> request_recorder \<Rightarrow> request_recorder \<times> emission option" where
  "recorder_step U H (RBegin now url) r = (begin_attempt U now url r, None)"
| "recorder_step U H (RResponse now wall s h src) r = (on_response H now wall s h src r, None)"
| "recorder_step U H (RBodyComplete now src) r = (on_response_body_complete now src r, None)"
| "recorder_step U H (RTransportError now c t opened started) r =
     (on_transport_error now c t opened started r, None)"
| "recorder_step U H RMoved r = (on_moved r, None)"
| "recorder_step U H (RFirstEvent now) r = (on_first_event now r, None)"
| "recorder_step U H (RAborted now) r = (on_aborted now r, None)"
| "recorder_step U H (RFinish now exhausted) r = finish now exhausted r"
| "recorder_step U H (RDrop now) r = recorder_drop now r"

text \<open>What holds of a recorder at every moment: the record at a position carries that index, the
  attempt in flight is the last stored or the next one, its start and host are known, durations
  fit the wire bound, and a moved attempt implies the failover bit.\<close>

definition rec_inv :: "request_recorder \<Rightarrow> bool" where
  "rec_inv r \<longleftrightarrow>
     (\<forall>i < length (rr_attempts r). at_index (rr_attempts r ! i) = i) \<and>
     (\<forall>a \<in> set (rr_attempts r). at_elapsed_ms a \<le> MAX_DURATION_MS) \<and>
     (\<forall>i. rr_current_index r = Some i \<longrightarrow> i \<le> length (rr_attempts r) \<and> length (rr_attempts r) \<le> Suc i) \<and>
     (rr_current_index r = None \<longrightarrow> rr_attempts r = []) \<and>
     (rr_current_index r \<noteq> None \<longrightarrow> rr_attempt_started r \<noteq> None \<and> rr_first_started r \<noteq> None
        \<and> rr_current_host r \<noteq> None) \<and>
     ((\<exists>a \<in> set (rr_attempts r). at_moved a) \<longrightarrow> rr_failover_used r)"

lemma duration_ms_le [simp]: "duration_ms s t \<le> MAX_DURATION_MS"
  by (simp add: duration_ms_def)

lemma in_flight_Some_iff [simp]:
  "in_flight r = Some (s, h, i) \<longleftrightarrow>
     rr_attempt_started r = Some s \<and> rr_current_host r = Some h \<and> rr_current_index r = Some i"
  by (auto simp: in_flight_def bind_eq_Some_conv)

lemma rec_inv_new: "rec_inv (recorder_new spec)"
  by (simp add: rec_inv_def recorder_new_def)

lemma rec_inv_begin: "rec_inv r \<Longrightarrow> rec_inv (begin_attempt U now url r)"
  by (cases "rr_first_started r") (auto simp: rec_inv_def begin_attempt_def)

text \<open>Storing a record at the index in flight keeps the invariant.\<close>

lemma rec_inv_store:
  assumes "rec_inv r" and "rr_current_index r = Some (at_index a)"
    and "at_elapsed_ms a \<le> MAX_DURATION_MS" and "at_moved a \<Longrightarrow> rr_failover_used r"
  shows "rec_inv (store_attempt a r)"
proof (cases "at_index a < length (rr_attempts r)")
  case True
  with assms show ?thesis
    by (auto simp: rec_inv_def store_attempt_def nth_list_update dest!: set_update_subset_insert [THEN subsetD])
next
  case False
  with assms have "length (rr_attempts r) = at_index a" by (auto simp: rec_inv_def)
  with assms show ?thesis
    by (auto simp: rec_inv_def store_attempt_def nth_append less_Suc_eq)
qed

lemma get_attempt_moved:
  "rec_inv r \<Longrightarrow> get_attempt i r = Some p \<Longrightarrow> at_moved p \<Longrightarrow> rr_failover_used r"
  by (auto simp: rec_inv_def get_attempt_def split: if_splits)

lemma rec_inv_response: "rec_inv r \<Longrightarrow> rec_inv (on_response H now wall s h src r)"
  by (auto simp: on_response_def Let_def split: option.splits intro!: rec_inv_store)

lemma rec_inv_transport_error: "rec_inv r \<Longrightarrow> rec_inv (on_transport_error now c t opened started r)"
  by (auto simp: on_transport_error_def Let_def split: option.splits intro!: rec_inv_store)

lemma rec_inv_aborted: "rec_inv r \<Longrightarrow> rec_inv (on_aborted now r)"
  by (auto simp: on_aborted_def Let_def split: option.splits intro!: rec_inv_store
      dest: get_attempt_moved)

lemma rec_inv_body_complete:
  assumes "rec_inv r"
  shows "rec_inv (on_response_body_complete now src r)"
proof (cases "in_flight r")
  case (Some x)
  obtain s h i where x: "x = (s, h, i)" by (cases x)
  show ?thesis
  proof (cases "i < length (rr_attempts r)")
    case True
    let ?a = "(rr_attempts r ! i)\<lparr>at_elapsed_ms := duration_ms s now, at_error_source := src\<rparr>"
    have i: "at_index ?a = i" using True assms by (simp add: rec_inv_def)
    then have "on_response_body_complete now src r = store_attempt ?a r"
      using True Some x by (simp add: on_response_body_complete_def store_attempt_def in_flight_def)
    moreover have "at_moved ?a \<Longrightarrow> rr_failover_used r"
      using True assms by (auto simp: rec_inv_def)
    ultimately show ?thesis
      using assms i Some x by (auto intro: rec_inv_store)
  next
    case False
    with Some x assms show ?thesis by (simp add: on_response_body_complete_def in_flight_def)
  qed
qed (simp add: on_response_body_complete_def assms)

lemma rec_inv_moved: "rec_inv r \<Longrightarrow> rec_inv (on_moved r)"
proof (cases "rr_attempts r" rule: rev_cases)
  case (snoc as a)
  assume "rec_inv r"
  with snoc show ?thesis
    by (auto simp: rec_inv_def on_moved_def nth_append less_Suc_eq split: if_splits)
qed (simp add: on_moved_def)

lemma rec_inv_first_event: "rec_inv r \<Longrightarrow> rec_inv (on_first_event now r)"
  by (auto simp: on_first_event_def rec_inv_def split: option.splits)

lemma rec_inv_finish: "rec_inv r \<Longrightarrow> rec_inv (fst (finish now exhausted r))"
  by (auto simp: finish_def rec_inv_def Let_def split: option.splits)

lemma rec_inv_step: "rec_inv r \<Longrightarrow> rec_inv (fst (recorder_step U H a r))"
  by (cases a)
    (auto simp: recorder_drop_def intro: rec_inv_begin rec_inv_response rec_inv_transport_error
      rec_inv_aborted rec_inv_body_complete rec_inv_moved rec_inv_first_event rec_inv_finish)

lemma finish_emits: "snd (finish now exhausted r) = Some e \<Longrightarrow> rr_finished (fst (finish now exhausted r))"
  by (auto simp: finish_def Let_def split: option.splits if_splits)

lemma finish_finished [simp]: "rr_finished (fst (finish now exhausted r))"
  by (auto simp: finish_def Let_def split: option.splits)

lemma store_attempt_finished [simp]: "rr_finished (store_attempt a r) = rr_finished r"
  by (simp add: store_attempt_def)

lemmas recorder_op_defs = begin_attempt_def on_response_def on_response_body_complete_def
  on_transport_error_def on_moved_def on_first_event_def on_aborted_def

lemma step_finished: "rr_finished r \<Longrightarrow> rr_finished (fst (recorder_step U H a r))"
  by (cases a) (auto simp: recorder_op_defs Let_def recorder_drop_def split: option.splits)

lemma step_silent: "rr_finished r \<Longrightarrow> snd (recorder_step U H a r) = None"
  by (cases a) (auto simp: finish_def recorder_drop_def)

lemma step_emits: "snd (recorder_step U H a r) = Some e \<Longrightarrow> rr_finished (fst (recorder_step U H a r))"
  by (cases a) (auto simp: recorder_drop_def split: if_splits)

interpretation recorder_keeps: kept_invariant "recorder_step U H" rec_inv
  for U :: "'u url_api" and H :: http_api
  by unfold_locales (rule rec_inv_step)

interpretation recorder_once: one_shot "recorder_step U H" rr_finished
  for U :: "'u url_api" and H :: http_api
  by unfold_locales (auto simp: step_finished step_silent dest: step_emits)

section \<open>The attempt header\<close>

definition render_pairs :: "(string \<times> string) list \<Rightarrow> string" where
  "render_pairs kvs = join_with '';'' (map (\<lambda>(k, v). k @ ''='' @ v) kvs)"

lemma valid_show_nat: "n < 10 ^ 24 \<Longrightarrow> valid_value (show_nat n)"
proof -
  assume "n < 10 ^ 24"
  then have "length (show_nat n) \<le> 24" by (rule length_show_nat_le) simp
  moreover have "list_all (\<lambda>c. in_range CHR ''0'' CHR ''9'' c) (show_nat n)"
    using show_nat_digits [of _ n] by (auto simp: list_all_iff is_ascii_digit_def)
  ultimately show "valid_value (show_nat n)" by (auto simp: valid_value_def list_all_iff)
qed

lemma valid_host: "valid_value (host_as_str h) \<and> length (host_as_str h) \<le> 12"
  by (induction h) code_simp+

lemma valid_outcome: "valid_value (outcome_as_str oc) \<and> length (outcome_as_str oc) \<le> 15"
  by (induction oc) code_simp+

lemma valid_class: "valid_value (class_as_str c) \<and> length (class_as_str c) \<le> 15"
  by (induction c) code_simp+

lemma valid_bit: "valid_value (bit_str b) \<and> length (bit_str b) = 1"
  by (induction b) code_simp+

lemma valid_constants: "valid_value ''none''" "valid_value ''1''"
  by code_simp+

lemmas valid_literals = valid_host valid_outcome valid_class valid_bit valid_constants

lemma previous_values_shape:
  assumes "at_elapsed_ms p \<le> MAX_DURATION_MS"
  shows "\<exists>po pc ph pm sm. previous_values p s t =
      [(''po'', po), (''pc'', pc), (''ph'', ph), (''pm'', pm), (''sm'', sm)] \<and>
    list_all valid_value [po, pc, ph, pm, sm] \<and> length po \<le> 15 \<and> length pc \<le> 15 \<and>
    length ph \<le> 12 \<and> length pm \<le> 7 \<and> length sm \<le> 7"
proof -
  have ms: "valid_value (show_nat n) \<and> length (show_nat n) \<le> 7" if "n \<le> MAX_DURATION_MS" for n
    using that valid_show_nat [of n] length_show_nat_le [of n 7] by (simp add: MAX_DURATION_MS_def)
  show ?thesis
    using ms [OF assms] ms [OF duration_ms_le [of s t]] valid_literals
    by (cases "at_outcome p"; cases "at_error_class p")
      (simp_all add: previous_values_def del: outcome_as_str.simps)
qed

lemma finalize_header_ok:
  "list_all (\<lambda>(_, v). valid_value v) kvs \<Longrightarrow> length (render_pairs kvs) \<le> MAX_HEADER_BYTES \<Longrightarrow>
   finalize_header kvs = Some (render_pairs kvs)"
  by (simp add: finalize_header_def render_pairs_def Let_def)

lemma header_index: "i \<le> 99 \<Longrightarrow> valid_value (show_nat i) \<and> length (show_nat i) \<le> 2"
  using valid_show_nat [of i] length_show_nat_le [of i 2] by simp

section \<open>Properties\<close>

text \<open>C34: The attempt header is always available within the contract's bounds. For every recorder
  reached from a new one by any sequence of method calls, an attempt with index at most 99 on a
  known host has a header of at most 93 bytes: the key-value pairs in the fixed order of keys,
  each value of one to 24 characters of the lower-case alphanumeric alphabet. An attempt on a custom host or with a
  larger index has none. The 160-byte guard and the grammar guard therefore never suppress one.\<close>

theorem header_value_bounded:
  assumes reached: "r = fst (run_steps (recorder_step U H) ops (recorder_new spec))"
    and "rr_current_index r = Some i" and "rr_current_host r = Some h"
  shows "if h = HostCustom \<or> 99 < i then header_value r = None
    else \<exists>kvs. header_value r = Some (render_pairs kvs) \<and> length (render_pairs kvs) \<le> 93 \<and>
      list_all (\<lambda>(_, v). valid_value v) kvs \<and>
      map fst kvs = (if i = 0 then [''v'', ''a'', ''s'']
                     else [''v'', ''a'', ''po'', ''pc'', ''ph'', ''pm'', ''sm'', ''s'', ''fo''])"
proof (cases "h = HostCustom \<or> 99 < i")
  case True
  with assms(2,3) show ?thesis by (auto simp: header_value_def)
next
  case False
  have inv: "rec_inv r" unfolding reached by (rule recorder_keeps.run_inv) (rule rec_inv_new)
  have idx: "valid_value (show_nat i) \<and> length (show_nat i) \<le> 2" using False by (intro header_index) simp
  note lits = valid_literals
  show ?thesis
  proof (cases "i = 0")
    case True
    let ?kvs = "[(''v'', ''1''), (''a'', show_nat i), (''s'', bit_str (rr_streaming r))]"
    have "length (render_pairs ?kvs) \<le> 93" using idx lits(4) by (simp add: render_pairs_def)
    moreover have "list_all (\<lambda>(_, v). valid_value v) ?kvs" using idx lits by simp
    moreover from calculation have "header_value r = Some (render_pairs ?kvs)"
      using True False assms(2,3) finalize_header_ok [of ?kvs]
      by (simp add: header_value_def MAX_HEADER_BYTES_def)
    ultimately show ?thesis using True False by (auto intro!: exI [of _ ?kvs])
  next
    case nz: False
    from inv nz assms(2) have ne: "rr_attempts r \<noteq> []" by (auto simp: rec_inv_def)
    with inv have "at_elapsed_ms (last (rr_attempts r)) \<le> MAX_DURATION_MS" by (auto simp: rec_inv_def)
    from inv assms(2) obtain st where st: "rr_attempt_started r = Some st" by (auto simp: rec_inv_def)
    let ?prev = "previous_values (last (rr_attempts r)) (unwrap_or st (rr_first_started r)) st"
    obtain po pc ph pm sm where prev: "?prev =
        [(''po'', po), (''pc'', pc), (''ph'', ph), (''pm'', pm), (''sm'', sm)]"
      and ok: "list_all valid_value [po, pc, ph, pm, sm]" and len: "length po \<le> 15"
        "length pc \<le> 15" "length ph \<le> 12" "length pm \<le> 7" "length sm \<le> 7"
      using previous_values_shape [OF \<open>at_elapsed_ms _ \<le> _\<close>] by blast
    let ?kvs = "[(''v'', ''1''), (''a'', show_nat i)] @ ?prev @
      [(''s'', bit_str (rr_streaming r)), (''fo'', bit_str (rr_failover_used r))]"
    have "length (render_pairs ?kvs) \<le> 93"
      unfolding prev using idx len lits(4) by (simp add: render_pairs_def)
    moreover have "list_all (\<lambda>(_, v). valid_value v) ?kvs" unfolding prev using idx ok lits by simp
    moreover from calculation have "header_value r = Some (render_pairs ?kvs)"
      using nz False assms(2,3) ne st finalize_header_ok [of ?kvs]
      by (simp add: header_value_def MAX_HEADER_BYTES_def)
    ultimately show ?thesis using nz False prev by (auto intro!: exI [of _ ?kvs])
  qed
qed

definition example_spec :: recorder_spec where
  "example_spec = \<lparr>rs_endpoint = EpChatCompletions, rs_method = POST, rs_streaming = False,
     rs_provider_pinned = False, rs_model = None, rs_configured_timeout = None\<rparr>"

definition apex_url :: plain_url where
  "apex_url = \<lparr>pu_scheme = ''https'', pu_host = ''api.trustedrouter.com'', pu_path = ''/v1/''\<rparr>"

theorem header_value_bounded_witness:
  "\<exists>kvs. header_value (fst (run_steps (recorder_step plain_urls plain_http)
       [RBegin 0 apex_url, RTransportError 5000000 EcConnectRefused False False False, RMoved,
        RBegin 9000000 apex_url] (recorder_new example_spec))) = Some (render_pairs kvs) \<and>
     length (render_pairs kvs) \<le> 93"
proof -
  let ?r = "fst (run_steps (recorder_step plain_urls plain_http)
       [RBegin 0 apex_url, RTransportError 5000000 EcConnectRefused False False False, RMoved,
        RBegin 9000000 apex_url] (recorder_new example_spec))"
  have "rr_current_index ?r = Some 1" "rr_current_host ?r = Some HostApex"
    by code_simp+
  from header_value_bounded [OF refl this] show ?thesis by auto
qed

text \<open>A call is reported at most once. Whatever methods are called on a recorder and in whatever
  order, including a second finish and the drop after it, at most one event reaches the sink,
  and none once it is finished.\<close>

theorem recorder_reports_once:
  "length (snd (run_steps (recorder_step U H) ops r)) \<le> 1 \<and>
   (rr_finished r \<longrightarrow> snd (run_steps (recorder_step U H) ops r) = [])"
  using recorder_once.at_most_once recorder_once.closed_run by blast

theorem recorder_reports_once_witness:
  "length (snd (run_steps (recorder_step plain_urls plain_http)
      [RBegin 0 apex_url, RResponse 1 1 200 no_headers None, RFinish 2 False, RDrop 3]
      (recorder_new example_spec))) \<le> 1 \<and>
   snd (run_steps (recorder_step plain_urls plain_http) [RFinish 2 False, RDrop 3]
      ((recorder_new example_spec)\<lparr>rr_finished := True\<rparr>)) = []"
  using recorder_reports_once [of plain_urls plain_http
      "[RBegin 0 apex_url, RResponse 1 1 200 no_headers None, RFinish 2 False, RDrop 3]"
      "recorder_new example_spec"]
    recorder_reports_once [of plain_urls plain_http "[RFinish 2 False, RDrop 3]"
      "(recorder_new example_spec)\<lparr>rr_finished := True\<rparr>"]
  by simp

text \<open>Counters are exact. When a finished call is reported, the event carries the recorder's
  attempts, and the counters are one request-level row for the whole call, counting it once and
  its attempts exactly, followed by one attempt-level row per attempt in order. The attempt rows
  count as many requests and attempts as there were attempts, and as many failovers as attempts
  moved. The final outcome is \<open>exhausted\<close> only after more than one attempt and a failed last one.\<close>

theorem finish_counters_exact:
  assumes "finish now exhausted r = (r', Some (event, counters))"
  shows "ev_attempts event = rr_attempts r \<and>
    length counters = Suc (length (rr_attempts r)) \<and>
    ck_level (fst (hd counters)) = LvRequest \<and> cr_requests (snd (hd counters)) = 1 \<and>
    cr_attempts (snd (hd counters)) = length (rr_attempts r) \<and>
    (\<forall>c \<in> set (tl counters). ck_level (fst c) = LvAttempt) \<and>
    sum_list (map (cr_requests \<circ> snd) (tl counters)) = length (rr_attempts r) \<and>
    sum_list (map (cr_attempts \<circ> snd) (tl counters)) = length (rr_attempts r) \<and>
    sum_list (map (cr_failover_used \<circ> snd) (tl counters)) = length (filter at_moved (rr_attempts r)) \<and>
    (ev_final_outcome event = Exhausted \<longrightarrow>
       exhausted \<and> 1 < length (rr_attempts r) \<and> at_outcome (last (rr_attempts r)) \<noteq> OutOk)"
proof -
  from assms obtain t where e: "event = request_event_of now exhausted t (last (rr_attempts r)) (r\<lparr>rr_finished := True\<rparr>)"
    and c: "counters = request_counter (ev_total_ms event) (last (rr_attempts r)) (r\<lparr>rr_finished := True\<rparr>)
        # map (attempt_counter (r\<lparr>rr_finished := True\<rparr>)) (rr_attempts r)"
    by (auto simp: finish_def Let_def split: option.splits if_splits)
  have moved: "sum_list (map (\<lambda>a. of_bool (at_moved a)) as) = length (filter at_moved as)" for as
    by (induction as) auto
  have "sum_list (map (cr_requests \<circ> snd) (tl counters)) = length (rr_attempts r)"
    "sum_list (map (cr_attempts \<circ> snd) (tl counters)) = length (rr_attempts r)"
    "sum_list (map (cr_failover_used \<circ> snd) (tl counters)) = length (filter at_moved (rr_attempts r))"
    by (simp_all add: c attempt_counter_def comp_def moved sum_list_triv)
  then show ?thesis
    by (auto simp: e c request_event_of_def request_counter_def attempt_counter_def split: if_splits)
qed

definition example_recorder :: request_recorder where
  "example_recorder = fst (run_steps (recorder_step plain_urls plain_http)
     [RBegin 0 apex_url, RTransportError 5000000 EcConnectRefused False False False, RMoved,
      RBegin 9000000 apex_url, RResponse 12000000 0 200 no_headers None] (recorder_new example_spec))"

theorem finish_counters_exact_witness:
  "\<exists>event counters. finish 15000000 False example_recorder =
     (example_recorder\<lparr>rr_finished := True\<rparr>, Some (event, counters)) \<and>
     length counters = 3 \<and> cr_attempts (snd (hd counters)) = 2 \<and>
     sum_list (map (cr_failover_used \<circ> snd) (tl counters)) = 1"
proof -
  have as: "length (rr_attempts example_recorder) = 2"
    "length (filter at_moved (rr_attempts example_recorder)) = 1"
    by code_simp+
  have "rr_first_started example_recorder = Some 0" "rr_recordable example_recorder"
    "\<not> rr_finished example_recorder" "rr_attempts example_recorder \<noteq> []"
    by code_simp+
  then obtain e cs where "finish 15000000 False example_recorder =
      (example_recorder\<lparr>rr_finished := True\<rparr>, Some (e, cs))"
    by (simp add: finish_def Let_def)
  with finish_counters_exact [OF this] as show ?thesis by auto
qed

section \<open>Abandoned calls\<close>

lemma last_update_end: "Suc i = length xs \<Longrightarrow> last (xs[i := x]) = x"
  by (cases xs rule: rev_cases) simp_all

text \<open>Aborting makes the attempt in flight the last one, with outcome aborted.\<close>

lemma on_aborted_last:
  assumes "rec_inv r" and "in_flight r \<noteq> None"
  shows "rr_attempts (on_aborted now r) \<noteq> [] \<and> at_outcome (last (rr_attempts (on_aborted now r))) = OutAborted"
proof -
  from assms(2) obtain s h i where fl: "in_flight r = Some (s, h, i)" by auto
  with assms(1) have i: "i \<le> length (rr_attempts r)" "length (rr_attempts r) \<le> Suc i"
    by (auto simp: rec_inv_def)
  then have "i = length (rr_attempts r) \<or> Suc i = length (rr_attempts r)" by auto
  with fl show ?thesis
    by (auto simp: on_aborted_def Let_def store_attempt_def last_update_end simp del: in_flight_Some_iff)
qed

lemma recorder_drop_aborted:
  assumes "rec_inv r" and "in_flight r \<noteq> None" and "\<not> rr_finished r" and "rr_recordable r"
  shows "\<exists>event counters. snd (recorder_drop now r) = Some (event, counters) \<and>
    ev_final_outcome event = FinalOutcome OutAborted"
proof -
  have keep: "rr_finished (on_aborted now r) = rr_finished r"
    "rr_recordable (on_aborted now r) = rr_recordable r"
    "rr_first_started (on_aborted now r) = rr_first_started r"
    by (auto simp: on_aborted_def Let_def store_attempt_def split: option.splits)
  from assms(1,2) obtain t where "rr_first_started r = Some t"
    by (auto simp: rec_inv_def in_flight_def bind_eq_None_conv split: bind_splits)
  with on_aborted_last [OF assms(1,2), of now] assms(3,4) show ?thesis
    by (auto simp: recorder_drop_def finish_def keep Let_def request_event_of_def)
qed

end
