(* ===== verification/TR_Identity.thy ===== *)
theory TR_Identity
  imports TR_Http
begin

text \<open>
  The bounded identity of the SDK (\<open>telemetry/wire.rs\<close>): the grammars of the version and the
  runtime token, the user agent, and the identity sent with every beacon batch. The compile-time
  facts (\<open>CARGO_PKG_VERSION\<close>, the compiler release captured by the build script, target system and
  architecture) are the fields of \<open>build_env\<close>.
\<close>

record build_env =
  be_version :: string
  be_rustc_release :: "string option"
  be_os :: string
  be_arch :: string

record sdk_identity_t =
  id_name :: string
  id_version :: string
  id_lang :: string
  id_runtime :: string
  id_os :: string
  id_arch :: string

definition valid_identifiers :: "string \<Rightarrow> bool" where
  "valid_identifiers part \<longleftrightarrow>
     part \<noteq> [] \<and>
     list_all (\<lambda>ident. ident \<noteq> [] \<and> list_all (\<lambda>c. is_ascii_alphanumeric c \<or> c = CHR ''-'') ident)
       (split_on CHR ''.'' part)"

text \<open>\<open>splitn(2, '-')\<close>: the text before the first hyphen and, when there is one, the text after it.\<close>

definition split_once :: "char \<Rightarrow> string \<Rightarrow> string \<times> string option" where
  "split_once d s =
     (let p = takeWhile (\<lambda>c. c \<noteq> d) s
      in (p, if length p < length s then Some (drop (Suc (length p)) s) else None))"

definition valid_release_number :: "string \<Rightarrow> bool" where
  "valid_release_number part \<longleftrightarrow>
     part \<noteq> [] \<and> list_all is_ascii_digit part \<and> (part = ''0'' \<or> \<not> starts_with ''0'' part)"

definition valid_semver :: "string \<Rightarrow> bool" where
  "valid_semver value =
     (if value = [] \<or> 32 < length value then False
      else
        (let build_parts = split_on CHR ''+'' value in
         if 2 < length build_parts then False
         else
           (let core = hd build_parts;
                build = (if length build_parts = 2 then Some (build_parts ! 1) else None);
                (release, prerelease) = split_once CHR ''-'' core;
                parts = split_on CHR ''.'' release
            in length parts = 3 \<and> list_all valid_release_number parts \<and>
               is_none_or valid_identifiers prerelease \<and> is_none_or valid_identifiers build)))"

definition valid_runtime :: "string \<Rightarrow> bool" where
  "valid_runtime value =
     (case split_once CHR ''/'' value of
        (_, None) \<Rightarrow> False
      | (name, Some version) \<Rightarrow>
          name \<noteq> [] \<and> length name \<le> 10 \<and> list_all is_ascii_lowercase name \<and>
          version \<noteq> [] \<and> length version \<le> 24 \<and>
          list_all (\<lambda>c. is_ascii_alphanumeric c \<or> c \<in> set ''.+-'') version)"

definition runtime_token_from_release :: "string option \<Rightarrow> string" where
  "runtime_token_from_release release =
     (let rel = unwrap_or ''unknown'' (opt_filter (\<lambda>v. v \<noteq> []) release);
          runtime = ''rustc/'' @ rel
      in if valid_runtime runtime then runtime else ''rustc/unknown'')"

definition runtime_token :: "build_env \<Rightarrow> string" where
  "runtime_token B = runtime_token_from_release (be_rustc_release B)"

definition sdk_user_agent :: "build_env \<Rightarrow> string" where
  "sdk_user_agent B = ''trusted-router-rust/'' @ be_version B @ '' '' @ runtime_token B"

definition os_enum :: "string \<Rightarrow> string" where
  "os_enum os =
     (if os \<in> set [''linux'', ''macos'', ''windows'', ''ios'', ''android'', ''freebsd'']
      then os else ''other'')"

definition arch_enum :: "string \<Rightarrow> string" where
  "arch_enum arch =
     (if arch = ''x86_64'' then ''x64''
      else if arch = ''x86'' then ''x32''
      else if arch = ''aarch64'' then ''arm64''
      else if arch = ''arm'' then ''arm''
      else if arch = ''wasm32'' \<or> arch = ''wasm64'' then ''wasm''
      else ''other'')"

definition sdk_identity :: "build_env \<Rightarrow> sdk_identity_t" where
  "sdk_identity B =
     \<lparr>id_name = ''tr-rust'',
      id_version = (if valid_semver (be_version B) then be_version B else ''0.0.0''),
      id_lang = ''rust'',
      id_runtime = runtime_token B,
      id_os = os_enum (be_os B),
      id_arch = arch_enum (be_arch B)\<rparr>"

definition example_build :: build_env where
  "example_build = \<lparr>be_version = ''0.4.0'', be_rustc_release = Some ''1.88.0'',
     be_os = ''linux'', be_arch = ''x86_64''\<rparr>"

section \<open>Lemmas\<close>

lemma valid_runtime_unknown: "valid_runtime ''rustc/unknown''"
  by code_simp

lemma valid_runtime_token: "valid_runtime (runtime_token_from_release release)"
  by (simp add: runtime_token_from_release_def Let_def valid_runtime_unknown)

lemma split_once_Some:
  "split_once d s = (p, Some q) \<Longrightarrow> s = p @ d # q \<and> d \<notin> set p"
proof -
  assume "split_once d s = (p, Some q)"
  then have p: "p = takeWhile (\<lambda>c. c \<noteq> d) s" and lt: "length p < length s"
    and q: "q = drop (Suc (length p)) s"
    by (auto simp: split_once_def Let_def split: if_splits)
  have "s ! length p = d" using nth_length_takeWhile [of "\<lambda>c. c \<noteq> d" s] lt p by simp
  then have "drop (length p) s = d # q" using lt q Cons_nth_drop_Suc by metis
  moreover have "take (length p) s = p" using p by (metis takeWhile_eq_take)
  ultimately show ?thesis using p set_takeWhileD by (metis append_take_drop_id)
qed

lemma valid_runtime_visible: "valid_runtime v \<Longrightarrow> list_all is_graphic v"
proof -
  assume v: "valid_runtime v"
  then obtain p q where pq: "split_once CHR ''/'' v = (p, Some q)"
    by (auto simp: valid_runtime_def split: prod.splits option.splits)
  with v have "list_all is_ascii_lowercase p"
    "list_all (\<lambda>c. is_ascii_alphanumeric c \<or> c \<in> set ''.+-'') q"
    by (auto simp: valid_runtime_def)
  then have "list_all is_graphic p \<and> list_all is_graphic q"
    by (auto simp: list_all_iff is_graphic_def char_class_defs)
  moreover have "is_graphic CHR ''/''" by (simp add: is_graphic_def byte_def)
  ultimately show ?thesis using split_once_Some [OF pq] by simp
qed

lemma user_agent_visible:
  "list_all visible_ascii (be_version B) \<Longrightarrow> list_all visible_ascii (sdk_user_agent B)"
proof -
  assume v: "list_all visible_ascii (be_version B)"
  have "list_all visible_ascii (runtime_token B)"
    using valid_runtime_visible [OF valid_runtime_token [of "be_rustc_release B"]]
    unfolding runtime_token_def list_all_iff [of is_graphic] by (intro visible_graphic) blast
  moreover have "list_all visible_ascii ''trusted-router-rust/''" "visible_ascii CHR '' ''"
    by code_simp+
  ultimately show ?thesis using v by (simp add: sdk_user_agent_def)
qed

section \<open>Properties\<close>

text \<open>A beacon identity is never out of grammar. Whatever the compiler release and whatever the
  crate version, the identity's version is a valid bounded version, its runtime a valid runtime
  token, and its system and architecture members of the closed vocabularies.\<close>

theorem sdk_identity_in_grammar:
  "valid_semver (id_version (sdk_identity B)) \<and> valid_runtime (id_runtime (sdk_identity B)) \<and>
   id_os (sdk_identity B) \<in> {''linux'', ''macos'', ''windows'', ''ios'', ''android'', ''freebsd'', ''other''} \<and>
   id_arch (sdk_identity B) \<in> {''x64'', ''x32'', ''arm64'', ''arm'', ''wasm'', ''other''}"
proof -
  have "valid_semver ''0.0.0''" by code_simp
  then show ?thesis
    by (auto simp: sdk_identity_def runtime_token_def valid_runtime_token os_enum_def arch_enum_def)
qed

end
