(* ===== verification/TR_Headers.thy ===== *)
theory TR_Headers
  imports TR_Recorder TR_Identity
begin

text \<open>
  Attempt assembly (\<open>transport/headers.rs\<close>) and the credential-free boundary
  (\<open>transport/mod.rs\<close>): the header map of one attempt, the reserved telemetry slot, the
  idempotency key, and what a credential-free call strips from the client and its options. The
  random part of a minted key (\<open>Uuid::new_v4().simple()\<close>) is the argument \<open>uuid\<close>.
\<close>

definition parse_header_name :: "http_api \<Rightarrow> string \<Rightarrow> error + string" where
  "parse_header_name H value =
     map_err (\<lambda>e. ErrInvalidConfiguration (''invalid header name: '' @ e)) (hn_from_bytes H value)"

definition parse_header_value :: "http_api \<Rightarrow> string \<Rightarrow> error + string" where
  "parse_header_value H value =
     map_err (\<lambda>e. ErrInvalidConfiguration (''invalid header value: '' @ e)) (hv_from_str H value)"

definition enforce_reserved_telemetry_header ::
    "http_api \<Rightarrow> request_recorder option \<Rightarrow> header_map \<Rightarrow> header_map" where
  "enforce_reserved_telemetry_header H telemetry headers =
     (let headers = header_remove ''x-tr-client'' headers in
      case Option.bind telemetry header_value of
        None \<Rightarrow> headers
      | Some value \<Rightarrow>
          (case hv_from_str H value of
             Inl _ \<Rightarrow> headers
           | Inr v \<Rightarrow> header_insert ''x-tr-client'' v headers))"

fun parse_layer :: "http_api \<Rightarrow> header_layer \<Rightarrow> header_map \<Rightarrow> error + header_map" where
  "parse_layer H [] parsed = Inr parsed"
| "parse_layer H ((name, value) # layer) parsed =
     (if eq_ignore_ascii_case name ''x-tr-client'' then parse_layer H layer parsed
      else and_then (parse_header_name H name) (\<lambda>n.
           and_then (parse_header_value H value) (\<lambda>v.
           parse_layer H layer (header_append n v parsed))))"

fun parse_layers :: "http_api \<Rightarrow> header_layer list \<Rightarrow> header_map \<Rightarrow> error + header_map" where
  "parse_layers H [] headers = Inr headers"
| "parse_layers H (layer # layers) headers =
     and_then (parse_layer H layer no_headers) (\<lambda>parsed.
       parse_layers H layers (header_extend headers parsed))"

text \<open>Inserting a header when its value is present and not empty.\<close>

definition insert_nonempty ::
    "http_api \<Rightarrow> string \<Rightarrow> (string \<Rightarrow> string) \<Rightarrow> string option \<Rightarrow> header_map \<Rightarrow> error + header_map" where
  "insert_nonempty H name render value headers =
     (case opt_filter (\<lambda>v. v \<noteq> []) value of
        None \<Rightarrow> Inr headers
      | Some v \<Rightarrow> and_then (parse_header_value H (render v)) (\<lambda>w. Inr (header_insert name w headers)))"

text \<open>The second half of \<open>request_headers\<close>: user agent, credentials, workspace, idempotency key.\<close>

definition assemble_headers ::
    "http_api \<Rightarrow> build_env \<Rightarrow> ('u, 'c) client \<Rightarrow> call_options \<Rightarrow> header_map \<Rightarrow> error + header_map" where
  "assemble_headers H B cl options headers =
     and_then (parse_header_value H (sdk_user_agent B)) (\<lambda>ua.
     let headers = header_insert ''user-agent'' ua headers;
         api_key = opt_or (co_api_key options) (cl_api_key cl);
         headers = (if co_api_key options \<noteq> None \<or> cl_api_key cl \<noteq> None
                    then header_remove ''authorization'' headers else headers) in
     and_then (insert_nonempty H ''authorization'' (\<lambda>k. ''Bearer '' @ k) api_key headers) (\<lambda>headers.
     let workspace = opt_or (co_workspace_id options) (cl_workspace_id cl);
         headers = (if co_workspace_id options \<noteq> None \<or> cl_workspace_id cl \<noteq> None
                    then header_remove ''x-trustedrouter-workspace'' headers else headers) in
     and_then (insert_nonempty H ''x-trustedrouter-workspace'' (\<lambda>w. w) workspace headers) (\<lambda>headers.
     insert_nonempty H ''idempotency-key'' (\<lambda>k. k) (co_idempotency_key options) headers)))"

definition request_headers ::
    "http_api \<Rightarrow> build_env \<Rightarrow> ('u, 'c) client \<Rightarrow> call_options \<Rightarrow> request_recorder option \<Rightarrow>
     error + header_map" where
  "request_headers H B cl options telemetry =
     and_then (parse_layers H [cl_headers cl, co_headers options] no_headers) (\<lambda>headers.
       assemble_headers H B cl options (enforce_reserved_telemetry_header H telemetry headers))"

definition ensure_idempotency_key :: "string \<Rightarrow> call_options \<Rightarrow> call_options" where
  "ensure_idempotency_key uuid options =
     (if co_idempotency_key options = None
      then options\<lparr>co_idempotency_key := Some (''tr-req-'' @ uuid)\<rparr> else options)"

section \<open>The credential-free boundary\<close>

definition credential_header :: "string \<Rightarrow> bool" where
  "credential_header name \<longleftrightarrow>
     to_ascii_lowercase name \<in> set
       [''authorization'', ''proxy-authorization'', ''cookie'', ''cookie2'', ''x-api-key'',
        ''x-trustedrouter-workspace'', ''idempotency-key'', ''x-tr-client'']"

definition retain_headers :: "header_layer \<Rightarrow> header_layer" where
  "retain_headers layer = filter (\<lambda>(name, _). \<not> credential_header name) layer"

definition credential_free_clone :: "('u, 'c) client \<Rightarrow> ('u, 'c) client" where
  "credential_free_clone cl =
     cl\<lparr>cl_api_key := None, cl_workspace_id := None, cl_telemetry := False,
        cl_telemetry_sink := False, cl_headers := retain_headers (cl_headers cl),
        cl_http := cl_credential_free_http cl\<rparr>"

definition credential_free_options :: "call_options \<Rightarrow> call_options" where
  "credential_free_options options =
     options\<lparr>co_api_key := Some [], co_workspace_id := Some [],
             co_headers := retain_headers (co_headers options)\<rparr>"

section \<open>Lemmas\<close>

lemma parse_header_value_Inr_iff [result_simps]:
  "parse_header_value H v = Inr w \<longleftrightarrow> hv_from_str H v = Inr w"
  by (simp add: parse_header_value_def result_simps)

lemma parse_header_name_Inr_iff [result_simps]:
  "parse_header_name H v = Inr w \<longleftrightarrow> hn_from_bytes H v = Inr w"
  by (simp add: parse_header_name_def result_simps)

lemma parse_layer_names:
  assumes "http_api_ok H" and "parse_layer H layer parsed = Inr hs"
  shows "header_contains n hs \<Longrightarrow> header_contains n parsed \<or>
    (\<exists>(name, v) \<in> set layer. to_ascii_lowercase name = n \<and> \<not> eq_ignore_ascii_case name ''x-tr-client'')"
  using assms(2,1)
proof (induction H layer parsed rule: parse_layer.induct)
  case (2 H name val layer parsed)
  show ?case
  proof (cases "eq_ignore_ascii_case name ''x-tr-client''")
    case True
    with 2 show ?thesis by auto
  next
    case False
    with "2.prems" obtain m v where m: "hn_from_bytes H name = Inr m"
      and rest: "parse_layer H layer (header_append m v parsed) = Inr hs"
      by (auto simp: result_simps)
    have "m = to_ascii_lowercase name" using "2.prems"(3) m http_name_lower by blast
    with "2.IH"(2) [OF False, of m v] "2.prems" rest False show ?thesis
      by (fastforce simp: header_append_def header_contains_def split: if_splits)
  qed
qed simp

lemma parse_layers_names:
  assumes "http_api_ok H" and "parse_layers H layers headers = Inr hs"
  shows "header_contains n hs \<Longrightarrow> header_contains n headers \<or>
    (\<exists>layer \<in> set layers. \<exists>(name, v) \<in> set layer. to_ascii_lowercase name = n)"
  using assms(2,1)
proof (induction H layers headers rule: parse_layers.induct)
  case (2 H layer layers headers)
  from "2.prems" obtain parsed where p: "parse_layer H layer no_headers = Inr parsed"
    and rest: "parse_layers H layers (header_extend headers parsed) = Inr hs"
    by (auto simp: result_simps)
  from "2.IH" [OF "2.prems"(1) rest "2.prems"(3)] consider
      "header_contains n headers" | "header_contains n parsed"
    | "\<exists>layer \<in> set layers. \<exists>(name, v) \<in> set layer. to_ascii_lowercase name = n"
    by auto
  then show ?case
  proof cases
    case 2
    from parse_layer_names [OF "2.prems"(3) p this] show ?thesis by auto
  qed auto
qed simp

text \<open>What a conditional insertion leaves in the map.\<close>

lemma insert_nonempty_Inr:
  assumes "http_api_ok H" and "insert_nonempty H name render v h = Inr h'"
  shows "h' = (case opt_filter (\<lambda>v. v \<noteq> []) v of None \<Rightarrow> h | Some w \<Rightarrow> h(name := [render w]))"
  using assms(2) http_from_str_id [OF assms(1)]
  by (auto simp: insert_nonempty_def result_simps header_insert_def split: option.splits)

definition slot :: "(string \<Rightarrow> string) \<Rightarrow> string option \<Rightarrow> string list \<Rightarrow> string list" where
  "slot render v rest =
     (case v of None \<Rightarrow> rest | Some w \<Rightarrow> if w = [] then [] else [render w])"

lemma request_headers_slots:
  assumes H: "http_api_ok H" and req: "request_headers H B cl options tele = Inr hs"
  obtains layers where
    "parse_layers H [cl_headers cl, co_headers options] no_headers = Inr layers"
    "hs ''x-tr-client'' = (case Option.bind tele header_value of
       None \<Rightarrow> [] | Some v \<Rightarrow> if is_ok (hv_from_str H v) then [v] else [])"
    "hs ''user-agent'' = [sdk_user_agent B]"
    "hs ''authorization'' =
       slot (\<lambda>k. ''Bearer '' @ k) (opt_or (co_api_key options) (cl_api_key cl)) (layers ''authorization'')"
    "hs ''x-trustedrouter-workspace'' =
       slot (\<lambda>w. w) (opt_or (co_workspace_id options) (cl_workspace_id cl))
         (layers ''x-trustedrouter-workspace'')"
    "hs ''idempotency-key'' = (case opt_filter (\<lambda>k. k \<noteq> []) (co_idempotency_key options) of
       None \<Rightarrow> layers ''idempotency-key'' | Some k \<Rightarrow> [k])"
    "\<And>n. n \<notin> {''x-tr-client'', ''user-agent'', ''authorization'', ''x-trustedrouter-workspace'',
       ''idempotency-key''} \<Longrightarrow> hs n = layers n"
proof -
  note keep = http_from_str_id [OF H]
  from req obtain layers ua h1 h2 where l: "parse_layers H [cl_headers cl, co_headers options] no_headers = Inr layers"
    and ua: "hv_from_str H (sdk_user_agent B) = Inr ua"
    and h1: "insert_nonempty H ''authorization'' (\<lambda>k. ''Bearer '' @ k)
      (opt_or (co_api_key options) (cl_api_key cl))
      (if co_api_key options \<noteq> None \<or> cl_api_key cl \<noteq> None
       then header_remove ''authorization''
         (header_insert ''user-agent'' ua (enforce_reserved_telemetry_header H tele layers))
       else header_insert ''user-agent'' ua (enforce_reserved_telemetry_header H tele layers)) = Inr h1"
    and h2: "insert_nonempty H ''x-trustedrouter-workspace'' (\<lambda>w. w)
      (opt_or (co_workspace_id options) (cl_workspace_id cl))
      (if co_workspace_id options \<noteq> None \<or> cl_workspace_id cl \<noteq> None
       then header_remove ''x-trustedrouter-workspace'' h1 else h1) = Inr h2"
    and h3: "insert_nonempty H ''idempotency-key'' (\<lambda>k. k) (co_idempotency_key options) h2 = Inr hs"
    unfolding request_headers_def assemble_headers_def Let_def result_simps by blast
  have en: "enforce_reserved_telemetry_header H tele layers =
    layers(''x-tr-client'' := (case Option.bind tele header_value of
       None \<Rightarrow> [] | Some v \<Rightarrow> if is_ok (hv_from_str H v) then [v] else []))"
    using keep by (auto simp: enforce_reserved_telemetry_header_def header_defs is_ok_def
        split: option.splits sum.splits)
  note steps = insert_nonempty_Inr [OF H h1] insert_nonempty_Inr [OF H h2]
    insert_nonempty_Inr [OF H h3] en keep [OF ua]
  show thesis
    by (rule that [OF l]; cases "opt_or (co_api_key options) (cl_api_key cl)";
        cases "opt_or (co_workspace_id options) (cl_workspace_id cl)";
        cases "co_idempotency_key options")
      (auto simp: steps header_defs slot_def)
qed

lemma retained_not_credential:
  "(name, v) \<in> set (retain_headers layer) \<Longrightarrow> \<not> credential_header (to_ascii_lowercase name)"
  by (auto simp: retain_headers_def credential_header_def)

text \<open>The recorder influences only the telemetry slot of the header map, and never whether the map
  can be built.\<close>

definition telemetry_slot :: "http_api \<Rightarrow> request_recorder option \<Rightarrow> string list" where
  "telemetry_slot H rec = (case Option.bind rec header_value of
     None \<Rightarrow> [] | Some v \<Rightarrow> (case hv_from_str H v of Inl _ \<Rightarrow> [] | Inr w \<Rightarrow> [w]))"

abbreviation set_slot :: "string list \<Rightarrow> header_map \<Rightarrow> header_map" where
  "set_slot t h \<equiv> h(''x-tr-client'' := t)"

lemma enforce_slot: "enforce_reserved_telemetry_header H rec h = set_slot (telemetry_slot H rec) h"
  by (auto simp: enforce_reserved_telemetry_header_def telemetry_slot_def header_defs
      split: option.splits sum.splits)

lemma and_then_map_sum: "and_then (map_sum id g r) k = and_then r (\<lambda>v. k (g v))"
  by (cases r) simp_all

lemma map_sum_and_then: "map_sum id g (and_then r k) = and_then r (\<lambda>v. map_sum id g (k v))"
  by (cases r) simp_all

lemma insert_nonempty_slot:
  "n \<noteq> ''x-tr-client'' \<Longrightarrow>
     insert_nonempty H n f v (set_slot t h) = map_sum id (set_slot t) (insert_nonempty H n f v h)"
  by (auto simp: insert_nonempty_def header_insert_def parse_header_value_def map_err_def
      fun_upd_twist split: option.splits sum.splits)

lemma header_ops_slot:
  "n \<noteq> ''x-tr-client'' \<Longrightarrow> header_remove n (set_slot t h) = set_slot t (header_remove n h)"
  "n \<noteq> ''x-tr-client'' \<Longrightarrow> header_insert n v (set_slot t h) = set_slot t (header_insert n v h)"
  "(if b then set_slot t x else set_slot t y) = set_slot t (if b then x else y)"
  by (simp_all add: header_defs fun_upd_twist)

lemma assemble_headers_slot:
  "assemble_headers H B cl options (set_slot t h) =
     map_sum id (set_slot t) (assemble_headers H B cl options h)"
proof -
  have ne: "''user-agent'' \<noteq> ''x-tr-client''" "''authorization'' \<noteq> ''x-tr-client''"
    "''x-trustedrouter-workspace'' \<noteq> ''x-tr-client''" "''idempotency-key'' \<noteq> ''x-tr-client''"
    by simp_all
  show ?thesis
    unfolding assemble_headers_def Let_def
    by (simp only: ne header_ops_slot insert_nonempty_slot and_then_map_sum map_sum_and_then not_False_eq_True)
qed

lemma request_headers_recorder:
  "request_headers H B cl options rec =
     map_sum id (set_slot (telemetry_slot H rec)) (request_headers H B cl options None)"
proof (cases "parse_layers H [cl_headers cl, co_headers options] no_headers")
  case (Inr h)
  then show ?thesis
    unfolding request_headers_def enforce_slot
    by (cases "assemble_headers H B cl options h") (simp_all add: assemble_headers_slot)
qed (simp add: request_headers_def)

text \<open>The header map of a credential-free attempt has no credential header.\<close>

lemma credential_free_headers:
  assumes "http_api_ok H"
    and "request_headers H B (credential_free_clone cl) (credential_free_options options) None = Inr hs"
    and "credential_header n"
  shows "hs n = (if n = ''idempotency-key''
    then (case opt_filter (\<lambda>k. k \<noteq> []) (co_idempotency_key options) of None \<Rightarrow> [] | Some k \<Rightarrow> [k])
    else [])"
proof -
  obtain layers where
    l: "parse_layers H [cl_headers (credential_free_clone cl), co_headers (credential_free_options options)]
      no_headers = Inr layers"
    and slots: "hs ''x-tr-client'' = []" "hs ''authorization'' = []"
      "hs ''x-trustedrouter-workspace'' = []"
      "hs ''idempotency-key'' = (case opt_filter (\<lambda>k. k \<noteq> []) (co_idempotency_key options) of
         None \<Rightarrow> layers ''idempotency-key'' | Some k \<Rightarrow> [k])"
      "\<And>n. n \<notin> {''x-tr-client'', ''user-agent'', ''authorization'', ''x-trustedrouter-workspace'',
         ''idempotency-key''} \<Longrightarrow> hs n = layers n"
    by (rule request_headers_slots [OF assms(1,2)], rule that, assumption)
      (simp_all add: slot_def credential_free_clone_def credential_free_options_def)
  have "layers n = []"
  proof (rule ccontr)
    assume "layers n \<noteq> []"
    with parse_layers_names [OF assms(1) l, of n] obtain name v where
      "(name, v) \<in> set (retain_headers (cl_headers cl)) \<union> set (retain_headers (co_headers options))"
      "to_ascii_lowercase name = n"
      by (auto simp: header_contains_def no_headers_def credential_free_clone_def
          credential_free_options_def)
    with retained_not_credential assms(3) show False by blast
  qed
  moreover have "n \<noteq> ''user-agent''" using assms(3) by (rule contrapos_pn) (simp, code_simp)
  ultimately show ?thesis
    using slots by (cases "n \<in> {''x-tr-client'', ''authorization'', ''x-trustedrouter-workspace'',
      ''idempotency-key''}") (auto split: option.splits)
qed

text \<open>Assembling headers fails only with a configuration error, which is not a transport failure.\<close>

lemma insert_nonempty_error:
  "insert_nonempty H n f v h = Inl e \<Longrightarrow> \<not> retryable_transport e"
  by (auto simp: insert_nonempty_def and_then_Inl_iff parse_header_value_def map_err_def
      split: option.splits sum.splits)

lemma parse_layer_error: "parse_layer H layer h = Inl e \<Longrightarrow> \<not> retryable_transport e"
  by (induction H layer h rule: parse_layer.induct)
    (auto simp: and_then_Inl_iff parse_header_value_def parse_header_name_def map_err_def
      split: if_splits sum.splits)

lemma parse_layers_error: "parse_layers H layers h = Inl e \<Longrightarrow> \<not> retryable_transport e"
  by (induction H layers h rule: parse_layers.induct)
    (auto simp: and_then_Inl_iff dest: parse_layer_error)

lemma request_headers_error:
  "request_headers H B cl options rec = Inl e \<Longrightarrow> \<not> retryable_transport e"
  unfolding request_headers_def assemble_headers_def Let_def and_then_Inl_iff
  by (auto dest: parse_layers_error insert_nonempty_error
      simp: parse_header_value_def map_err_def simp del: parse_layers.simps split: sum.splits)

section \<open>Properties\<close>

text \<open>C23: Who owns the sensitive headers of an attempt. Whatever headers the caller configured, in
  whatever spelling: the telemetry slot holds exactly the recorder's value or nothing; a configured
  API key, workspace or idempotency key is the only value of its header, with the per-call value
  winning over the client's; and an empty API key or workspace removes the header altogether.\<close>

theorem request_headers_ownership:
  assumes "http_api_ok H" and "request_headers H B cl options tele = Inr hs"
  shows "hs ''x-tr-client'' \<in> {[], the_list (Option.bind tele header_value)} \<and>
    (case opt_or (co_api_key options) (cl_api_key cl) of
       None \<Rightarrow> True
     | Some k \<Rightarrow> hs ''authorization'' = (if k = [] then [] else [''Bearer '' @ k])) \<and>
    (case opt_or (co_workspace_id options) (cl_workspace_id cl) of
       None \<Rightarrow> True
     | Some w \<Rightarrow> hs ''x-trustedrouter-workspace'' = (if w = [] then [] else [w])) \<and>
    (case co_idempotency_key options of
       None \<Rightarrow> True
     | Some k \<Rightarrow> k = [] \<or> hs ''idempotency-key'' = [k]) \<and>
    hs ''user-agent'' = [sdk_user_agent B]"
  by (rule request_headers_slots [OF assms])
    (auto simp: slot_def the_list_def split: option.splits)

definition example_options :: call_options where
  "example_options = default_call_options
     \<lparr>co_api_key := Some [], co_idempotency_key := Some ''key-1'',
      co_headers := [(''Authorization'', ''Bearer stolen''), (''X-TR-Client'', ''v=9'')]\<rparr>"

definition example_headers :: header_map where
  "example_headers = (case request_headers plain_http example_build example_client example_options None of
     Inr hs \<Rightarrow> hs | Inl _ \<Rightarrow> no_headers)"

theorem request_headers_ownership_witness:
  "example_headers ''x-tr-client'' = [] \<and> example_headers ''authorization'' = [] \<and>
   example_headers ''idempotency-key'' = [''key-1'']"
proof -
  have "is_ok (request_headers plain_http example_build example_client example_options None)"
    by code_simp
  then have "request_headers plain_http example_build example_client example_options None =
      Inr example_headers"
    by (auto simp: example_headers_def is_ok_def split: sum.splits)
  from request_headers_ownership [OF plain_http_ok this] show ?thesis
    by (simp add: example_options_def example_client_def default_call_options_def the_list_def)
qed

end
