(* ===== verification/TR_Engine.thy ===== *)
theory TR_Engine
  imports TR_Headers
begin

text \<open>
  The transport engine (\<open>transport/engine.rs\<close>) and the two entry points over it
  (\<open>transport/mod.rs\<close>): the single loop that retries a request and moves between candidates. The
  network is the environment: what a built request is answered with, and after how long, is given
  per attempt by the fields of \<open>net_env\<close>, together with the clock reads and the random draws. A
  run yields the trace of what the engine did (requests sent, sleeps, events reported) and the
  result of the call.
\<close>

section \<open>Data\<close>

datatype attempt_failure = AfDeadline | AfTransport reqwest_error

text \<open>A future of the transport: when it completes and with what.\<close>

record 'a timed =
  completes_after :: duration
  outcome :: 'a

record http_response =
  resp_status :: nat
  resp_headers :: header_map
  resp_body :: "(reqwest_error + string) timed"

record ('u, 'c) request =
  rq_via :: 'c
  rq_method :: http_method
  rq_url :: 'u
  rq_headers :: header_map
  rq_body :: "json option"

datatype ('u, 'c) net_event =
    Sent "('u, 'c) request"
  | Slept duration
  | Reported emission

record ('u, 'c) net_env =
  ne_build :: "nat \<Rightarrow> ('u, 'c) request \<Rightarrow> reqwest_error + header_map"
  ne_send :: "nat \<Rightarrow> ('u, 'c) request \<Rightarrow> (reqwest_error + http_response) timed"
  ne_draw :: "nat \<Rightarrow> nat \<Rightarrow> nat"
  ne_begin :: "nat \<Rightarrow> nat"
  ne_head :: "nat \<Rightarrow> nat"
  ne_body :: "nat \<Rightarrow> nat"
  ne_end :: "nat \<Rightarrow> nat"
  ne_wall :: "nat \<Rightarrow> nat"
  ne_drained :: nat
  ne_done :: nat

record 'u libs =
  lib_url :: "'u url_api"
  lib_http :: http_api
  lib_build :: build_env
  lib_json :: "string \<Rightarrow> json option"

record ('u, 'c) call =
  call_client :: "('u, 'c) client"
  call_plane :: plane
  call_method :: http_method
  call_path :: string
  call_body :: "json option"
  call_options :: call_options
  call_streaming :: bool

section \<open>Deadlines\<close>

definition with_deadline :: "duration option \<Rightarrow> (reqwest_error + 'a) timed \<Rightarrow> attempt_failure + 'a" where
  "with_deadline deadline fut =
     (case opt_filter (\<lambda>d. d \<noteq> 0) deadline of
        Some d \<Rightarrow> (if completes_after fut \<le> d then map_err AfTransport (outcome fut) else Inl AfDeadline)
      | None \<Rightarrow> map_err AfTransport (outcome fut))"

definition call_deadline :: "('u, 'c) client \<Rightarrow> call_options \<Rightarrow> duration option" where
  "call_deadline cl options = opt_or (co_timeout options) (cl_timeout cl)"

definition record_failure ::
    "nat \<Rightarrow> bool \<Rightarrow> bool \<Rightarrow> attempt_failure \<Rightarrow> request_recorder \<Rightarrow> request_recorder" where
  "record_failure now response_opened body_started failure r =
     (case failure of
        AfDeadline \<Rightarrow> on_transport_error now EcReadTimeout True response_opened body_started r
      | AfTransport e \<Rightarrow>
          on_transport_error now (classify_transport_error e) (re_is_timeout e)
            response_opened body_started r)"

definition into_error :: "string \<Rightarrow> attempt_failure \<Rightarrow> error" where
  "into_error deadline_message failure =
     (case failure of
        AfDeadline \<Rightarrow> ErrTimeout deadline_message
      | AfTransport e \<Rightarrow> map_reqwest_error (re_is_timeout e) (re_text e))"

definition send_raw ::
    "nat \<Rightarrow> ('u, 'c) net_env \<Rightarrow> ('u, 'c) request \<Rightarrow> duration option \<Rightarrow> attempt_failure + http_response" where
  "send_raw k E request deadline = with_deadline deadline (ne_send E k request)"

definition read_body ::
    "('u, 'c) client \<Rightarrow> call_options \<Rightarrow> http_response \<Rightarrow> attempt_failure + string" where
  "read_body cl options response = with_deadline (call_deadline cl options) (resp_body response)"

section \<open>The candidate cursor\<close>

text \<open>\<open>CandidateCursor::advance\<close>: the new index and whether it moved.\<close>

definition advance :: "nat \<Rightarrow> nat \<Rightarrow> nat \<times> bool" where
  "advance len index = (if index + 1 < len then (index + 1, True) else (index, False))"

section \<open>One attempt\<close>

definition error_source_of :: "json option \<Rightarrow> error_source option" where
  "error_source_of payload =
     Option.bind payload (\<lambda>p.
       error_source_parse
         (Option.bind
           (opt_or (Option.bind (jget ''error'' p) (jget ''source'')) (jget ''source'' p)) as_str))"

definition send_once ::
    "'u libs \<Rightarrow> ('u, 'c) net_env \<Rightarrow> ('u, 'c) call \<Rightarrow> nat \<Rightarrow> 'u \<Rightarrow> request_recorder option \<Rightarrow>
     ('u, 'c) net_event list \<times> (error + http_response) \<times> request_recorder option" where
  "send_once L E c k url rec =
     (case request_headers (lib_http L) (lib_build L) (call_client c) (call_options c) rec of
        Inl e \<Rightarrow> ([], Inl e, rec)
      | Inr headers \<Rightarrow>
          (let request = \<lparr>rq_via = cl_http (call_client c), rq_method = call_method c, rq_url = url,
                          rq_headers = headers, rq_body = call_body c\<rparr>
           in case ne_build E k request of
                Inl e \<Rightarrow>
                  ([], Inl (into_error ''request could not be built'' (AfTransport e)),
                   map_option (record_failure (ne_head E k) False False (AfTransport e)) rec)
              | Inr built \<Rightarrow>
                  (let request = request\<lparr>rq_headers :=
                         enforce_reserved_telemetry_header (lib_http L) rec built\<rparr>
                   in case send_raw k E request (call_deadline (call_client c) (call_options c)) of
                        Inr response \<Rightarrow> ([Sent request], Inr response, rec)
                      | Inl failure \<Rightarrow>
                          ([Sent request],
                           Inl (into_error ''response headers deadline exceeded'' failure),
                           map_option (record_failure (ne_head E k) False False failure) rec))))"

datatype attempt_verdict =
    AvSuccess http_response
  | AvBodyError error
  | AvFailed failure_disposition

text \<open>\<open>recorder.finish(..)\<close> on an optional recorder, with the report as a trace event.\<close>

definition finish_call ::
    "nat \<Rightarrow> bool \<Rightarrow> request_recorder option \<Rightarrow> ('u, 'c) net_event list \<times> request_recorder option" where
  "finish_call now exhausted rec =
     (case rec of
        None \<Rightarrow> ([], None)
      | Some r \<Rightarrow>
          (let (r', e) = finish now exhausted r
           in ((case e of None \<Rightarrow> [] | Some x \<Rightarrow> [Reported x]), Some r')))"

definition run_attempt ::
    "'u libs \<Rightarrow> ('u, 'c) net_env \<Rightarrow> ('u, 'c) call \<Rightarrow> nat \<Rightarrow> 'u \<Rightarrow> request_recorder option \<Rightarrow>
     ('u, 'c) net_event list \<times> attempt_verdict \<times> request_recorder option" where
  "run_attempt L E c k url rec =
     (let rec = map_option (begin_attempt (lib_url L) (ne_begin E k) url) rec;
          (trace, sent, rec) = send_once L E c k url rec
      in case sent of
           Inl e \<Rightarrow> (trace, AvFailed (from_transport e), rec)
         | Inr response \<Rightarrow>
             (let status = resp_status response; headers = resp_headers response;
                  rec = map_option
                    (on_response (lib_http L) (ne_head E k) (ne_wall E k) status headers None) rec
              in if is_success status then (trace, AvSuccess response, rec)
                 else
                   (case read_body (call_client c) (call_options c) response of
                      Inr bytes \<Rightarrow>
                        (let payload = lib_json L bytes in
                         (trace,
                          AvFailed (from_http (lib_http L) (ne_wall E k) status headers payload),
                          map_option
                            (on_response_body_complete (ne_body E k) (error_source_of payload)) rec))
                    | Inl failure \<Rightarrow>
                        (let rec = map_option (record_failure (ne_body E k) True False failure) rec;
                             disposition = from_http (lib_http L) (ne_wall E k) status headers None
                         in if disp_retry disposition then (trace, AvFailed disposition, rec)
                            else
                              (let (reported, rec) = finish_call (ne_end E k) False rec
                               in (trace @ reported,
                                   AvBodyError (into_error ''response body deadline exceeded'' failure),
                                   rec))))))"

section \<open>The loop\<close>

definition request_replay_safe :: "http_method \<Rightarrow> call_options \<Rightarrow> bool" where
  "request_replay_safe method options \<longleftrightarrow>
     method \<in> set [GET, HEAD, OPTIONS, TRACE] \<or>
     is_some_and (\<lambda>key. key \<noteq> []) (co_idempotency_key options)"

text \<open>The loop of \<open>Client::execute\<close> over an attempt function: it tries, returns a terminal verdict,
  or advances the cursor when the disposition says so, sleeps, and goes round again.\<close>

function retry_loop ::
    "(nat \<Rightarrow> 'u \<Rightarrow> request_recorder option \<Rightarrow>
        ('u, 'c) net_event list \<times> attempt_verdict \<times> request_recorder option) \<Rightarrow>
     ('u, 'c) net_env \<Rightarrow> nat \<Rightarrow> bool \<Rightarrow> 'u list \<Rightarrow> nat \<Rightarrow> nat \<Rightarrow> request_recorder option \<Rightarrow>
     ('u, 'c) net_event list \<times> (error + http_response \<times> request_recorder option)" where
  "retry_loop att E max_retries replay_safe candidates attempt index rec =
     (case att attempt (candidates ! index) rec of
        (trace, AvSuccess response, rec) \<Rightarrow> (trace, Inr (response, rec))
      | (trace, AvBodyError e, rec) \<Rightarrow> (trace, Inl e)
      | (trace, AvFailed d, rec) \<Rightarrow>
          (if max_retries \<le> attempt \<or> \<not> disp_retry d \<or> \<not> replay_safe
           then (trace @ fst (finish_call (ne_end E attempt) (0 < attempt \<and> disp_retry d) rec),
                 Inl (disp_error d))
           else
             (let (index', moved) =
                    (if disp_failover d then advance (length candidates) index else (index, False));
                  rec' = (if moved then map_option on_moved rec else rec);
                  delay = retry_delay (ne_draw E attempt) attempt (disp_retry_after d);
                  (rest, result) =
                    retry_loop att E max_retries replay_safe candidates (Suc attempt) index' rec'
              in (trace @ Slept delay # rest, result))))"
  by pat_completeness auto
termination
  by (relation "measure (\<lambda>(att, E, max_retries, replay_safe, candidates, attempt, index, rec).
        max_retries - attempt)") auto

declare retry_loop.simps [simp del]

definition request_recorder_for ::
    "'u libs \<Rightarrow> ('u, 'c) call \<Rightarrow> string \<Rightarrow> request_recorder option" where
  "request_recorder_for L c resolved_path =
     (if \<not> cl_telemetry (call_client c) \<or> call_plane c \<noteq> Inference \<or>
         \<not> tracked_inference_path resolved_path
      then None
      else Some (recorder_new
        \<lparr>rs_endpoint = endpoint_enum (lib_url L) (call_path c),
         rs_method = call_method c,
         rs_streaming = call_streaming c,
         rs_provider_pinned =
           (Option.bind (Option.bind (Option.bind (Option.bind (call_body c) (jget ''provider''))
              as_object) (\<lambda>m. fmlookup m ''allow_fallbacks'')) as_bool = Some False),
         rs_model = Option.bind (call_body c) (jstr ''model''),
         rs_configured_timeout = call_deadline (call_client c) (call_options c)\<rparr>))"

definition execute ::
    "'u libs \<Rightarrow> ('u, 'c) net_env \<Rightarrow> ('u, 'c) call \<Rightarrow>
     ('u, 'c) net_event list \<times> (error + http_response \<times> request_recorder option)" where
  "execute L E c =
     (case plane_urls (lib_url L) (call_client c) (call_plane c) (call_path c) of
        Inl e \<Rightarrow> ([], Inl e)
      | Inr candidates \<Rightarrow>
          (let resolved_path =
                 (case candidates of [] \<Rightarrow> call_path c | u # _ \<Rightarrow> url_path (lib_url L) u);
               rec = request_recorder_for L c resolved_path
           in retry_loop (run_attempt L E c) E (cl_max_retries (call_client c))
                (request_replay_safe (call_method c) (call_options c)) candidates 0 0 rec))"

section \<open>Entry points\<close>

definition request_bytes ::
    "'u libs \<Rightarrow> ('u, 'c) net_env \<Rightarrow> ('u, 'c) call \<Rightarrow> ('u, 'c) net_event list \<times> (error + string)" where
  "request_bytes L E c =
     (case execute L E (c\<lparr>call_streaming := False\<rparr>) of
        (trace, Inl e) \<Rightarrow> (trace, Inl e)
      | (trace, Inr (response, rec)) \<Rightarrow>
          (case read_body (call_client c) (call_options c) response of
             Inr bytes \<Rightarrow> (trace @ fst (finish_call (ne_done E) False rec), Inr bytes)
           | Inl failure \<Rightarrow>
               (trace @ fst (finish_call (ne_done E) False
                  (map_option (record_failure (ne_drained E) True False failure) rec)),
                Inl (into_error ''response body deadline exceeded'' failure))))"

definition open_stream ::
    "'u libs \<Rightarrow> ('u, 'c) net_env \<Rightarrow> ('u, 'c) call \<Rightarrow>
     ('u, 'c) net_event list \<times> (error + http_response \<times> stream_recorder option)" where
  "open_stream L E c =
     (case execute L E (c\<lparr>call_streaming := True\<rparr>) of
        (trace, Inl e) \<Rightarrow> (trace, Inl e)
      | (trace, Inr (response, rec)) \<Rightarrow> (trace, Inr (response, map_option stream_recorder_new rec)))"

definition credential_free_plane_bytes ::
    "'u libs \<Rightarrow> ('u, 'c) net_env \<Rightarrow> ('u, 'c) call \<Rightarrow> ('u, 'c) net_event list \<times> (error + string)" where
  "credential_free_plane_bytes L E c =
     request_bytes L E
       (c\<lparr>call_client := credential_free_clone (call_client c),
          call_options := credential_free_options (call_options c)\<rparr>)"

text \<open>The typed decoding of a body (\<open>serde_json::from_slice\<close> at the caller's type) is the parameter
  \<open>decode\<close>.\<close>

definition credential_free_control_request ::
    "'u libs \<Rightarrow> ('u, 'c) net_env \<Rightarrow> (string \<Rightarrow> string + 'a) \<Rightarrow> ('u, 'c) call \<Rightarrow>
     ('u, 'c) net_event list \<times> (error + 'a)" where
  "credential_free_control_request L E decode c =
     (let (trace, bytes) = credential_free_plane_bytes L E (c\<lparr>call_plane := Control\<rparr>)
      in (trace, and_then bytes (\<lambda>b. map_err ErrSerialization (decode b))))"

definition public_url_allowed :: "'u url_api \<Rightarrow> 'u \<Rightarrow> bool" where
  "public_url_allowed U url \<longleftrightarrow>
     \<not> (url_scheme U url \<noteq> ''https'' \<and> url_host_str U url \<noteq> Some ''127.0.0.1'' \<and>
        url_host_str U url \<noteq> Some ''localhost'')"

definition credential_free_json ::
    "'u libs \<Rightarrow> ('u, 'c) net_env \<Rightarrow> (string \<Rightarrow> string + 'a) \<Rightarrow> ('u, 'c) client \<Rightarrow> string \<Rightarrow>
     ('u, 'c) net_event list \<times> (error + 'a)" where
  "credential_free_json L E decode cl target =
     (case url_parse (lib_url L) target of
        Inl e \<Rightarrow> ([], Inl (ErrInvalidConfiguration (''invalid public URL: '' @ e)))
      | Inr url \<Rightarrow>
          (if \<not> public_url_allowed (lib_url L) url
           then ([], Inl (ErrInvalidConfiguration ''public metadata URL must use HTTPS''))
           else
             (let request = \<lparr>rq_via = cl_credential_free_http cl, rq_method = GET, rq_url = url,
                    rq_headers = header_insert ''user-agent'' (sdk_user_agent (lib_build L)) no_headers,
                    rq_body = None\<rparr>
              in case ne_build E 0 request of
                   Inl e \<Rightarrow> ([], Inl (map_reqwest_error (re_is_timeout e) (re_text e)))
                 | Inr built \<Rightarrow>
                     (let request = request\<lparr>rq_headers := built\<rparr>
                      in ([Sent request],
                          and_then
                            (map_err (into_error ''public metadata response headers deadline exceeded'')
                              (with_deadline (cl_timeout cl) (ne_send E 0 request))) (\<lambda>response.
                          and_then
                            (map_err (into_error ''public metadata response body deadline exceeded'')
                              (with_deadline (cl_timeout cl) (resp_body response))) (\<lambda>bytes.
                          if \<not> is_success (resp_status response)
                          then Inl (classify_api_error (resp_status response) (lib_json L bytes) None)
                          else map_err ErrSerialization (decode bytes))))))))"

section \<open>Traces\<close>

fun sends :: "('u, 'c) net_event list \<Rightarrow> ('u, 'c) request list" where
  "sends [] = []"
| "sends (Sent rq # tr) = rq # sends tr"
| "sends (Slept d # tr) = sends tr"
| "sends (Reported e # tr) = sends tr"

fun sleeps :: "('u, 'c) net_event list \<Rightarrow> duration list" where
  "sleeps [] = []"
| "sleeps (Sent rq # tr) = sleeps tr"
| "sleeps (Slept d # tr) = d # sleeps tr"
| "sleeps (Reported e # tr) = sleeps tr"

fun reports :: "('u, 'c) net_event list \<Rightarrow> emission list" where
  "reports [] = []"
| "reports (Sent rq # tr) = reports tr"
| "reports (Slept d # tr) = reports tr"
| "reports (Reported e # tr) = e # reports tr"

lemma sends_append [simp]: "sends (a @ b) = sends a @ sends b"
  by (induction a rule: sends.induct) simp_all

lemma sleeps_append [simp]: "sleeps (a @ b) = sleeps a @ sleeps b"
  by (induction a rule: sleeps.induct) simp_all

lemma reports_append [simp]: "reports (a @ b) = reports a @ reports b"
  by (induction a rule: reports.induct) simp_all

lemma finish_call_trace [simp]:
  "sends (fst (finish_call now ex rec)) = []"
  "sleeps (fst (finish_call now ex rec)) = []"
  by (auto simp: finish_call_def split: option.splits prod.splits)

section \<open>The loop as a relation\<close>

text \<open>The runs of the loop, one rule per way an iteration can end. \<open>loop_runs\<close> shows that the loop
  function computes exactly them, so that facts about the loop are proved by rule induction.\<close>

inductive loop_run ::
    "(nat \<Rightarrow> 'u \<Rightarrow> request_recorder option \<Rightarrow>
        ('u, 'c) net_event list \<times> attempt_verdict \<times> request_recorder option) \<Rightarrow>
     ('u, 'c) net_env \<Rightarrow> nat \<Rightarrow> bool \<Rightarrow> 'u list \<Rightarrow> nat \<Rightarrow> nat \<Rightarrow> request_recorder option \<Rightarrow>
     ('u, 'c) net_event list \<Rightarrow> (error + http_response \<times> request_recorder option) \<Rightarrow> bool"
  for att E m safe cands where
  success: "att k (cands ! i) rec = (tr, AvSuccess r, rec') \<Longrightarrow>
    loop_run att E m safe cands k i rec tr (Inr (r, rec'))"
| body_error: "att k (cands ! i) rec = (tr, AvBodyError e, rec') \<Longrightarrow>
    loop_run att E m safe cands k i rec tr (Inl e)"
| terminal: "att k (cands ! i) rec = (tr, AvFailed d, rec') \<Longrightarrow>
    m \<le> k \<or> \<not> disp_retry d \<or> \<not> safe \<Longrightarrow>
    loop_run att E m safe cands k i rec
      (tr @ fst (finish_call (ne_end E k) (0 < k \<and> disp_retry d) rec')) (Inl (disp_error d))"
| retry: "att k (cands ! i) rec = (tr, AvFailed d, rec') \<Longrightarrow>
    k < m \<Longrightarrow> disp_retry d \<Longrightarrow> safe \<Longrightarrow>
    (j, moved) = (if disp_failover d then advance (length cands) i else (i, False)) \<Longrightarrow>
    loop_run att E m safe cands (Suc k) j (if moved then map_option on_moved rec' else rec') rest res \<Longrightarrow>
    loop_run att E m safe cands k i rec
      (tr @ Slept (retry_delay (ne_draw E k) k (disp_retry_after d)) # rest) res"

lemma loop_runs:
  "retry_loop att E m safe cands k i rec = (tr, res) \<Longrightarrow> loop_run att E m safe cands k i rec tr res"
proof (induction "m - k" arbitrary: k i rec tr res)
  case less: (0 k i rec tr res)
  then show ?case
    by (auto simp: retry_loop.simps [of att E m _ cands k] split: prod.splits attempt_verdict.splits
        intro: loop_run.intros)
next
  case (Suc n k i rec tr res)
  show ?case
  proof (cases "att k (cands ! i) rec")
    case (fields tr0 v rec')
    show ?thesis
    proof (cases v)
      case (AvFailed d)
      show ?thesis
      proof (cases "disp_retry d \<and> safe")
        case True
        obtain j moved where jm:
          "(if disp_failover d then advance (length cands) i else (i, False)) = (j, moved)"
          by (cases "if disp_failover d then advance (length cands) i else (i, False)")
        obtain rest res' where rest: "retry_loop att E m safe cands (Suc k) j
            (if moved then map_option on_moved rec' else rec') = (rest, res')"
          by (cases "retry_loop att E m safe cands (Suc k) j
            (if moved then map_option on_moved rec' else rec')")
        from Suc.hyps(2) have n: "n = m - Suc k" "k < m" by auto
        from Suc.hyps(1) [OF n(1) rest] have run: "loop_run att E m safe cands (Suc k) j
            (if moved then map_option on_moved rec' else rec') rest res'" .
        have "tr = tr0 @ Slept (retry_delay (ne_draw E k) k (disp_retry_after d)) # rest" "res = res'"
          using Suc.prems fields AvFailed True n jm rest
          by (simp_all add: retry_loop.simps [of att E m _ cands k])
        with loop_run.retry [OF _ n(2) _ _ jm [symmetric] run] True fields AvFailed show ?thesis
          by simp
      next
        case False
        with Suc.prems fields AvFailed show ?thesis
          by (auto simp: retry_loop.simps [of att E m _ cands k] intro: loop_run.terminal)
      qed
    qed (use Suc.prems fields in \<open>auto simp: retry_loop.simps [of att E m _ cands k]
        intro: loop_run.intros\<close>)
  qed
qed

lemma cursor_step:
  "(j, moved) = (if f then advance n i else (i, False)) \<Longrightarrow> i < n \<Longrightarrow>
     i \<le> j \<and> j \<le> Suc i \<and> j < n \<and> (moved \<longleftrightarrow> j = Suc i) \<and> (\<not> f \<longrightarrow> j = i)"
  by (auto simp: advance_def split: if_splits)

section \<open>The contract of an attempt\<close>

text \<open>What the loop relies on: one attempt sends at most one request, to the URL it was given and
  with the properties \<open>sent_ok\<close>, and never sleeps.\<close>

locale attempt_contract =
  fixes att :: "nat \<Rightarrow> 'u \<Rightarrow> request_recorder option \<Rightarrow>
      ('u, 'c) net_event list \<times> attempt_verdict \<times> request_recorder option"
    and sent_ok :: "'u \<Rightarrow> ('u, 'c) request \<Rightarrow> bool"
  assumes att_sends: "att k u rec = (tr, v, rec') \<Longrightarrow>
      sleeps tr = [] \<and> length (sends tr) \<le> 1 \<and> (\<forall>rq \<in> set (sends tr). sent_ok u rq)"
begin

lemma loop_counts:
  "loop_run att E m safe cands k i rec tr res \<Longrightarrow>
     length (sends tr) \<le> Suc (m - k) \<and> (\<not> safe \<longrightarrow> length (sends tr) \<le> 1) \<and>
     length (sleeps tr) \<le> m - k"
proof (induction rule: loop_run.induct)
  case (retry k i rec tr d rec' j moved rest res)
  then show ?case using att_sends [OF retry.hyps(1)] by auto
qed (auto dest: att_sends)

lemma att_targets:
  "att k u rec = (tr, v, rec') \<Longrightarrow> list_all2 (\<lambda>j rq. sent_ok u rq) (replicate (length (sends tr)) i) (sends tr)"
  using att_sends by (auto simp: list_all2_conv_all_nth)

lemma loop_targets:
  "loop_run att E m safe cands k i rec tr res \<Longrightarrow> i < length cands \<Longrightarrow>
     \<exists>idx. list_all2 (\<lambda>j rq. sent_ok (cands ! j) rq) idx (sends tr) \<and> sorted idx \<and>
       set idx \<subseteq> {i ..< length cands}"
proof (induction rule: loop_run.induct)
  case (retry k i rec tr d rec' j moved rest res)
  from cursor_step [OF retry.hyps(5) retry.prems] have j: "i \<le> j" "j < length cands" by auto
  from retry.IH [OF j(2)] obtain idx where idx:
    "list_all2 (\<lambda>j rq. sent_ok (cands ! j) rq) idx (sends rest)" "sorted idx"
    "set idx \<subseteq> {j ..< length cands}" by blast
  have "list_all2 (\<lambda>j rq. sent_ok (cands ! j) rq) (replicate (length (sends tr)) i) (sends tr)"
    using att_targets [OF retry.hyps(1), of i] by (simp add: list_all2_conv_all_nth)
  with idx j retry.prems show ?case
    by (intro exI [of _ "replicate (length (sends tr)) i @ idx"])
      (auto simp: sorted_append intro: list_all2_appendI)
next
  case (success k i rec tr r rec')
  with att_targets [OF success.hyps, of i] show ?case
    by (intro exI [of _ "replicate (length (sends tr)) i"]) (auto simp: list_all2_conv_all_nth)
next
  case (body_error k i rec tr e rec')
  with att_targets [OF body_error.hyps, of i] show ?case
    by (intro exI [of _ "replicate (length (sends tr)) i"]) (auto simp: list_all2_conv_all_nth)
next
  case (terminal k i rec tr d rec')
  with att_targets [OF terminal.hyps(1), of i] show ?case
    by (intro exI [of _ "replicate (length (sends tr)) i"]) (auto simp: list_all2_conv_all_nth)
qed

text \<open>Without a failover disposition the loop stays at its candidate.\<close>

lemma loop_stays:
  "loop_run att E m safe cands k i rec tr res \<Longrightarrow>
     (\<And>k u rec tr d rec'. att k u rec = (tr, AvFailed d, rec') \<Longrightarrow> disp_retry d \<Longrightarrow> \<not> disp_failover d) \<Longrightarrow>
     list_all (sent_ok (cands ! i)) (sends tr)"
proof (induction rule: loop_run.induct)
  case (retry k i rec tr d rec' j moved rest res)
  from retry.prems [OF retry.hyps(1,3)] retry.hyps(5) have "j = i" by simp
  with retry att_sends [OF retry.hyps(1)] show ?case by (auto simp: list_all_iff)
qed (auto simp: list_all_iff dest: att_sends)

lemma loop_sleeps:
  "loop_run att E m safe cands k i rec tr res \<Longrightarrow> (\<And>k c. ne_draw E k c \<le> c) \<Longrightarrow>
     list_all (\<lambda>d. d \<le> MAX_RETRY_AFTER) (sleeps tr)"
proof (induction rule: loop_run.induct)
  case (retry k i rec tr d rec' j moved rest res)
  then show ?case using att_sends [OF retry.hyps(1)] retry_delay_max by auto
qed (auto dest: att_sends)

end

text \<open>The request an attempt of a call may send: through the client's transport, with the call's
  method and body, and, when the header crate and the request builder behave as documented, with
  the call's idempotency key as its only one.\<close>

definition build_keeps :: "('u, 'c) net_env \<Rightarrow> bool" where
  "build_keeps E \<longleftrightarrow>
     (\<forall>k rq hs. ne_build E k rq = Inr hs \<longrightarrow> (\<forall>n. n \<noteq> ''content-type'' \<longrightarrow> hs n = rq_headers rq n))"

definition sent_by :: "'u libs \<Rightarrow> ('u, 'c) net_env \<Rightarrow> ('u, 'c) call \<Rightarrow> 'u \<Rightarrow> ('u, 'c) request \<Rightarrow> bool" where
  "sent_by L E c u rq \<longleftrightarrow>
     rq_url rq = u \<and> rq_via rq = cl_http (call_client c) \<and> rq_method rq = call_method c \<and>
     rq_body rq = call_body c \<and>
     (http_api_ok (lib_http L) \<and> build_keeps E \<longrightarrow>
        (\<exists>rec hs. request_headers (lib_http L) (lib_build L) (call_client c) (call_options c) rec = Inr hs \<and>
           (\<forall>n. n \<noteq> ''x-tr-client'' \<and> n \<noteq> ''content-type'' \<longrightarrow> rq_headers rq n = hs n)))"

lemma build_keepsD:
  "build_keeps E \<Longrightarrow> ne_build E k rq = Inr hs \<Longrightarrow> n \<noteq> ''content-type'' \<Longrightarrow> hs n = rq_headers rq n"
  by (simp add: build_keeps_def)

lemma enforce_other:
  "n \<noteq> ''x-tr-client'' \<Longrightarrow> enforce_reserved_telemetry_header H rec hs n = hs n"
  by (auto simp: enforce_reserved_telemetry_header_def header_defs Let_def
      split: option.splits sum.splits)

lemma send_once_sends:
  assumes "send_once L E c k u rec = (tr, r, rec')"
  shows "sleeps tr = [] \<and> length (sends tr) \<le> 1 \<and> (\<forall>rq \<in> set (sends tr). sent_by L E c u rq)"
proof (cases "request_headers (lib_http L) (lib_build L) (call_client c) (call_options c) rec")
  case (Inl e)
  with assms show ?thesis by (auto simp: send_once_def)
next
  case (Inr hs)
  let ?rq = "\<lparr>rq_via = cl_http (call_client c), rq_method = call_method c, rq_url = u,
    rq_headers = hs, rq_body = call_body c\<rparr>"
  show ?thesis
  proof (cases "ne_build E k ?rq")
    case (Inl e)
    with assms Inr show ?thesis by (auto simp: send_once_def Let_def)
  next
    case built: (Inr hs')
    let ?sent = "?rq\<lparr>rq_headers := enforce_reserved_telemetry_header (lib_http L) rec hs'\<rparr>"
    from assms Inr built have tr: "tr = [Sent ?sent]"
      by (auto simp: send_once_def Let_def split: sum.splits)
    have "rq_headers ?sent n = hs n"
      if "build_keeps E" "n \<noteq> ''x-tr-client''" "n \<noteq> ''content-type''" for n
      using build_keepsD [OF that(1) built that(3)] that(2) by (simp add: enforce_other)
    with Inr have "sent_by L E c u ?sent" by (auto simp: sent_by_def)
    with tr show ?thesis by simp
  qed
qed

lemma run_attempt_sends:
  assumes "run_attempt L E c k u rec = (tr, v, rec')"
  shows "sleeps tr = [] \<and> length (sends tr) \<le> 1 \<and> (\<forall>rq \<in> set (sends tr). sent_by L E c u rq)"
proof -
  let ?rec = "map_option (begin_attempt (lib_url L) (ne_begin E k) u) rec"
  obtain tr0 r rec0 where once: "send_once L E c k u ?rec = (tr0, r, rec0)"
    by (cases "send_once L E c k u ?rec")
  have "sends tr = sends tr0 \<and> sleeps tr = sleeps tr0"
    using assms once
    by (auto simp: run_attempt_def Let_def split: sum.splits if_splits prod.splits)
      (metis append_Nil2 finish_call_trace fst_conv sends_append sleeps_append)+
  with send_once_sends [OF once] show ?thesis by simp
qed

interpretation engine: attempt_contract "run_attempt L E c" "sent_by L E c"
  for L :: "'u libs" and E :: "('u, 'c) net_env" and c :: "('u, 'c) call"
  by unfold_locales (rule run_attempt_sends)

section \<open>Independence of telemetry\<close>

text \<open>A request without its telemetry slot, and an environment that does not look at that slot.\<close>

definition strip_slot :: "('u, 'c) request \<Rightarrow> ('u, 'c) request" where
  "strip_slot rq = rq\<lparr>rq_headers := set_slot [] (rq_headers rq)\<rparr>"

definition telemetry_blind :: "('u, 'c) net_env \<Rightarrow> bool" where
  "telemetry_blind E \<longleftrightarrow>
     (\<forall>k rq rq'. strip_slot rq = strip_slot rq' \<longrightarrow>
        ne_send E k rq = ne_send E k rq' \<and>
        map_sum id (set_slot []) (ne_build E k rq) = map_sum id (set_slot []) (ne_build E k rq'))"

definition untracked :: "('u, 'c) call \<Rightarrow> ('u, 'c) call" where
  "untracked c = c\<lparr>call_client := (call_client c)\<lparr>cl_telemetry := False\<rparr>\<rparr>"

lemma untracked_simps [simp]:
  "call_plane (untracked c) = call_plane c" "call_method (untracked c) = call_method c"
  "call_path (untracked c) = call_path c" "call_body (untracked c) = call_body c"
  "call_options (untracked c) = call_options c"
  "cl_http (call_client (untracked c)) = cl_http (call_client c)"
  "cl_max_retries (call_client (untracked c)) = cl_max_retries (call_client c)"
  "cl_telemetry (call_client (untracked c)) = False"
  "call_deadline (call_client (untracked c)) o' = call_deadline (call_client c) o'"
  "read_body (call_client (untracked c)) o' = read_body (call_client c) o'"
  "request_headers H B (call_client (untracked c)) o' rec = request_headers H B (call_client c) o' rec"
  by (simp_all add: untracked_def call_deadline_def read_body_def request_headers_def
      assemble_headers_def fun_eq_iff)

lemma untracked_plane_urls [simp]:
  "plane_urls U (call_client (untracked c)) pl path = plane_urls U (call_client c) pl path"
  by (cases pl) (simp_all add: untracked_def plane_urls_def relative_url_def)

lemma send_once_blind:
  assumes blind: "telemetry_blind E"
    and r1: "send_once L E c k u rec1 = (t1, s1, rec1')"
    and r2: "send_once L E (untracked c) k u rec2 = (t2, s2, rec2')"
  shows "s1 = s2 \<and> map strip_slot (sends t1) = map strip_slot (sends t2)"
proof (cases "request_headers (lib_http L) (lib_build L) (call_client c) (call_options c) None")
  case (Inl e)
  then have "request_headers (lib_http L) (lib_build L) (call_client c) (call_options c) rec = Inl e" for rec
    by (subst request_headers_recorder) simp
  with r1 r2 show ?thesis by (auto simp: send_once_def)
next
  case (Inr hs)
  define rq where "rq rec = \<lparr>rq_via = cl_http (call_client c), rq_method = call_method c, rq_url = u,
    rq_headers = set_slot (telemetry_slot (lib_http L) rec) hs, rq_body = call_body c\<rparr>" for rec
  have hdr: "request_headers (lib_http L) (lib_build L) (call_client c) (call_options c) rec =
      Inr (set_slot (telemetry_slot (lib_http L) rec) hs)" for rec
    using Inr by (subst request_headers_recorder) simp
  have "strip_slot (rq rec1) = strip_slot (rq rec2)" by (simp add: strip_slot_def rq_def)
  with blind have build: "map_sum id (set_slot []) (ne_build E k (rq rec1)) =
      map_sum id (set_slot []) (ne_build E k (rq rec2))"
    unfolding telemetry_blind_def by blast
  show ?thesis
  proof (cases "ne_build E k (rq rec1)")
    case (Inl e)
    with build have "ne_build E k (rq rec2) = Inl e" by (cases "ne_build E k (rq rec2)") auto
    with Inl r1 r2 hdr show ?thesis by (auto simp: send_once_def Let_def rq_def)
  next
    case built1: (Inr h1)
    with build obtain h2 where built2: "ne_build E k (rq rec2) = Inr h2"
      and h: "set_slot [] h1 = set_slot [] h2"
      by (cases "ne_build E k (rq rec2)") auto
    define q where "q rec h = (rq rec)\<lparr>rq_headers :=
      enforce_reserved_telemetry_header (lib_http L) rec h\<rparr>" for rec h
    have q: "strip_slot (q rec1 h1) = strip_slot (q rec2 h2)"
      using h by (simp add: q_def rq_def strip_slot_def enforce_slot)
    then have "ne_send E k (q rec1 h1) = ne_send E k (q rec2 h2)"
      using blind unfolding telemetry_blind_def by blast
    with q r1 r2 hdr built1 built2 show ?thesis
      by (auto simp: send_once_def Let_def send_raw_def q_def rq_def split: sum.splits)
  qed
qed

lemma run_attempt_blind:
  assumes "telemetry_blind E"
    and "run_attempt L E c k u rec1 = (t1, v1, rec1')"
    and "run_attempt L E (untracked c) k u rec2 = (t2, v2, rec2')"
  shows "v1 = v2 \<and> map strip_slot (sends t1) = map strip_slot (sends t2)"
proof -
  let ?b = "map_option (begin_attempt (lib_url L) (ne_begin E k) u)"
  obtain a1 s1 x1 where o1: "send_once L E c k u (?b rec1) = (a1, s1, x1)"
    by (cases "send_once L E c k u (?b rec1)")
  obtain a2 s2 x2 where o2: "send_once L E (untracked c) k u (?b rec2) = (a2, s2, x2)"
    by (cases "send_once L E (untracked c) k u (?b rec2)")
  note same = send_once_blind [OF assms(1) o1 o2]
  have fc: "sends (t0 @ fst (finish_call n b r)) = sends t0" for t0 :: "('u, 'c) net_event list" and n b r
    by simp
  show ?thesis
  proof (cases s1)
    case (Inl e)
    with same assms o1 o2 show ?thesis by (auto simp: run_attempt_def)
  next
    case (Inr r)
    with same assms o1 o2 show ?thesis
      by (auto simp: run_attempt_def Let_def case_prod_beta fc split: sum.splits if_splits)
  qed
qed

lemma loop_blind:
  assumes blind: "telemetry_blind E"
  shows "loop_run (run_attempt L E c) E m safe cands k i rec tr res \<Longrightarrow>
    retry_loop (run_attempt L E (untracked c)) E m safe cands k i rec2 = (tr2, res2) \<Longrightarrow>
    map strip_slot (sends tr) = map strip_slot (sends tr2) \<and> sleeps tr = sleeps tr2 \<and>
    map_sum id fst res = map_sum id fst res2"
proof (induction arbitrary: rec2 tr2 res2 rule: loop_run.induct)
  case (success k i rec tr r rec')
  obtain t v x where o2: "run_attempt L E (untracked c) k (cands ! i) rec2 = (t, v, x)"
    by (cases "run_attempt L E (untracked c) k (cands ! i) rec2")
  with run_attempt_blind [OF blind success.hyps o2] success.prems
    run_attempt_sends [OF success.hyps] run_attempt_sends [OF o2]
  show ?case by (auto simp: retry_loop.simps [of _ E m safe cands k])
next
  case (body_error k i rec tr e rec')
  obtain t v x where o2: "run_attempt L E (untracked c) k (cands ! i) rec2 = (t, v, x)"
    by (cases "run_attempt L E (untracked c) k (cands ! i) rec2")
  with run_attempt_blind [OF blind body_error.hyps o2] body_error.prems
    run_attempt_sends [OF body_error.hyps] run_attempt_sends [OF o2]
  show ?case by (auto simp: retry_loop.simps [of _ E m safe cands k])
next
  case (terminal k i rec tr d rec')
  obtain t v x where o2: "run_attempt L E (untracked c) k (cands ! i) rec2 = (t, v, x)"
    by (cases "run_attempt L E (untracked c) k (cands ! i) rec2")
  with run_attempt_blind [OF blind terminal.hyps(1) o2] terminal.prems terminal.hyps(2)
    run_attempt_sends [OF terminal.hyps(1)] run_attempt_sends [OF o2]
  show ?case by (auto simp: retry_loop.simps [of _ E m safe cands k])
next
  case (retry k i rec tr d rec' j moved rest res)
  obtain t v x where o2: "run_attempt L E (untracked c) k (cands ! i) rec2 = (t, v, x)"
    by (cases "run_attempt L E (untracked c) k (cands ! i) rec2")
  note same = run_attempt_blind [OF blind retry.hyps(1) o2]
  let ?x = "if moved then map_option on_moved x else x"
  obtain rest2 res' where loop2:
    "retry_loop (run_attempt L E (untracked c)) E m safe cands (Suc k) j ?x = (rest2, res')"
    by (cases "retry_loop (run_attempt L E (untracked c)) E m safe cands (Suc k) j ?x")
  have "tr2 = t @ Slept (retry_delay (ne_draw E k) k (disp_retry_after d)) # rest2" "res2 = res'"
    using retry.prems o2 same [THEN conjunct1, symmetric] retry.hyps(2-4) retry.hyps(5) [symmetric] loop2
    by (simp_all add: retry_loop.simps [of _ E m _ cands k])
  with retry.IH [OF loop2] same run_attempt_sends [OF retry.hyps(1)] run_attempt_sends [OF o2]
  show ?case by simp
qed

lemma run_attempt_success:
  assumes "run_attempt L E c k u rec = (tr, AvSuccess r, rec')"
  shows "is_success (resp_status r) \<and>
    (\<exists>rq. sends tr = [rq] \<and> send_raw k E rq (call_deadline (call_client c) (call_options c)) = Inr r)"
proof -
  let ?rec = "map_option (begin_attempt (lib_url L) (ne_begin E k) u) rec"
  obtain t s x where once: "send_once L E c k u ?rec = (t, s, x)"
    by (cases "send_once L E c k u ?rec")
  with assms have "s = Inr r" "is_success (resp_status r)" "tr = t"
    by (auto simp: run_attempt_def Let_def split: sum.splits if_splits prod.splits)
  with once show ?thesis
    by (auto simp: send_once_def Let_def split: sum.splits)
qed

lemma loop_success:
  "loop_run (run_attempt L E c) E m safe cands k i rec tr res \<Longrightarrow> res = Inr (r, rec') \<Longrightarrow>
     is_success (resp_status r) \<and>
     (\<exists>n rq. k \<le> n \<and> sends tr \<noteq> [] \<and> rq = last (sends tr) \<and>
        send_raw n E rq (call_deadline (call_client c) (call_options c)) = Inr r)"
proof (induction rule: loop_run.induct)
  case (success k i rec tr r' rec'')
  with run_attempt_success [OF success.hyps] show ?case by auto
next
  case (retry k i rec tr d rec'' j moved rest res)
  then obtain n rq where "is_success (resp_status r)" "Suc k \<le> n" "sends rest \<noteq> []"
    "rq = last (sends rest)" "send_raw n E rq (call_deadline (call_client c) (call_options c)) = Inr r"
    by blast
  then show ?case by (intro conjI exI [of _ n] exI [of _ rq]) auto
qed simp_all

lemma execute_loop:
  "execute L E c = (tr, res) \<Longrightarrow> plane_urls (lib_url L) (call_client c) (call_plane c) (call_path c) = Inr cands \<Longrightarrow>
     \<exists>rec. loop_run (run_attempt L E c) E (cl_max_retries (call_client c))
       (request_replay_safe (call_method c) (call_options c)) cands 0 0 rec tr res"
  by (auto simp: execute_def Let_def intro: loop_runs)

lemma execute_unrouted:
  "execute L E c = (tr, res) \<Longrightarrow> plane_urls (lib_url L) (call_client c) (call_plane c) (call_path c) = Inl e \<Longrightarrow>
     tr = [] \<and> res = Inl e"
  by (simp add: execute_def)

text \<open>Every request of a call is one of its attempts at a candidate, with the call's headers.\<close>

lemma execute_sent:
  assumes "execute L E c = (tr, res)" and "rq \<in> set (sends tr)"
    and ne: "call_plane c = Inference \<Longrightarrow> cl_api_base_urls (call_client c) \<noteq> []"
  obtains cands u where "plane_urls (lib_url L) (call_client c) (call_plane c) (call_path c) = Inr cands"
    and "u \<in> set cands" and "sent_by L E c u rq"
proof -
  from assms(2) execute_unrouted [OF assms(1)] obtain cands where
    cands: "plane_urls (lib_url L) (call_client c) (call_plane c) (call_path c) = Inr cands"
    by (cases "plane_urls (lib_url L) (call_client c) (call_plane c) (call_path c)") auto
  with plane_urls_Inr_length [OF cands] ne have "cands \<noteq> []" by (cases "call_plane c") auto
  moreover from execute_loop [OF assms(1) cands] obtain rec where run: "loop_run (run_attempt L E c) E
      (cl_max_retries (call_client c)) (request_replay_safe (call_method c) (call_options c))
      cands 0 0 rec tr res" by blast
  ultimately obtain idx where idx: "list_all2 (\<lambda>j rq. sent_by L E c (cands ! j) rq) idx (sends tr)"
    "set idx \<subseteq> {0 ..< length cands}" using engine.loop_targets [OF run] by auto
  from assms(2) obtain n where n: "n < length (sends tr)" "rq = sends tr ! n"
    by (auto simp: in_set_conv_nth)
  with list_all2_nthD2 [OF idx(1)] list_all2_lengthD [OF idx(1)]
  have "sent_by L E c (cands ! (idx ! n)) rq" "idx ! n \<in> set idx" by simp_all
  with idx(2) have "cands ! (idx ! n) \<in> set cands" by (auto intro: nth_mem)
  from that [OF cands this] \<open>sent_by L E c (cands ! (idx ! n)) rq\<close> show thesis by blast
qed

lemma sent_by_headers:
  assumes "sent_by L E c u rq" and "http_api_ok (lib_http L)" and "build_keeps E"
  obtains hs where "request_headers (lib_http L) (lib_build L) (call_client c) (call_options c) None = Inr hs"
    and "\<And>n. n \<noteq> ''x-tr-client'' \<Longrightarrow> n \<noteq> ''content-type'' \<Longrightarrow> rq_headers rq n = hs n"
proof -
  from assms obtain rec hs where
    h: "request_headers (lib_http L) (lib_build L) (call_client c) (call_options c) rec = Inr hs"
    and q: "\<forall>n. n \<noteq> ''x-tr-client'' \<and> n \<noteq> ''content-type'' \<longrightarrow> rq_headers rq n = hs n"
    unfolding sent_by_def by blast
  from h obtain hs0 where
    "request_headers (lib_http L) (lib_build L) (call_client c) (call_options c) None = Inr hs0"
    "hs = set_slot (telemetry_slot (lib_http L) rec) hs0"
    by (subst (asm) request_headers_recorder)
      (cases "request_headers (lib_http L) (lib_build L) (call_client c) (call_options c) None"; simp)
  with q that show thesis by auto
qed

section \<open>Properties\<close>

text \<open>C6: Attempts and waiting are bounded. One logical call sends at most one request more than the
  configured number of retries and sleeps at most that many times; a call that is not safe to
  replay (not a read, and without an idempotency key) sends at most one request; and with any
  random draws from the intended interval no single sleep exceeds sixty seconds.\<close>

theorem execute_bounded:
  assumes "execute L E c = (tr, res)"
  shows "length (sends tr) \<le> Suc (cl_max_retries (call_client c)) \<and>
    length (sleeps tr) \<le> cl_max_retries (call_client c) \<and>
    (\<not> request_replay_safe (call_method c) (call_options c) \<longrightarrow> length (sends tr) \<le> 1) \<and>
    ((\<forall>k x. ne_draw E k x \<le> x) \<longrightarrow> list_all (\<lambda>d. d \<le> MAX_RETRY_AFTER) (sleeps tr))"
proof (cases "plane_urls (lib_url L) (call_client c) (call_plane c) (call_path c)")
  case (Inl e)
  with execute_unrouted [OF assms] show ?thesis by simp
next
  case (Inr cands)
  with execute_loop [OF assms] obtain rec where run: "loop_run (run_attempt L E c) E
      (cl_max_retries (call_client c)) (request_replay_safe (call_method c) (call_options c))
      cands 0 0 rec tr res" by blast
  from engine.loop_counts [OF run] engine.loop_sleeps [OF run] show ?thesis by auto
qed

text \<open>An example environment: the first attempt is refused, every later one answered with 200.\<close>

definition example_libs :: "plain_url libs" where
  "example_libs = \<lparr>lib_url = plain_urls, lib_http = plain_http, lib_build = example_build,
     lib_json = (\<lambda>_. None)\<rparr>"

definition refused :: reqwest_error where
  "refused = \<lparr>re_is_timeout = False, re_is_connect = True, re_text = ''connection refused'',
     re_chain = [\<lparr>link_io = None, link_text = ''error sending request''\<rparr>,
                 \<lparr>link_io = Some IoConnectionRefused, link_text = ''refused''\<rparr>]\<rparr>"

definition ok_response :: http_response where
  "ok_response = \<lparr>resp_status = 200, resp_headers = no_headers,
     resp_body = \<lparr>completes_after = 1, outcome = Inr ''{}''\<rparr>\<rparr>"

definition example_env :: "(plain_url, unit) net_env" where
  "example_env = \<lparr>ne_build = (\<lambda>k rq. Inr (rq_headers rq)),
     ne_send = (\<lambda>k rq. \<lparr>completes_after = 1,
        outcome = (if k = 0 then Inl refused else Inr ok_response)\<rparr>),
     ne_draw = (\<lambda>k x. x div 2), ne_begin = (\<lambda>k. 10 * k), ne_head = (\<lambda>k. 10 * k + 2),
     ne_body = (\<lambda>k. 10 * k + 3), ne_end = (\<lambda>k. 10 * k + 4), ne_wall = (\<lambda>k. 10 * k),
     ne_drained = 90, ne_done = 91\<rparr>"

definition example_call :: "(plain_url, unit) call" where
  "example_call = \<lparr>call_client = example_client\<lparr>cl_telemetry := True\<rparr>, call_plane = Inference,
     call_method = POST, call_path = ''/chat/completions'', call_body = None,
     call_options = default_call_options\<lparr>co_idempotency_key := Some ''key-1''\<rparr>,
     call_streaming = False\<rparr>"

lemma example_run:
  "length (sends (fst (execute example_libs example_env example_call))) = 2"
  "map rq_url (sends (fst (execute example_libs example_env example_call))) =
     map (\<lambda>b. b\<lparr>pu_path := ''/v1/chat/completions''\<rparr>) (cl_api_base_urls example_client)"
  by code_simp+

theorem execute_bounded_witness:
  "length (sends (fst (execute example_libs example_env example_call))) \<le> 3 \<and>
   list_all (\<lambda>d. d \<le> MAX_RETRY_AFTER) (sleeps (fst (execute example_libs example_env example_call)))"
  using execute_bounded [OF prod.collapse [symmetric, of "execute example_libs example_env example_call"]]
  by (simp add: example_env_def) (simp add: example_call_def example_client_def Let_def)

text \<open>Where requests go. Every request of a call goes to one of its candidate URLs, and the
  candidates are visited in order: the position never goes back and never leaves the list. With a
  single candidate (control plane, pinned client, custom base) every request goes to it.\<close>

theorem execute_targets:
  assumes "execute L E c = (tr, res)"
    and "plane_urls (lib_url L) (call_client c) (call_plane c) (call_path c) = Inr cands"
    and "cands \<noteq> []"
  shows "\<exists>idx. map rq_url (sends tr) = map ((!) cands) idx \<and> sorted idx \<and>
    (\<forall>j \<in> set idx. j < length cands)"
proof -
  from execute_loop [OF assms(1,2)] obtain rec where run: "loop_run (run_attempt L E c) E
      (cl_max_retries (call_client c)) (request_replay_safe (call_method c) (call_options c))
      cands 0 0 rec tr res" by blast
  from engine.loop_targets [OF run] assms(3) obtain idx where
    "list_all2 (\<lambda>j rq. sent_by L E c (cands ! j) rq) idx (sends tr)" "sorted idx"
    "set idx \<subseteq> {0 ..< length cands}" by auto
  then show ?thesis
    by (intro exI [of _ idx])
      (auto simp: list_all2_conv_all_nth sent_by_def intro!: nth_equalityI)
qed

theorem execute_targets_witness:
  "\<exists>idx. map rq_url (sends (fst (execute example_libs example_env example_call))) =
     map ((!) (map (\<lambda>b. b\<lparr>pu_path := ''/v1/chat/completions''\<rparr>) (cl_api_base_urls example_client))) idx \<and>
     sorted idx"
proof -
  let ?cands = "map (\<lambda>b. b\<lparr>pu_path := ''/v1/chat/completions''\<rparr>) (cl_api_base_urls example_client)"
  have "plane_urls (lib_url example_libs) (call_client example_call) (call_plane example_call)
      (call_path example_call) = Inr ?cands" "?cands \<noteq> []"
    by code_simp+
  from execute_targets [OF prod.collapse [symmetric, of "execute example_libs example_env example_call"] this]
  show ?thesis by blast
qed

text \<open>C9: One logical call is one request. All requests of a call, across retries and domain moves,
  use the same transport, method and body and the same headers, except for the telemetry header
  and the content type the request builder adds; the idempotency key of the call, when it has a
  non-empty one, is the only value of its header in every one of them.\<close>

theorem execute_replays_identically:
  assumes "http_api_ok (lib_http L)" and "build_keeps E"
    and "execute L E c = (tr, res)"
    and "plane_urls (lib_url L) (call_client c) (call_plane c) (call_path c) = Inr cands" and "cands \<noteq> []"
    and "rq \<in> set (sends tr)" and "rq' \<in> set (sends tr)"
  shows "rq_via rq = rq_via rq' \<and> rq_method rq = rq_method rq' \<and> rq_body rq = rq_body rq' \<and>
    (\<forall>n. n \<noteq> ''x-tr-client'' \<and> n \<noteq> ''content-type'' \<longrightarrow> rq_headers rq n = rq_headers rq' n) \<and>
    (\<forall>k. co_idempotency_key (call_options c) = Some k \<and> k \<noteq> [] \<longrightarrow>
       rq_headers rq ''idempotency-key'' = [k])"
proof -
  have ne: "cl_api_base_urls (call_client c) \<noteq> []" if "call_plane c = Inference"
    using plane_urls_Inr_length [OF assms(4)] assms(5) that by auto
  obtain u where s: "sent_by L E c u rq" using execute_sent [OF assms(3,6) ne] by blast
  obtain u' where s': "sent_by L E c u' rq'" using execute_sent [OF assms(3,7) ne] by blast
  from sent_by_headers [OF s assms(1,2)] obtain hs where
    hs: "request_headers (lib_http L) (lib_build L) (call_client c) (call_options c) None = Inr hs"
    and e: "\<And>n. n \<noteq> ''x-tr-client'' \<Longrightarrow> n \<noteq> ''content-type'' \<Longrightarrow> rq_headers rq n = hs n" by blast
  from sent_by_headers [OF s' assms(1,2)] hs have
    e': "\<And>n. n \<noteq> ''x-tr-client'' \<Longrightarrow> n \<noteq> ''content-type'' \<Longrightarrow> rq_headers rq' n = hs n" by force
  have "hs ''idempotency-key'' = [k]" if "co_idempotency_key (call_options c) = Some k" "k \<noteq> []" for k
    by (rule request_headers_slots [OF assms(1) hs]) (simp add: that)
  with s s' e e' show ?thesis unfolding sent_by_def by simp
qed

theorem execute_replays_identically_witness:
  "rq_headers (sends (fst (execute example_libs example_env example_call)) ! 1) ''idempotency-key'' = [''key-1'']"
proof -
  let ?tr = "fst (execute example_libs example_env example_call)"
  let ?cands = "map (\<lambda>b. b\<lparr>pu_path := ''/v1/chat/completions''\<rparr>) (cl_api_base_urls example_client)"
  have c: "plane_urls (lib_url example_libs) (call_client example_call) (call_plane example_call)
      (call_path example_call) = Inr ?cands" "?cands \<noteq> []"
    by code_simp+
  have "http_api_ok (lib_http example_libs)" "build_keeps example_env"
    using plain_http_ok by (simp_all add: example_libs_def build_keeps_def example_env_def)
  moreover have "sends ?tr ! 1 \<in> set (sends ?tr)" using example_run(1) by (intro nth_mem) simp
  moreover have "co_idempotency_key (call_options example_call) = Some ''key-1''" by code_simp
  ultimately show ?thesis
    using execute_replays_identically [OF _ _
        prod.collapse [symmetric, of "execute example_libs example_env example_call"] c,
        of "sends ?tr ! 1" "sends ?tr ! 1"]
    by simp
qed

text \<open>What a returned response is. When a call succeeds, the response has a 2xx status, it is the
  answer to the last request sent, and nothing follows that request: the engine neither drains the
  body nor sleeps nor sends again.\<close>

theorem execute_success:
  assumes "execute L E c = (tr, Inr (r, rec))"
  shows "is_success (resp_status r) \<and> sends tr \<noteq> [] \<and>
    (\<exists>n. send_raw n E (last (sends tr)) (call_deadline (call_client c) (call_options c)) = Inr r)"
proof (cases "plane_urls (lib_url L) (call_client c) (call_plane c) (call_path c)")
  case (Inl e)
  with execute_unrouted [OF assms] show ?thesis by simp
next
  case (Inr cands)
  from execute_loop [OF assms Inr] loop_success show ?thesis by blast
qed

theorem execute_success_witness:
  "\<exists>r rec. execute example_libs example_env example_call =
     (fst (execute example_libs example_env example_call), Inr (r, rec)) \<and> is_success (resp_status r)"
proof -
  have "is_ok (snd (execute example_libs example_env example_call))" by code_simp
  then obtain r rec where "execute example_libs example_env example_call =
     (fst (execute example_libs example_env example_call), Inr (r, rec))"
    by (cases "execute example_libs example_env example_call")
      (auto simp: is_ok_def split: sum.splits)
  with execute_success [OF this] show ?thesis by blast
qed

text \<open>C22: Telemetry is transparent. Against a network that does not look at the telemetry header,
  a call with telemetry on sends the same requests (apart from that header), sleeps for the same
  times, and ends with the same response or the same error as the call with telemetry off.\<close>

theorem execute_telemetry_transparent:
  assumes "telemetry_blind E"
    and "execute L E c = (tr, res)" and "execute L E (untracked c) = (tr', res')"
  shows "map strip_slot (sends tr) = map strip_slot (sends tr') \<and> sleeps tr = sleeps tr' \<and>
    map_sum id fst res = map_sum id fst res'"
proof (cases "plane_urls (lib_url L) (call_client c) (call_plane c) (call_path c)")
  case (Inl e)
  with assms(2,3) show ?thesis by (simp add: execute_def)
next
  case (Inr cands)
  from execute_loop [OF assms(2) Inr] obtain rec where run: "loop_run (run_attempt L E c) E
      (cl_max_retries (call_client c)) (request_replay_safe (call_method c) (call_options c))
      cands 0 0 rec tr res" by blast
  from assms(3) Inr obtain rec2 where "retry_loop (run_attempt L E (untracked c)) E
      (cl_max_retries (call_client c)) (request_replay_safe (call_method c) (call_options c))
      cands 0 0 rec2 = (tr', res')"
    by (auto simp: execute_def Let_def)
  from loop_blind [OF assms(1) run this] show ?thesis .
qed

theorem execute_telemetry_transparent_witness:
  "sleeps (fst (execute example_libs example_env example_call)) =
   sleeps (fst (execute example_libs example_env (untracked example_call)))"
proof -
  have same: "set_slot [] (rq_headers rq) = set_slot [] (rq_headers rq')"
    if "strip_slot rq = strip_slot rq'" for rq rq' :: "(plain_url, unit) request"
    using arg_cong [OF that, of rq_headers] by (simp add: strip_slot_def)
  have "telemetry_blind example_env"
    by (simp add: telemetry_blind_def example_env_def) (blast intro: same)
  from execute_telemetry_transparent [OF this
      prod.collapse [symmetric, of "execute example_libs example_env example_call"]
      prod.collapse [symmetric, of "execute example_libs example_env (untracked example_call)"]]
  show ?thesis by (rule conjunct2 [THEN conjunct1])
qed

text \<open>Without a recorder the telemetry slot stays empty.\<close>

lemma run_attempt_None:
  assumes "run_attempt L E c k u None = (tr, v, rec')"
  shows "rec' = None \<and> (\<forall>rq \<in> set (sends tr). rq_headers rq ''x-tr-client'' = [])"
  using assms
  by (auto simp: run_attempt_def send_once_def Let_def finish_call_def enforce_slot telemetry_slot_def
      split: sum.splits if_splits prod.splits)

lemma loop_untracked:
  "loop_run (run_attempt L E c) E m safe cands k i rec tr res \<Longrightarrow> rec = None \<Longrightarrow>
     \<forall>rq \<in> set (sends tr). rq_headers rq ''x-tr-client'' = []"
proof (induction rule: loop_run.induct)
  case (retry k i rec tr d rec' j moved rest res)
  with run_attempt_None [of L E c k "cands ! i" tr] show ?case by (auto split: if_splits)
qed (use run_attempt_None in force)+

text \<open>The call a credential-free one is carried out as, and where its requests go.\<close>

abbreviation stripped :: "('u, 'c) call \<Rightarrow> ('u, 'c) call" where
  "stripped c \<equiv> c\<lparr>call_client := credential_free_clone (call_client c),
     call_options := credential_free_options (call_options c), call_streaming := False\<rparr>"

lemma credential_free_plane_urls [simp]:
  "plane_urls U (credential_free_clone cl) plane path = plane_urls U cl plane path"
  by (cases plane) (simp_all add: plane_urls_def relative_url_def credential_free_clone_def cong: if_cong)

lemma credential_free_execute:
  assumes "credential_free_plane_bytes L E c = (tr, res)"
  obtains tr0 res0 where "execute L E (stripped c) = (tr0, res0)" and "sends tr = sends tr0"
  using assms that
  by (cases "execute L E (stripped c)")
    (auto simp: credential_free_plane_bytes_def request_bytes_def split: sum.splits)

lemma credential_free_sent:
  assumes H: "http_api_ok (lib_http L)" "build_keeps E"
    and run: "credential_free_plane_bytes L E c = (tr, res)"
    and ne: "call_plane c = Inference \<Longrightarrow> cl_api_base_urls (call_client c) \<noteq> []"
    and rq: "rq \<in> set (sends tr)"
  obtains cands u where
    "plane_urls (lib_url L) (call_client c) (call_plane c) (call_path c) = Inr cands" and "u \<in> set cands"
    and "sent_by L E (stripped c) u rq"
    and "\<forall>n. credential_header n \<longrightarrow> rq_headers rq n = (if n = ''idempotency-key''
      then the_list (opt_filter (\<lambda>k. k \<noteq> []) (co_idempotency_key (call_options c))) else [])"
proof -
  let ?c = "stripped c"
  obtain tr0 res0 where ex: "execute L E ?c = (tr0, res0)" and "sends tr = sends tr0"
    by (rule credential_free_execute [OF run])
  with rq have rq0: "rq \<in> set (sends tr0)" by simp
  have ne': "cl_api_base_urls (call_client ?c) \<noteq> []" if "call_plane ?c = Inference"
    using ne that by (simp add: credential_free_clone_def)
  from execute_sent [OF ex rq0 ne'] obtain cands u where
    cands: "plane_urls (lib_url L) (call_client ?c) (call_plane ?c) (call_path ?c) = Inr cands"
    and u: "u \<in> set cands" and s: "sent_by L E ?c u rq" by metis
  have run0: "loop_run (run_attempt L E ?c) E (cl_max_retries (call_client ?c))
      (request_replay_safe (call_method ?c) (call_options ?c)) cands 0 0 None tr0 res0"
    using ex cands
    by (intro loop_runs) (simp add: execute_def request_recorder_for_def credential_free_clone_def)
  from sent_by_headers [OF s H] obtain hs where
    h: "request_headers (lib_http L) (lib_build L) (call_client ?c) (call_options ?c) None = Inr hs"
    and eq: "\<And>m. m \<noteq> ''x-tr-client'' \<Longrightarrow> m \<noteq> ''content-type'' \<Longrightarrow> rq_headers rq m = hs m" by blast
  have slot: "rq_headers rq ''x-tr-client'' = []" using loop_untracked [OF run0 refl] rq0 by blast
  have "rq_headers rq n = (if n = ''idempotency-key''
      then the_list (opt_filter (\<lambda>k. k \<noteq> []) (co_idempotency_key (call_options c))) else [])"
    if "credential_header n" for n
  proof -
    have "n \<noteq> ''content-type''" using that by (rule contrapos_pn) (simp, code_simp)
    with eq slot credential_free_headers [OF H(1) h [simplified] that] show ?thesis
      by (cases "n = ''x-tr-client''") (auto simp: the_list_def split: option.splits)
  qed
  moreover have "plane_urls (lib_url L) (call_client c) (call_plane c) (call_path c) = Inr cands"
    using cands by simp
  ultimately show thesis by (intro that [OF _ u s]) auto
qed



lemma answered_not_failover:
  assumes answered: "\<And>k rq. \<exists>r. with_deadline (call_deadline (call_client c) (call_options c)) (ne_send E k rq) = Inr r \<and>
      resp_status r \<notin> {502, 503, 504}"
    and built: "\<And>k rq. is_ok (ne_build E k rq)"
    and att: "run_attempt L E c k u rec = (tr, AvFailed d, rec')" and "disp_retry d"
  shows "\<not> disp_failover d"
proof -
  let ?rec = "map_option (begin_attempt (lib_url L) (ne_begin E k) u) rec"
  obtain t s x where once: "send_once L E c k u ?rec = (t, s, x)"
    by (cases "send_once L E c k u ?rec")
  show ?thesis
  proof (cases s)
    case (Inl e)
    have nb: "ne_build E k rq \<noteq> Inl x" for rq x using built [of k rq] by auto
    have ns: "with_deadline (call_deadline (call_client c) (call_options c)) (ne_send E k rq) \<noteq> Inl x" for rq x
      using answered [of k rq] by auto
    from once Inl nb ns have
      "request_headers (lib_http L) (lib_build L) (call_client c) (call_options c) ?rec = Inl e"
      by (auto simp: send_once_def Let_def send_raw_def split: sum.splits)
    moreover have "\<not> retryable_transport e"
      if "request_headers (lib_http L) (lib_build L) (call_client c) (call_options c) ?rec = Inl e"
      using that by (rule request_headers_error)
    ultimately have "\<not> disp_retry (from_transport e)" by simp
    moreover have "d = from_transport e" using att once Inl by (auto simp: run_attempt_def)
    ultimately show ?thesis using assms(4) by simp
  next
    case (Inr r)
    with once obtain rq where
      "with_deadline (call_deadline (call_client c) (call_options c)) (ne_send E k rq) = Inr r"
      by (auto simp: send_once_def Let_def send_raw_def split: sum.splits)
    with answered [of k rq] have "resp_status r \<notin> {502, 503, 504}" by auto
    moreover have "\<exists>p. d = from_http (lib_http L) (ne_wall E k) (resp_status r) (resp_headers r) p"
      using att once Inr by (auto simp: run_attempt_def Let_def split: if_splits sum.splits prod.splits)
    ultimately show ?thesis by (auto simp: failoverable_status_def split: if_splits)
  qed
qed

text \<open>Staying put. When every attempt is answered in time with a status other than 502, 503 and
  504 (in particular with 429 or 500), every request of the call goes to the first candidate, however
  many retries the policy makes.\<close>

theorem execute_stays_put:
  assumes "\<And>k rq. is_ok (ne_build E k rq)"
    and "\<And>k rq. \<exists>r. with_deadline (call_deadline (call_client c) (call_options c)) (ne_send E k rq) = Inr r \<and>
      resp_status r \<notin> {502, 503, 504}"
    and "execute L E c = (tr, res)"
    and "plane_urls (lib_url L) (call_client c) (call_plane c) (call_path c) = Inr cands"
  shows "\<forall>rq \<in> set (sends tr). rq_url rq = cands ! 0"
proof -
  from execute_loop [OF assms(3,4)] obtain rec where run: "loop_run (run_attempt L E c) E
      (cl_max_retries (call_client c)) (request_replay_safe (call_method c) (call_options c))
      cands 0 0 rec tr res" by blast
  from engine.loop_stays [OF run answered_not_failover [OF assms(2,1)]]
  show ?thesis by (auto simp: list_all_iff sent_by_def)
qed

definition busy_env :: "(plain_url, unit) net_env" where
  "busy_env = example_env\<lparr>ne_send := (\<lambda>k rq. \<lparr>completes_after = 1,
     outcome = Inr (ok_response\<lparr>resp_status := 500\<rparr>)\<rparr>)\<rparr>"

theorem execute_stays_put_witness:
  "length (sends (fst (execute example_libs busy_env example_call))) = 3 \<and>
   list_all (\<lambda>rq. rq_url rq = (cl_api_base_url example_client)\<lparr>pu_path := ''/v1/chat/completions''\<rparr>)
     (sends (fst (execute example_libs busy_env example_call)))"
proof -
  let ?cands = "map (\<lambda>b. b\<lparr>pu_path := ''/v1/chat/completions''\<rparr>) (cl_api_base_urls example_client)"
  have "plane_urls (lib_url example_libs) (call_client example_call) (call_plane example_call)
      (call_path example_call) = Inr ?cands"
    by code_simp
  moreover have "is_ok (ne_build busy_env k rq)" for k rq
    by (simp add: busy_env_def example_env_def)
  moreover have "\<exists>r. with_deadline (call_deadline (call_client example_call) (call_options example_call))
      (ne_send busy_env k rq) = Inr r \<and> resp_status r \<notin> {502, 503, 504}" for k rq
    by (simp add: busy_env_def with_deadline_def call_deadline_def example_call_def
        default_call_options_def example_client_def Let_def)
  ultimately have "\<forall>rq \<in> set (sends (fst (execute example_libs busy_env example_call))). rq_url rq = ?cands ! 0"
    by (intro execute_stays_put [OF _ _
          prod.collapse [symmetric, of "execute example_libs busy_env example_call"]])
  moreover have "?cands ! 0 = (cl_api_base_url example_client)\<lparr>pu_path := ''/v1/chat/completions''\<rparr>"
    by code_simp
  moreover have "length (sends (fst (execute example_libs busy_env example_call))) = 3"
    by code_simp
  ultimately show ?thesis by (simp add: list_all_iff)
qed

end
