(* ===== verification/TR_Sse.thy ===== *)
theory TR_Sse
  imports TR_Engine
begin

text \<open>
  Server-sent event streams (\<open>sse.rs\<close>): the JSON gate of an event, the four protocol validators
  (typed and raw, chat and responses), the choice of the validator for a raw stream, and the
  interplay of a polled stream with its recorder. A stream is modelled as its generator: each poll
  by the consumer runs it to the next item, and dropping it releases its recorder. The frame
  decoder (the \<open>eventsource_stream\<close> crate) supplies the items, each with the time at which it
  arrives; \<open>serde_json::from_str\<close> is the parameter \<open>J\<close>.
\<close>

section \<open>Events\<close>

record sse_event =
  sse_name :: "string option"
  sse_data :: string
  sse_id :: "string option"

record response_event =
  re_event :: string
  re_data :: json

text \<open>What the frame decoder can fail with: the two wire errors of the SDK, or a framing error of
  its own, with its text.\<close>

datatype wire_error =
    WireTransport reqwest_error
  | WireIdleTimeout
  | WireFraming string

type_synonym wire_item = "nat \<times> (wire_error + sse_event)"

definition json_status :: "json \<Rightarrow> nat option" where
  "json_status v = opt_filter (\<lambda>s. 100 \<le> s \<and> s \<le> 599) (opt_filter (\<lambda>s. s \<le> 65535) (as_u64 v))"

definition parse_json_event :: "(string \<Rightarrow> string + json) \<Rightarrow> string \<Rightarrow> error + json" where
  "parse_json_event J data =
     and_then (map_err (\<lambda>e. ErrSerialization (''invalid SSE JSON: '' @ e)) (J data)) (\<lambda>v.
     if \<not> is_object v then Inl (ErrSerialization ''SSE event must be an object'')
     else if is_some_and (\<lambda>k. \<not> is_string k) (jget ''type'' v)
     then Inl (ErrSerialization ''SSE type must be a string'')
     else
       (case jget ''error'' v of
          None \<Rightarrow> Inr v
        | Some e \<Rightarrow>
            if \<not> is_object e then Inl (ErrSerialization ''SSE error must be an object'')
            else
              and_then
                (case jget ''status'' e of
                   None \<Rightarrow> Inr 502
                 | Some s \<Rightarrow> ok_or (json_status s)
                     (ErrSerialization ''SSE error status must be an HTTP status integer''))
                (\<lambda>status. Inl (classify_api_error status (Some v) None))))"

definition text_delta :: "json \<Rightarrow> error + string option" where
  "text_delta v =
     (case jget ''choices'' v of
        None \<Rightarrow> Inr None
      | Some cs \<Rightarrow>
          and_then (ok_or (as_array cs) (ErrSerialization ''choices must be an array'')) (\<lambda>choices.
          case choices of
            [] \<Rightarrow> Inr None
          | choice # _ \<Rightarrow>
              and_then (ok_or (as_object choice) (ErrSerialization ''choice must be an object'')) (\<lambda>c.
              case fmlookup c ''delta'' of
                None \<Rightarrow> Inr None
              | Some d \<Rightarrow>
                  and_then (ok_or (as_object d) (ErrSerialization ''delta must be an object'')) (\<lambda>delta.
                  case fmlookup delta ''content'' of
                    None \<Rightarrow> Inr None
                  | Some JNull \<Rightarrow> Inr None
                  | Some (JString text) \<Rightarrow> Inr (Some text)
                  | Some _ \<Rightarrow> Inl (ErrSerialization ''delta content must be a string or null'')))))"

section \<open>Protocol validators\<close>

text \<open>What a validator does with one event: yield and go on; yield the terminal event, completing the
  recorder before or after the yield; end silently; or yield an error and end.\<close>

datatype 'o verdict =
    Yield 'o
  | CompleteYield 'o
  | YieldComplete 'o
  | CompleteEnd
  | Fail error

definition is_done :: "sse_event \<Rightarrow> bool" where
  "is_done event \<longleftrightarrow> trim (sse_data event) = ''[DONE]''"

definition chat_step :: "(string \<Rightarrow> string + json) \<Rightarrow> sse_event \<Rightarrow> json verdict" where
  "chat_step J event =
     (if is_done event then CompleteEnd
      else (case parse_json_event J (sse_data event) of Inr v \<Rightarrow> Yield v | Inl e \<Rightarrow> Fail e))"

definition event_name :: "string option \<Rightarrow> json \<Rightarrow> string" where
  "event_name name v =
     unwrap_or ''message''
       (opt_or (opt_filter (\<lambda>n. n \<noteq> [] \<and> n \<noteq> ''message'') name) (jstr ''type'' v))"

definition is_terminal :: "string \<Rightarrow> bool" where
  "is_terminal name \<longleftrightarrow>
     name \<in> set [''response.completed'', ''response.failed'', ''response.incomplete'', ''error'']"

definition responses_step :: "(string \<Rightarrow> string + json) \<Rightarrow> sse_event \<Rightarrow> response_event verdict" where
  "responses_step J event =
     (if is_done event then CompleteEnd
      else
        (case parse_json_event J (sse_data event) of
           Inl e \<Rightarrow> Fail e
         | Inr v \<Rightarrow>
             (let name = event_name (sse_name event) v; out = \<lparr>re_event = name, re_data = v\<rparr>
              in if is_terminal name then YieldComplete out else Yield out)))"

definition raw_chat_step :: "(string \<Rightarrow> string + json) \<Rightarrow> sse_event \<Rightarrow> sse_event verdict" where
  "raw_chat_step J event =
     (if is_done event then CompleteYield event
      else (case parse_json_event J (sse_data event) of Inr _ \<Rightarrow> Yield event | Inl e \<Rightarrow> Fail e))"

definition raw_responses_step :: "(string \<Rightarrow> string + json) \<Rightarrow> sse_event \<Rightarrow> sse_event verdict" where
  "raw_responses_step J event =
     (if is_done event then CompleteYield event
      else
        (case parse_json_event J (sse_data event) of
           Inl e \<Rightarrow> Fail e
         | Inr v \<Rightarrow>
             if is_terminal (event_name (sse_name event) v) then YieldComplete event else Yield event))"

definition ended_before_done :: error where
  "ended_before_done = ErrTransport ''SSE stream ended before [DONE]''"

definition ended_before_terminal :: error where
  "ended_before_terminal = ErrTransport ''SSE stream ended before a terminal event''"

section \<open>The stream as a generator\<close>

definition sse_deadline_error :: error where
  "sse_deadline_error = ErrTimeout ''SSE stream idle deadline exceeded''"

definition wire_public_error :: "wire_error \<Rightarrow> error" where
  "wire_public_error w =
     (case w of
        WireIdleTimeout \<Rightarrow> sse_deadline_error
      | WireTransport e \<Rightarrow> map_reqwest_error (re_is_timeout e) (re_text e)
      | WireFraming text \<Rightarrow> ErrTransport (''invalid SSE stream: '' @ text))"

type_synonym handle = "stream_recorder option"

definition complete :: "nat \<Rightarrow> handle \<Rightarrow> handle \<times> emission option" where
  "complete now h =
     (case h of None \<Rightarrow> (None, None) | Some st \<Rightarrow> (let (st', e) = on_complete now st in (Some st', e)))"

definition wire_failed :: "nat \<Rightarrow> wire_error \<Rightarrow> handle \<Rightarrow> handle \<times> emission option" where
  "wire_failed now w h =
     (case h of
        None \<Rightarrow> (None, None)
      | Some st \<Rightarrow>
          (let (st', e) =
             (case w of
                WireIdleTimeout \<Rightarrow> on_wire_failure now EcReadTimeout True st
              | WireTransport x \<Rightarrow> on_wire_failure now (classify_transport_error x) (re_is_timeout x) st
              | WireFraming _ \<Rightarrow> on_complete now st)
           in (Some st', e)))"

text \<open>Dropping the last handle drops the recorder.\<close>

definition release :: "nat \<Rightarrow> handle \<Rightarrow> handle \<times> emission option" where
  "release now h =
     (case h of
        None \<Rightarrow> (None, None)
      | Some st \<Rightarrow> (let (r, e) = recorder_drop now (sr_recorder st) in (Some (st\<lparr>sr_recorder := r\<rparr>), e)))"

text \<open>Where a suspended generator resumes: reading the next frame, completing after a terminal event
  was yielded, returning after an error was yielded, or nothing left to do.\<close>

datatype phase = Reading "wire_item list" | Completing | Returning | Ended

record generator =
  gen_phase :: phase
  gen_handle :: handle

definition open_generator :: "wire_item list \<Rightarrow> handle \<Rightarrow> generator" where
  "open_generator items h = \<lparr>gen_phase = Reading items, gen_handle = h\<rparr>"

text \<open>One poll at time \<open>now\<close>: the item it yields (\<open>None\<close> at the end of the stream), the new state,
  and what the recorder reported meanwhile.\<close>

definition poll ::
    "(sse_event \<Rightarrow> 'o verdict) \<Rightarrow> error \<Rightarrow> nat \<Rightarrow> generator \<Rightarrow>
     (error + 'o) option \<times> generator \<times> emission option" where
  "poll step unterminated now g =
     (case gen_phase g of
        Ended \<Rightarrow> (None, g, None)
      | Completing \<Rightarrow>
          (let (h, e) = complete now (gen_handle g) in (None, \<lparr>gen_phase = Ended, gen_handle = h\<rparr>, e))
      | Returning \<Rightarrow>
          (let (h, e) = release now (gen_handle g) in (None, \<lparr>gen_phase = Ended, gen_handle = h\<rparr>, e))
      | Reading [] \<Rightarrow>
          (let (h, e) = complete now (gen_handle g)
           in (Some (Inl unterminated), \<lparr>gen_phase = Returning, gen_handle = h\<rparr>, e))
      | Reading ((t, Inl w) # items) \<Rightarrow>
          (let (h, e) = wire_failed t w (gen_handle g)
           in (Some (Inl (wire_public_error w)), \<lparr>gen_phase = Returning, gen_handle = h\<rparr>, e))
      | Reading ((t, Inr event) # items) \<Rightarrow>
          (let h = map_option (on_event t) (gen_handle g)
           in case step event of
                Yield v \<Rightarrow> (Some (Inr v), \<lparr>gen_phase = Reading items, gen_handle = h\<rparr>, None)
              | CompleteYield v \<Rightarrow>
                  (let (h, e) = complete t h in (Some (Inr v), \<lparr>gen_phase = Returning, gen_handle = h\<rparr>, e))
              | YieldComplete v \<Rightarrow> (Some (Inr v), \<lparr>gen_phase = Completing, gen_handle = h\<rparr>, None)
              | CompleteEnd \<Rightarrow>
                  (let (h, e) = complete t h in (None, \<lparr>gen_phase = Ended, gen_handle = h\<rparr>, e))
              | Fail x \<Rightarrow> (Some (Inl x), \<lparr>gen_phase = Returning, gen_handle = h\<rparr>, None)))"

definition drop_generator :: "nat \<Rightarrow> generator \<Rightarrow> generator \<times> emission option" where
  "drop_generator now g =
     (let (h, e) = release now (gen_handle g) in (\<lparr>gen_phase = Ended, gen_handle = h\<rparr>, e))"

text \<open>The items a consumer sees that polls until the end.\<close>

fun drain :: "(sse_event \<Rightarrow> 'o verdict) \<Rightarrow> error \<Rightarrow> wire_item list \<Rightarrow> (error + 'o) list" where
  "drain step unterminated [] = [Inl unterminated]"
| "drain step unterminated ((t, Inl w) # items) = [Inl (wire_public_error w)]"
| "drain step unterminated ((t, Inr event) # items) =
     (case step event of
        Yield v \<Rightarrow> Inr v # drain step unterminated items
      | CompleteYield v \<Rightarrow> [Inr v]
      | YieldComplete v \<Rightarrow> [Inr v]
      | CompleteEnd \<Rightarrow> []
      | Fail x \<Rightarrow> [Inl x])"

definition validate_chat_stream :: "(string \<Rightarrow> string + json) \<Rightarrow> nat \<Rightarrow> generator \<Rightarrow> (error + json) option \<times> generator \<times> emission option" where
  "validate_chat_stream J = poll (chat_step J) ended_before_done"

definition validate_responses_stream :: "(string \<Rightarrow> string + json) \<Rightarrow> nat \<Rightarrow> generator \<Rightarrow> (error + response_event) option \<times> generator \<times> emission option" where
  "validate_responses_stream J = poll (responses_step J) ended_before_terminal"

definition validate_raw_chat_stream :: "(string \<Rightarrow> string + json) \<Rightarrow> nat \<Rightarrow> generator \<Rightarrow> (error + sse_event) option \<times> generator \<times> emission option" where
  "validate_raw_chat_stream J = poll (raw_chat_step J) ended_before_done"

definition validate_raw_responses_stream :: "(string \<Rightarrow> string + json) \<Rightarrow> nat \<Rightarrow> generator \<Rightarrow> (error + sse_event) option \<times> generator \<times> emission option" where
  "validate_raw_responses_stream J = poll (raw_responses_step J) ended_before_terminal"

section \<open>Which validator a raw stream gets\<close>

datatype prompt_kind = ChatStream | ResponsesStream

definition prompt_stream_kind :: "string \<Rightarrow> prompt_kind option" where
  "prompt_stream_kind route =
     (if route = ''/chat/completions'' then Some ChatStream
      else if route = ''/responses'' then Some ResponsesStream
      else None)"

definition response_prompt_stream_kind ::
    "'u url_api \<Rightarrow> ('u, 'c) client \<Rightarrow> 'u \<Rightarrow> prompt_kind option" where
  "response_prompt_stream_kind U cl response_url =
     opt_or
       (Option.bind
         (find (\<lambda>route. prompt_stream_kind route \<noteq> None)
           (List.map_filter (\<lambda>base. semantic_route_relative_to_base U base response_url)
             (cl_api_base_urls cl)))
         prompt_stream_kind)
       (prompt_stream_kind (semantic_route (url_path U response_url)))"

text \<open>The kind \<open>validated_raw_sse\<close> validates as: decided by the intended route before sending, and by
  the URL of the actual response only when the intended route is not a prompt route.\<close>

definition validated_kind ::
    "'u url_api \<Rightarrow> ('u, 'c) client \<Rightarrow> string \<Rightarrow> 'u \<Rightarrow> prompt_kind option" where
  "validated_kind U cl path response_url =
     opt_or (prompt_stream_kind (semantic_request_route U path))
       (response_prompt_stream_kind U cl response_url)"

section \<open>Request bodies\<close>

text \<open>\<open>with_stream\<close> (\<open>types.rs\<close>) on the serialised request, and the options entry the chat stream adds.\<close>

definition with_stream :: "json \<Rightarrow> bool \<Rightarrow> error + json" where
  "with_stream request stream =
     (case request of
        JObject m \<Rightarrow> Inr (JObject (fmupd ''stream'' (JBool stream) m))
      | _ \<Rightarrow> Inl (ErrSerialization ''request is not a JSON object''))"

definition chat_stream_body :: "json \<Rightarrow> error + json" where
  "chat_stream_body request =
     and_then (with_stream request True) (\<lambda>body.
       Inr (case body of
          JObject m \<Rightarrow>
            (case fmlookup m ''stream_options'' of
               None \<Rightarrow> JObject (fmupd ''stream_options'' (obj [(''include_usage'', JBool True)]) m)
             | Some _ \<Rightarrow> body)
        | _ \<Rightarrow> body))"

section \<open>What a consumer sees\<close>

fun polls ::
    "(sse_event \<Rightarrow> 'o verdict) \<Rightarrow> error \<Rightarrow> nat list \<Rightarrow> generator \<Rightarrow> (error + 'o) list" where
  "polls step u [] g = []"
| "polls step u (now # clock) g =
     (case poll step u now g of
        (None, g', _) \<Rightarrow> []
      | (Some x, g', _) \<Rightarrow> x # polls step u clock g')"

lemma polls_settled:
  "gen_phase g \<in> {Completing, Returning, Ended} \<Longrightarrow> polls step u clock g = []"
  by (cases clock) (auto simp: poll_def split: prod.splits)

lemma polls_drain:
  "length items < length clock \<Longrightarrow>
     polls step u clock \<lparr>gen_phase = Reading items, gen_handle = h\<rparr> = drain step u items"
proof (induction step u items arbitrary: clock h rule: drain.induct)
  case (1 step u)
  then show ?case
    by (cases clock) (auto simp: poll_def polls_settled split: prod.splits)
next
  case (2 step u t w items)
  then show ?case
    by (cases clock) (auto simp: poll_def polls_settled split: prod.splits)
next
  case (3 step u t event items)
  obtain now ts where clock: "clock = now # ts" using 3 by (cases clock) auto
  show ?case
  proof (cases "step event")
    case (Yield v)
    with 3 clock show ?thesis by (simp add: poll_def)
  qed (use 3 clock in \<open>auto simp: poll_def polls_settled split: prod.splits\<close>)
qed

definition errors_of :: "(error + 'o) list \<Rightarrow> error list" where
  "errors_of xs = List.map_filter (\<lambda>x. case x of Inl e \<Rightarrow> Some e | Inr _ \<Rightarrow> None) xs"

definition values_of :: "(error + 'o) list \<Rightarrow> 'o list" where
  "values_of xs = List.map_filter (\<lambda>x. case x of Inl _ \<Rightarrow> None | Inr v \<Rightarrow> Some v) xs"

lemma errors_of_simps [simp]:
  "errors_of [] = []" "errors_of (Inl e # xs) = e # errors_of xs" "errors_of (Inr v # xs) = errors_of xs"
  by (simp_all add: errors_of_def List.map_filter_def)

lemma values_of_simps [simp]:
  "values_of [] = []" "values_of (Inl e # xs) = values_of xs" "values_of (Inr v # xs) = v # values_of xs"
  by (simp_all add: values_of_def List.map_filter_def)

text \<open>An error, if there is one, is the last item.\<close>

lemma drain_error_last:
  "errors_of (butlast (drain step u items)) = [] \<and> length (errors_of (drain step u items)) \<le> 1"
proof (induction step u items rule: drain.induct)
  case (3 step u t event items)
  then show ?case
  proof (cases "step event")
    case (Yield v)
    with 3 show ?thesis by (cases "drain step u items") auto
  qed auto
qed auto

fun ends :: "'o verdict \<Rightarrow> bool" where
  "ends (CompleteYield v) = True"
| "ends (YieldComplete v) = True"
| "ends CompleteEnd = True"
| "ends _ = False"

fun goes_on :: "'o verdict \<Rightarrow> bool" where
  "goes_on (Yield v) = True"
| "goes_on _ = False"

lemma drain_clean_iff:
  "errors_of (drain step u items) = [] \<longleftrightarrow>
     (\<exists>pre t ev rest. items = pre @ (t, Inr ev) # rest \<and> ends (step ev) \<and>
        list_all (\<lambda>(_, i). case i of Inl _ \<Rightarrow> False | Inr e \<Rightarrow> goes_on (step e)) pre)"
    (is "_ \<longleftrightarrow> ?R items")
proof (induction step u items rule: drain.induct)
  case (3 step u t event items)
  show ?case
  proof (cases "step event")
    case (Yield v)
    have "(\<exists>pre t' ev rest. (t, Inr event) # items = pre @ (t', Inr ev) # rest \<and> ends (step ev) \<and>
        list_all (\<lambda>(_, i). case i of Inl _ \<Rightarrow> False | Inr e \<Rightarrow> goes_on (step e)) pre) \<longleftrightarrow>
      (\<exists>pre t ev rest. items = pre @ (t, Inr ev) # rest \<and> ends (step ev) \<and>
        list_all (\<lambda>(_, i). case i of Inl _ \<Rightarrow> False | Inr e \<Rightarrow> goes_on (step e)) pre)"
      (is "?A \<longleftrightarrow> ?B")
    proof
      assume ?A
      then obtain pre t' ev rest where eq: "(t, Inr event) # items = pre @ (t', Inr ev) # rest"
        and ev: "ends (step ev)"
        and pre: "list_all (\<lambda>(_, i). case i of Inl _ \<Rightarrow> False | Inr e \<Rightarrow> goes_on (step e)) pre" by blast
      from eq ev Yield obtain pre' where "pre = (t, Inr event) # pre'" by (cases pre) auto
      with eq ev pre show ?B by auto
    next
      assume ?B
      then obtain pre t' ev rest where "items = pre @ (t', Inr ev) # rest" "ends (step ev)"
        "list_all (\<lambda>(_, i). case i of Inl _ \<Rightarrow> False | Inr e \<Rightarrow> goes_on (step e)) pre" by blast
      with Yield have "(t, Inr event) # items = ((t, Inr event) # pre) @ (t', Inr ev) # rest"
        "ends (step ev)"
        "list_all (\<lambda>(_, i). case i of Inl _ \<Rightarrow> False | Inr e \<Rightarrow> goes_on (step e)) ((t, Inr event) # pre)"
        by auto
      then show ?A by blast
    qed
    with 3 Yield show ?thesis by simp
  next
    case (Fail x)
    then show ?thesis by (auto simp: Cons_eq_append_conv)
  qed (auto intro: exI [of _ "[]"])
qed (auto simp: Cons_eq_append_conv)

section \<open>Raw and typed validators\<close>

text \<open>The contract between a raw validator and its typed counterpart: on every event they fail alike,
  go on alike and end alike, the raw one passing the event itself through.\<close>

locale raw_typed =
  fixes raw :: "sse_event \<Rightarrow> sse_event verdict"
    and typed :: "sse_event \<Rightarrow> 'o verdict"
  assumes agree: "raw ev = (case typed ev of
      Yield v \<Rightarrow> Yield ev
    | CompleteYield v \<Rightarrow> CompleteYield ev
    | YieldComplete v \<Rightarrow> YieldComplete ev
    | CompleteEnd \<Rightarrow> CompleteYield ev
    | Fail e \<Rightarrow> Fail e)"
begin

lemma drain_agree:
  "errors_of (drain raw u items) = errors_of (drain typed u items) \<and>
   values_of (drain typed u items) =
     List.map_filter (\<lambda>ev. case typed ev of Yield v \<Rightarrow> Some v | CompleteYield v \<Rightarrow> Some v
       | YieldComplete v \<Rightarrow> Some v | CompleteEnd \<Rightarrow> None | Fail e \<Rightarrow> None)
       (values_of (drain raw u items))"
proof (induction items)
  case (Cons x items)
  obtain t i where x: "x = (t, i)" by (cases x)
  show ?case
  proof (cases i)
    case (Inr event)
    with x Cons show ?thesis
      using agree [of event] by (cases "typed event") (auto simp: List.map_filter_def)
  qed (simp add: x List.map_filter_def)
qed (simp add: List.map_filter_def)

end

interpretation chat: raw_typed "raw_chat_step J" "chat_step J" for J :: "string \<Rightarrow> string + json"
  by unfold_locales (auto simp: raw_chat_step_def chat_step_def split: sum.splits)

interpretation responses: raw_typed "raw_responses_step J" "responses_step J"
  for J :: "string \<Rightarrow> string + json"
  by unfold_locales (auto simp: raw_responses_step_def responses_step_def Let_def split: sum.splits)

section \<open>Recording a stream\<close>

datatype gen_op = PollAt nat | DropAt nat

definition gen_step ::
    "(sse_event \<Rightarrow> 'o verdict) \<Rightarrow> error \<Rightarrow> gen_op \<Rightarrow> generator \<Rightarrow> generator \<times> emission option" where
  "gen_step step u a g =
     (case a of PollAt now \<Rightarrow> snd (poll step u now g) | DropAt now \<Rightarrow> drop_generator now g)"

definition handle_finished :: "handle \<Rightarrow> bool" where
  "handle_finished h = (case h of None \<Rightarrow> True | Some st \<Rightarrow> rr_finished (sr_recorder st))"

lemma complete_finished:
  "handle_finished (fst (complete now h)) \<and> (handle_finished h \<longrightarrow> snd (complete now h) = None)"
  by (auto simp: complete_def handle_finished_def on_complete_def finish_def Let_def
      split: option.splits prod.splits if_splits)

lemma release_finished:
  "handle_finished (fst (release now h)) \<and> (handle_finished h \<longrightarrow> snd (release now h) = None)"
proof (cases h)
  case (Some st)
  have "rr_finished (fst (recorder_drop now (sr_recorder st)))"
    by (simp add: recorder_drop_def)
  with Some show ?thesis
    by (auto simp: release_def handle_finished_def recorder_drop_def case_prod_beta Let_def)
qed (simp add: release_def handle_finished_def)

lemma wire_failed_finished:
  "handle_finished (fst (wire_failed now w h)) \<and> (handle_finished h \<longrightarrow> snd (wire_failed now w h) = None)"
proof (cases h)
  case (Some st)
  have silent: "rr_finished r \<Longrightarrow> finish now b r = (r, None)" for r b by (simp add: finish_def)
  have keep: "rr_finished (on_transport_error now c t o' b r) = rr_finished r" for c t o' b r
    by (auto simp: on_transport_error_def Let_def split: option.splits)
  have fin: "finish now b r = (r', e) \<Longrightarrow> rr_finished r'" for b r r' e
    using finish_finished [of now b r] by simp
  show ?thesis using Some
    by (cases w) (auto simp: wire_failed_def handle_finished_def on_wire_failure_def on_complete_def
        silent keep dest: fin split: prod.splits)
qed (simp add: wire_failed_def handle_finished_def)

lemma on_event_finished: "handle_finished (map_option (on_event now) h) = handle_finished h"
  by (cases h) (auto simp: handle_finished_def on_event_def on_first_event_def split: option.splits)

lemmas handle_facts = complete_finished release_finished wire_failed_finished on_event_finished

lemma gen_step_finished:
  "handle_finished (gen_handle g) \<Longrightarrow>
     handle_finished (gen_handle (fst (gen_step step u a g))) \<and> snd (gen_step step u a g) = None"
  using handle_facts
  by (cases a) (auto simp: gen_step_def poll_def drop_generator_def Let_def case_prod_beta
      split: phase.splits list.splits sum.splits verdict.splits)

lemma gen_step_emits:
  "snd (gen_step step u a g) = Some e \<Longrightarrow> handle_finished (gen_handle (fst (gen_step step u a g)))"
  using handle_facts
  by (cases a) (auto simp: gen_step_def poll_def drop_generator_def Let_def case_prod_beta
      split: phase.splits list.splits sum.splits verdict.splits)

interpretation stream_once: one_shot "gen_step step u" "\<lambda>g. handle_finished (gen_handle g)"
  for step :: "sse_event \<Rightarrow> 'o verdict" and u :: error
  by unfold_locales (use gen_step_finished gen_step_emits in blast)+

lemma drain_prefix:
  "list_all (\<lambda>(_, i). case i of Inl _ \<Rightarrow> False | Inr e \<Rightarrow> goes_on (step e)) pre \<Longrightarrow>
     \<exists>outs. drain step u (pre @ items) = map Inr outs @ drain step u items \<and>
       list_all2 (\<lambda>(_, i) v. \<exists>e. i = Inr e \<and> step e = Yield v) pre outs"
proof (induction pre)
  case (Cons x pre)
  obtain t i where x: "x = (t, i)" by (cases x)
  with Cons.prems obtain e where i: "i = Inr e" "goes_on (step e)" by (auto split: sum.splits)
  then obtain v where v: "step e = Yield v" by (cases "step e") auto
  from Cons obtain outs where "drain step u (pre @ items) = map Inr outs @ drain step u items"
    "list_all2 (\<lambda>(_, i) v. \<exists>e. i = Inr e \<and> step e = Yield v) pre outs" by auto
  with x i v show ?case by (intro exI [of _ "v # outs"]) simp
qed simp

section \<open>Properties\<close>


text \<open>Polling agrees with draining. However a consumer interleaves its polls in time, once it has
  polled more often than there are frames it has seen exactly the drained items; the recorder has no
  influence on them.\<close>

theorem polling_drains:
  assumes "length items < length clock"
  shows "polls step u clock (open_generator items h) = drain step u items"
  using polls_drain [OF assms] by (simp add: open_generator_def)

text \<open>A decoder that accepts only empty objects, and example frames.\<close>

definition example_decoder :: "string \<Rightarrow> string + json" where
  "example_decoder s = (if s = ''{}'' then Inr (obj []) else Inl ''expected value'')"

definition frame :: "string \<Rightarrow> sse_event" where
  "frame d = \<lparr>sse_name = None, sse_data = d, sse_id = None\<rparr>"

theorem polling_drains_witness:
  "polls (raw_chat_step example_decoder) ended_before_done [5, 6, 7]
     (open_generator [(1, Inr (frame ''{}'')), (2, Inr (frame ''[DONE]''))] None) =
   drain (raw_chat_step example_decoder) ended_before_done
     [(1, Inr (frame ''{}'')), (2, Inr (frame ''[DONE]''))]"
  using polling_drains [of "[(1, Inr (frame ''{}'')), (2, Inr (frame ''[DONE]''))]" "[5, 6, 7]"] by simp

text \<open>Raw validation is typed validation. On the same frames the raw validators report exactly the
  errors the typed ones report, and the typed values are the readings of the raw events, for chat
  and for responses streams.\<close>

theorem raw_typed_streams_agree:
  "errors_of (drain (raw_chat_step J) u items) = errors_of (drain (chat_step J) u items) \<and>
   errors_of (drain (raw_responses_step J) u items) = errors_of (drain (responses_step J) u items) \<and>
   values_of (drain (chat_step J) u items) =
     List.map_filter (\<lambda>ev. case chat_step J ev of Yield v \<Rightarrow> Some v | _ \<Rightarrow> None)
       (values_of (drain (raw_chat_step J) u items)) \<and>
   values_of (drain (responses_step J) u items) =
     List.map_filter (\<lambda>ev. case responses_step J ev of Yield v \<Rightarrow> Some v | YieldComplete v \<Rightarrow> Some v | _ \<Rightarrow> None)
       (values_of (drain (raw_responses_step J) u items))"
proof -
  have c: "(case chat_step J ev of Yield v \<Rightarrow> Some v | CompleteYield v \<Rightarrow> Some v
      | YieldComplete v \<Rightarrow> Some v | CompleteEnd \<Rightarrow> None | Fail e \<Rightarrow> None) =
    (case chat_step J ev of Yield v \<Rightarrow> Some v | _ \<Rightarrow> None)" for ev
    by (simp add: chat_step_def split: sum.splits)
  have r: "(case responses_step J ev of Yield v \<Rightarrow> Some v | CompleteYield v \<Rightarrow> Some v
      | YieldComplete v \<Rightarrow> Some v | CompleteEnd \<Rightarrow> None | Fail e \<Rightarrow> None) =
    (case responses_step J ev of Yield v \<Rightarrow> Some v | YieldComplete v \<Rightarrow> Some v | _ \<Rightarrow> None)" for ev
    by (simp add: responses_step_def Let_def split: sum.splits)
  show ?thesis
    using chat.drain_agree [of J u items] responses.drain_agree [of J u items] unfolding c r by simp
qed

text \<open>C35: Validation survives redirects. A raw stream opened on a prompt route is validated as that
  kind of stream, whatever URL the response finally came from; and a response from a prompt route
  of any configured base is validated even when the opened route was not one.\<close>

theorem validation_not_downgraded:
  "(prompt_stream_kind (semantic_request_route U path) = Some k \<longrightarrow>
      validated_kind U cl path response_url = Some k) \<and>
   (base \<in> set (cl_api_base_urls cl) \<and>
    semantic_route_relative_to_base U base response_url = Some route \<and> prompt_stream_kind route \<noteq> None \<longrightarrow>
      validated_kind U cl path response_url \<noteq> None)"
proof (intro conjI impI)
  assume a: "base \<in> set (cl_api_base_urls cl) \<and>
    semantic_route_relative_to_base U base response_url = Some route \<and> prompt_stream_kind route \<noteq> None"
  let ?routes = "List.map_filter (\<lambda>base. semantic_route_relative_to_base U base response_url) (cl_api_base_urls cl)"
  from a have "route \<in> set ?routes" by (force simp: List.map_filter_def)
  with a have "find (\<lambda>route. prompt_stream_kind route \<noteq> None) ?routes \<noteq> None"
    unfolding find_None_iff by blast
  then obtain r where r: "find (\<lambda>route. prompt_stream_kind route \<noteq> None) ?routes = Some r" by blast
  then have "prompt_stream_kind r \<noteq> None" unfolding find_Some_iff by blast
  with r show "validated_kind U cl path response_url \<noteq> None"
    by (auto simp: validated_kind_def response_prompt_stream_kind_def)
qed (simp add: validated_kind_def)

theorem validation_not_downgraded_witness:
  "validated_kind plain_urls example_client ''/CHAT//completions'' base_url_example = Some ChatStream \<and>
   validated_kind plain_urls example_client ''/custom''
     (base_url_example\<lparr>pu_path := ''/v1/responses''\<rparr>) \<noteq> None"
proof -
  have "prompt_stream_kind (semantic_request_route plain_urls ''/CHAT//completions'') = Some ChatStream"
    "base_url_example \<in> set (cl_api_base_urls example_client)"
    "semantic_route_relative_to_base plain_urls base_url_example
       (base_url_example\<lparr>pu_path := ''/v1/responses''\<rparr>) = Some ''/responses''"
    "prompt_stream_kind ''/responses'' \<noteq> None"
    by code_simp+
  with validation_not_downgraded [of plain_urls "''/CHAT//completions''" ChatStream example_client
      base_url_example base_url_example "[]"]
    validation_not_downgraded [of plain_urls "''/custom''" ChatStream example_client
      "base_url_example\<lparr>pu_path := ''/v1/responses''\<rparr>" base_url_example "''/responses''"]
  show ?thesis by blast
qed

text \<open>C36: A stream is reported at most once, over any sequence of polls and drops of its generator, for
  every validator.\<close>

theorem stream_reports_once:
  "length (snd (run_steps (gen_step step u) ops g)) \<le> 1"
  by (rule stream_once.at_most_once)

text \<open>C40: A protocol error in a stream is reported as an abort. When a frame of a recorded stream is
  not acceptable JSON, the consumer is given the error, nothing is reported at that moment, and both
  ways to go on, polling again or dropping the stream, report the call with the final outcome
  aborted: the outcome of the response that opened the stream is not kept.\<close>

theorem protocol_error_reported_aborted:
  assumes "rec_inv (sr_recorder st)" and "in_flight (sr_recorder st) \<noteq> None"
    and "\<not> rr_finished (sr_recorder st)" and "rr_recordable (sr_recorder st)"
    and "\<not> is_done ev" and "parse_json_event J (sse_data ev) = Inl err"
    and "validate_chat_stream J now (open_generator ((t, Inr ev) # items) (Some st)) = (out, g, rep)"
  shows "out = Some (Inl err) \<and> rep = None \<and>
    (\<exists>event counters. snd (drop_generator later g) = Some (event, counters) \<and>
       ev_final_outcome event = FinalOutcome OutAborted) \<and>
    (\<exists>event counters. snd (snd (validate_chat_stream J later g)) = Some (event, counters) \<and>
       ev_final_outcome event = FinalOutcome OutAborted)"
proof -
  have step: "chat_step J ev = Fail err" using assms(5,6) by (simp add: chat_step_def)
  with assms(7) have out: "out = Some (Inl err)" "rep = None"
    "g = \<lparr>gen_phase = Returning, gen_handle = Some (on_event t st)\<rparr>"
    by (simp_all add: validate_chat_stream_def poll_def open_generator_def)
  let ?r = "sr_recorder (on_event t st)"
  have "rec_inv ?r" "in_flight ?r \<noteq> None" "\<not> rr_finished ?r" "rr_recordable ?r"
    using assms(1-4) rec_inv_first_event [OF assms(1), of t]
    by (auto simp: on_event_def on_first_event_def in_flight_def split: option.splits)
  from recorder_drop_aborted [OF this, of later] obtain event counters where
    "snd (recorder_drop later ?r) = Some (event, counters)"
    "ev_final_outcome event = FinalOutcome OutAborted" by blast
  then have "snd (release later (Some (on_event t st))) = Some (event, counters)"
    by (simp add: release_def case_prod_beta)
  with out \<open>ev_final_outcome event = _\<close> show ?thesis
    by (auto simp: drop_generator_def validate_chat_stream_def poll_def case_prod_beta Let_def)
qed

definition open_example_stream :: stream_recorder where
  "open_example_stream = stream_recorder_new (fst (run_steps (recorder_step plain_urls plain_http)
     [RBegin 0 apex_url, RResponse 1 1 200 no_headers None] (recorder_new example_spec)))"

theorem protocol_error_reported_aborted_witness:
  "\<exists>event counters. snd (drop_generator 9 (fst (snd (validate_chat_stream example_decoder 2
       (open_generator [(2, Inr (frame ''oops''))] (Some open_example_stream)))))) = Some (event, counters) \<and>
     ev_final_outcome event = FinalOutcome OutAborted"
proof -
  have "rec_inv (sr_recorder open_example_stream)"
    unfolding open_example_stream_def stream_recorder_new_def stream_recorder.simps
    by (rule recorder_keeps.run_inv [OF rec_inv_new])
  moreover have "in_flight (sr_recorder open_example_stream) \<noteq> None"
    "\<not> rr_finished (sr_recorder open_example_stream)" "rr_recordable (sr_recorder open_example_stream)"
    "\<not> is_done (frame ''oops'')"
    "parse_json_event example_decoder (sse_data (frame ''oops'')) =
       Inl (ErrSerialization ''invalid SSE JSON: expected value'')"
    by code_simp+
  moreover obtain out g rep where run: "validate_chat_stream example_decoder 2
       (open_generator [(2, Inr (frame ''oops''))] (Some open_example_stream)) = (out, g, rep)"
    by (cases "validate_chat_stream example_decoder 2
       (open_generator [(2, Inr (frame ''oops''))] (Some open_example_stream))")
  ultimately show ?thesis
    using protocol_error_reported_aborted [OF _ _ _ _ _ _ run, of _ 9] run by simp
qed

text \<open>The JSON gate of an event. A frame passes exactly when it decodes to an object whose \<open>type\<close>,
  if any, is a string and which has no \<open>error\<close> member; a frame with an error object becomes an API
  error of its status, 502 by default, and never a status outside 100 to 599.\<close>

theorem parse_json_event_spec:
  "(parse_json_event J data = Inr v \<longleftrightarrow>
      J data = Inr v \<and> is_object v \<and> is_none_or is_string (jget ''type'' v) \<and> jget ''error'' v = None) \<and>
   (parse_json_event J data = Inl (ErrApi k e) \<longrightarrow>
      100 \<le> api_status_code e \<and> api_status_code e \<le> 599 \<and> k = kind_of_status (api_status_code e) \<and>
      (\<exists>w err. J data = Inr w \<and> jget ''error'' w = Some err \<and> api_payload e = Some w \<and>
         (jget ''status'' err = None \<longrightarrow> api_status_code e = 502)))"
proof
  show "parse_json_event J data = Inr v \<longleftrightarrow>
      J data = Inr v \<and> is_object v \<and> is_none_or is_string (jget ''type'' v) \<and> jget ''error'' v = None"
    by (cases "J data"; cases "jget ''type'' v")
      (auto simp: parse_json_event_def is_none_or_def result_simps split: option.splits if_splits)
  show "parse_json_event J data = Inl (ErrApi k e) \<longrightarrow>
      100 \<le> api_status_code e \<and> api_status_code e \<le> 599 \<and> k = kind_of_status (api_status_code e) \<and>
      (\<exists>w err. J data = Inr w \<and> jget ''error'' w = Some err \<and> api_payload e = Some w \<and>
         (jget ''status'' err = None \<longrightarrow> api_status_code e = 502))"
    by (cases "J data")
      (auto simp: parse_json_event_def and_then_Inl_iff ok_or_def json_status_def classify_api_error_def
        split: option.splits if_splits)
qed

theorem parse_json_event_spec_witness:
  "\<exists>k e. parse_json_event (\<lambda>_. Inr (obj [(''error'', obj [])])) ''x'' = Inl (ErrApi k e) \<and>
     100 \<le> api_status_code e \<and> api_status_code e \<le> 599"
proof -
  have "\<exists>k e. parse_json_event (\<lambda>_. Inr (obj [(''error'', obj [])])) ''x'' = Inl (ErrApi k e)"
    by (simp add: parse_json_event_def classify_api_error_def)
  with parse_json_event_spec [of "\<lambda>_. Inr (obj [(''error'', obj [])])" "''x''"] show ?thesis by blast
qed

end
