(* ===== verification/TR_Jws.thy ===== *)
theory TR_Jws
  imports TR_Types
begin

text \<open>
  The format layer of the receipt verifier (first and last part of \<open>receipts.rs\<close>): strict JSON, the
  base64url gate, the compact and flattened JWS envelopes, the protected header, the Ed25519
  signature and the canonical form of an issuer origin. JSON tokenising, base64, SHA-256, Ed25519 and
  URL parsing belong to other crates: they are the fields of \<open>receipt_libs\<close>, an argument of the
  definitions that call them. A JSON text is given as the tree its deserializer visits, in which an
  object is still a sequence of members.
\<close>

section \<open>Errors and libraries\<close>

datatype receipt_error =
    RStructure string
  | RHeader string
  | RSignature string
  | RClaims string
  | RMissingBinding string
  | RIssuer string
  | RTime string
  | RNonce string
  | RUpstream string
  | RHash string
  | RAttestation string
  | RMissingAttestation string
  | RUnsupportedAttestation string

text \<open>The \<open>Display\<close> texts.\<close>

fun receipt_error_text :: "receipt_error \<Rightarrow> string" where
  "receipt_error_text (RStructure m) = ''receipt structure verification failed: '' @ m"
| "receipt_error_text (RHeader m) = ''receipt header verification failed: '' @ m"
| "receipt_error_text (RSignature m) = ''receipt signature verification failed: '' @ m"
| "receipt_error_text (RClaims m) = ''receipt claims verification failed: '' @ m"
| "receipt_error_text (RMissingBinding m) = ''receipt binding verification failed: '' @ m"
| "receipt_error_text (RIssuer m) = ''receipt issuer verification failed: '' @ m"
| "receipt_error_text (RTime m) = ''receipt time verification failed: '' @ m"
| "receipt_error_text (RNonce m) = ''receipt nonce verification failed: '' @ m"
| "receipt_error_text (RUpstream m) = ''receipt upstream verification failed: '' @ m"
| "receipt_error_text (RHash m) = ''receipt hash verification failed: '' @ m"
| "receipt_error_text (RAttestation m) = ''receipt attestation verification failed: '' @ m"
| "receipt_error_text (RMissingAttestation m) = ''receipt attestation verification failed: '' @ m"
| "receipt_error_text (RUnsupportedAttestation m) = ''receipt attestation verification failed: '' @ m"

text \<open>What a JSON deserializer hands to a visitor.\<close>

datatype raw_json =
    RawNull
  | RawBool bool
  | RawI64 int
  | RawU64 nat
  | RawF64 rat
  | RawStr string
  | RawSeq "raw_json list"
  | RawMap "(string \<times> raw_json) list"

datatype url_host = HostDomain string | HostIpv4 string | HostIpv6 string

record url_view =
  uv_scheme :: string
  uv_host :: "url_host option"
  uv_username :: string
  uv_password :: "string option"
  uv_path :: string
  uv_query :: "string option"
  uv_fragment :: "string option"
  uv_port :: "nat option"

text \<open>\<open>rl_json\<close> is one JSON text up to its end; \<open>rl_show\<close> prints a value; \<open>rl_debug\<close> is the debug
  text of a string, which occurs in messages only.\<close>

record receipt_libs =
  rl_json :: "string \<Rightarrow> string + raw_json"
  rl_show :: "json \<Rightarrow> string"
  rl_debug :: "string \<Rightarrow> string"
  rl_sha256 :: "string \<Rightarrow> string"
  rl_b64_encode :: "string \<Rightarrow> string"
  rl_b64_decode :: "string \<Rightarrow> string option"
  rl_signature_from_slice :: "string \<Rightarrow> bool"
  rl_key_from_bytes :: "string \<Rightarrow> string + unit"
  rl_verify_strict :: "string \<Rightarrow> string \<Rightarrow> string \<Rightarrow> bool"
  rl_url_parse :: "string \<Rightarrow> url_view option"

section \<open>Strict JSON\<close>

text \<open>\<open>StrictValueVisitor\<close>: a tree becomes a value unless an object repeats a member. The members are
  visited in order; a repeated key fails before its value is read.\<close>

definition number_from_i64 :: "int \<Rightarrow> jnumber" where
  "number_from_i64 i = (if i < 0 then NegInt i else PosInt (nat i))"

fun strict_value :: "(string \<Rightarrow> string) \<Rightarrow> raw_json \<Rightarrow> string + json"
  and strict_seq :: "(string \<Rightarrow> string) \<Rightarrow> raw_json list \<Rightarrow> string + json list"
  and strict_map :: "(string \<Rightarrow> string) \<Rightarrow> string list \<Rightarrow> jobject \<Rightarrow> (string \<times> raw_json) list \<Rightarrow> string + jobject"
where
  "strict_value dbg RawNull = Inr JNull"
| "strict_value dbg (RawBool b) = Inr (JBool b)"
| "strict_value dbg (RawI64 i) = Inr (JNumber (number_from_i64 i))"
| "strict_value dbg (RawU64 n) = Inr (JNumber (PosInt n))"
| "strict_value dbg (RawF64 q) = Inr (JNumber (JFloat q))"
| "strict_value dbg (RawStr s) = Inr (JString s)"
| "strict_value dbg (RawSeq xs) = and_then (strict_seq dbg xs) (\<lambda>vs. Inr (JArray vs))"
| "strict_value dbg (RawMap ms) = and_then (strict_map dbg [] fmempty ms) (\<lambda>m. Inr (JObject m))"
| "strict_seq dbg [] = Inr []"
| "strict_seq dbg (x # xs) = and_then (strict_value dbg x) (\<lambda>v. and_then (strict_seq dbg xs) (\<lambda>vs. Inr (v # vs)))"
| "strict_map dbg seen vals [] = Inr vals"
| "strict_map dbg seen vals ((k, x) # ms) =
     (if k \<in> set seen then Inl (''duplicate JSON member '' @ dbg k)
      else and_then (strict_value dbg x) (\<lambda>v. strict_map dbg (k # seen) (fmupd k v vals) ms))"

definition load_json :: "receipt_libs \<Rightarrow> string \<Rightarrow> string \<Rightarrow> receipt_error + json" where
  "load_json L data check =
     map_err (\<lambda>e. RStructure (check @ '' check failed: invalid JSON: '' @ e))
       (and_then (rl_json L data) (strict_value (rl_debug L)))"

section \<open>Base64url and claims accessors\<close>

definition is_b64url :: "char \<Rightarrow> bool" where
  "is_b64url c \<longleftrightarrow> is_ascii_alphanumeric c \<or> c = CHR ''_'' \<or> c = CHR ''-''"

definition decode_b64 :: "receipt_libs \<Rightarrow> string \<Rightarrow> string \<Rightarrow> receipt_error + string" where
  "decode_b64 L v check =
     (let bad = RStructure (check @ '' check failed: invalid base64url encoding'')
      in if v = [] \<or> length v mod 4 = 1 \<or> \<not> list_all is_b64url v then Inl bad
         else ok_or (rl_b64_decode L v) bad)"

definition hash_bytes :: "receipt_libs \<Rightarrow> string \<Rightarrow> string \<Rightarrow> receipt_error + string" where
  "hash_bytes L v check = map_err (\<lambda>e. RHash (receipt_error_text e)) (decode_b64 L v check)"

definition safe_equal :: "string \<Rightarrow> string \<Rightarrow> bool" where
  "safe_equal l r \<longleftrightarrow> length l = length r \<and> l = r"

definition display_value :: "receipt_libs \<Rightarrow> json option \<Rightarrow> string" where
  "display_value L v = (case v of None \<Rightarrow> ''missing'' | Some v \<Rightarrow> rl_show L v)"

abbreviation field :: "jobject \<Rightarrow> string \<Rightarrow> json option" where
  "field m k \<equiv> fmlookup m k"

abbreviation field_str :: "jobject \<Rightarrow> string \<Rightarrow> string option" where
  "field_str m k \<equiv> Option.bind (fmlookup m k) as_str"

definition required_object :: "jobject \<Rightarrow> string \<Rightarrow> (string \<Rightarrow> receipt_error) \<Rightarrow> receipt_error + jobject" where
  "required_object m name err =
     ok_or (Option.bind (field m name) as_object)
       (err (name @ '' claim check failed: required object is missing or invalid''))"

definition required_string :: "jobject \<Rightarrow> string \<Rightarrow> string \<Rightarrow> receipt_error + string" where
  "required_string m name family =
     ok_or (opt_filter (\<lambda>v. v \<noteq> []) (field_str m name))
       (RClaims (family @ '' '' @ name @ '' check failed: required string is missing or empty''))"

definition optional_string :: "jobject \<Rightarrow> string \<Rightarrow> string \<Rightarrow> receipt_error + string option" where
  "optional_string m name family =
     (case field m name of
        None \<Rightarrow> Inr None
      | Some v \<Rightarrow>
          (case opt_filter (\<lambda>s. s \<noteq> []) (as_str v) of
             Some s \<Rightarrow> Inr (Some s)
           | None \<Rightarrow> Inl (RClaims (family @ '' '' @ name @ '' check failed: value must be a non-empty string''))))"

definition optional_nonce :: "jobject \<Rightarrow> receipt_error + string option" where
  "optional_nonce m =
     (case field m ''nonce'' of
        None \<Rightarrow> Inr None
      | Some v \<Rightarrow>
          (case opt_filter (\<lambda>s. 1 \<le> length s \<and> length s \<le> 88 \<and> list_all is_b64url s) (as_str v) of
             Some s \<Rightarrow> Inr (Some s)
           | None \<Rightarrow> Inl (RNonce ''nonce claim check failed: nonce must contain 1-88 base64url characters'')))"

definition integer :: "json option \<Rightarrow> string \<Rightarrow> (string \<Rightarrow> receipt_error) \<Rightarrow> receipt_error + int" where
  "integer v check err =
     ok_or (Option.bind v as_i64) (err (check @ '' check failed: expected an integer''))"

section \<open>Envelopes\<close>

record jws_envelope =
  je_protected :: string
  je_payload :: string
  je_signature :: string
  je_flattened :: bool
  je_flattened_value :: "json option"

definition flattened_envelope :: "json \<Rightarrow> receipt_error + jws_envelope" where
  "flattened_envelope v =
     and_then (ok_or (as_object v) (RStructure ''JWS structure check failed: flattened JWS must be a JSON object''))
       (\<lambda>m.
     and_then (ensure (field m ''header'' = None)
         (RStructure ''JWS structure check failed: unprotected flattened headers are not allowed'')) (\<lambda>_.
       let member = (\<lambda>name. opt_filter (\<lambda>s. s \<noteq> []) (field_str m name))
       in case (member ''protected'', member ''payload'', member ''signature'') of
            (Some protected, Some payload, Some signature) \<Rightarrow>
              Inr \<lparr>je_protected = protected, je_payload = payload, je_signature = signature,
                   je_flattened = True, je_flattened_value = Some v\<rparr>
          | _ \<Rightarrow> Inl (RStructure ''JWS structure check failed: flattened JWS requires non-empty string protected, payload, and signature members'')))"

definition parse_envelope :: "receipt_libs \<Rightarrow> string \<Rightarrow> receipt_error + jws_envelope" where
  "parse_envelope L receipt =
     (if \<not> is_ascii receipt then Inl (RStructure ''JWS structure check failed: receipt bytes must be ASCII'')
      else
        (let text = trim receipt
         in if starts_with ''{'' text then and_then (load_json L text ''JWS structure'') flattened_envelope
            else
              (let parts = split_on CHR ''.'' text
               in if length parts \<noteq> 3 \<or> list_ex (\<lambda>p. p = []) parts
                  then Inl (RStructure
                    (''JWS structure check failed: compact JWS must have 3 non-empty segments, got '' @
                     show_nat (length parts)))
                  else Inr \<lparr>je_protected = parts ! 0, je_payload = parts ! 1, je_signature = parts ! 2,
                            je_flattened = False, je_flattened_value = None\<rparr>)))"

section \<open>Header and signature\<close>

definition RECEIPT_TYPE :: string where "RECEIPT_TYPE = ''inference-receipt+jws''"

record parsed_header =
  ph_value :: jobject
  ph_public_key :: string

definition jwk_public :: "jobject \<Rightarrow> bool" where
  "jwk_public jwk \<longleftrightarrow>
     \<not> (field_str jwk ''kty'' \<noteq> Some ''OKP'' \<or> field_str jwk ''crv'' \<noteq> Some ''Ed25519'' \<or> field jwk ''d'' \<noteq> None)"

definition parse_header :: "receipt_libs \<Rightarrow> jws_envelope \<Rightarrow> receipt_error + parsed_header" where
  "parse_header L envelope =
     and_then (decode_b64 L (je_protected envelope) ''protected header'') (\<lambda>raw.
     and_then (load_json L raw ''protected header'') (\<lambda>v.
     and_then (ok_or (as_object v) (RHeader ''protected header check failed: header must be a JSON object''))
       (\<lambda>header.
     and_then (ensure (field_str header ''alg'' = Some ''EdDSA'')
         (RHeader (''protected header alg check failed: expected 'EdDSA', got '' @
           display_value L (field header ''alg'')))) (\<lambda>_.
     and_then (ensure (field_str header ''typ'' = Some RECEIPT_TYPE)
         (RHeader (''protected header typ check failed: expected '' @ rl_debug L RECEIPT_TYPE @ '', got '' @
           display_value L (field header ''typ'')))) (\<lambda>_.
     and_then (ok_or (Option.bind (field header ''jwk'') as_object)
         (RHeader ''protected header jwk check failed: jwk must be an object'')) (\<lambda>jwk.
     and_then (ensure (jwk_public jwk)
         (RHeader ''protected header jwk check failed: expected a public OKP/Ed25519 JWK'')) (\<lambda>_.
     and_then (ok_or (field_str jwk ''x'')
         (RHeader ''protected header jwk.x check failed: x must be a string'')) (\<lambda>x.
     and_then (map_err (\<lambda>e. RHeader (receipt_error_text e)) (decode_b64 L x ''protected header jwk.x'')) (\<lambda>key.
     and_then (ensure (length key = 32)
         (RHeader (''protected header jwk.x check failed: Ed25519 public key is '' @ show_nat (length key) @
           '' bytes, expected 32''))) (\<lambda>_.
       let expected_kid = rl_b64_encode L (rl_sha256 L key)
       in if is_none_or (\<lambda>kid. \<not> safe_equal kid expected_kid) (field_str header ''kid'')
          then Inl (RHeader ''protected header kid check failed: kid does not equal b64url(sha256(jwk.x))'')
          else Inr \<lparr>ph_value = header, ph_public_key = key\<rparr>))))))))))"

definition signing_input :: "jws_envelope \<Rightarrow> string" where
  "signing_input envelope = je_protected envelope @ ''.'' @ je_payload envelope"

definition verify_signature :: "receipt_libs \<Rightarrow> jws_envelope \<Rightarrow> string \<Rightarrow> receipt_error + string" where
  "verify_signature L envelope public_key =
     and_then (decode_b64 L (je_payload envelope) ''JWS payload'') (\<lambda>payload.
     and_then (map_err (\<lambda>e. RSignature (receipt_error_text e))
         (decode_b64 L (je_signature envelope) ''JWS signature'')) (\<lambda>signature.
     and_then (ensure (rl_signature_from_slice L signature)
         (RSignature ''Ed25519 signature check failed: signature must be 64 bytes'')) (\<lambda>_.
     and_then (map_err (\<lambda>e. RSignature (''Ed25519 signature check failed: invalid public key: '' @ e))
         (rl_key_from_bytes L public_key)) (\<lambda>_.
     and_then (ensure (rl_verify_strict L public_key (signing_input envelope) signature)
         (RSignature ''Ed25519 signature check failed'')) (\<lambda>_.
       Inr payload)))))"

section \<open>Issuer origins\<close>

definition host_text :: "url_host \<Rightarrow> string" where
  "host_text h = (case h of HostDomain s \<Rightarrow> s | HostIpv4 s \<Rightarrow> s | HostIpv6 s \<Rightarrow> ''['' @ s @ '']'')"

definition bare_origin :: "url_view \<Rightarrow> bool" where
  "bare_origin u \<longleftrightarrow>
     \<not> (uv_host u = None \<or> uv_username u \<noteq> [] \<or> uv_password u \<noteq> None \<or> uv_path u \<noteq> ''/'' \<or>
        uv_query u \<noteq> None \<or> uv_fragment u \<noteq> None)"

definition origin_text :: "url_view \<Rightarrow> string" where
  "origin_text u =
     (let host = (case uv_host u of Some h \<Rightarrow> host_text h | None \<Rightarrow> [])
      in case uv_port u of
           None \<Rightarrow> ''https://'' @ host
         | Some port \<Rightarrow> ''https://'' @ host @ '':'' @ show_nat port)"

definition canonical_https_origin :: "receipt_libs \<Rightarrow> string \<Rightarrow> string \<Rightarrow> receipt_error + string" where
  "canonical_https_origin L v check =
     and_then (ensure (v \<noteq> []) (RIssuer (check @ '' check failed: required HTTPS origin is missing''))) (\<lambda>_.
     and_then (ok_or (rl_url_parse L v) (RIssuer (check @ '' check failed: invalid HTTPS origin''))) (\<lambda>parsed.
     and_then (ensure (uv_scheme parsed = ''https'')
         (RIssuer (check @ '' check failed: issuer origin must use https''))) (\<lambda>_.
     and_then (ensure (bare_origin parsed)
         (RIssuer (check @ '' check failed: expected an origin with no path, query, or fragment''))) (\<lambda>_.
       let canonical = origin_text parsed;
           normalized_input = to_ascii_lowercase (unwrap_or v (strip_suffix ''/'' v));
           canonical_input = to_ascii_lowercase canonical;
           explicit_default_port = canonical_input @ '':443''
       in if normalized_input \<noteq> canonical_input \<and>
             (uv_port parsed \<noteq> None \<or> normalized_input \<noteq> explicit_default_port)
          then Inl (RIssuer (check @ '' check failed: invalid HTTPS origin''))
          else Inr canonical))))"

section \<open>Lemmas\<close>

subsection \<open>Strict JSON against lenient readings\<close>

text \<open>A lenient reader keeps the last or the first of several members with the same key.\<close>

fun lenient_value :: "bool \<Rightarrow> raw_json \<Rightarrow> json"
  and lenient_seq :: "bool \<Rightarrow> raw_json list \<Rightarrow> json list"
  and lenient_members :: "bool \<Rightarrow> (string \<times> raw_json) list \<Rightarrow> (string \<times> json) list"
where
  "lenient_value l RawNull = JNull"
| "lenient_value l (RawBool b) = JBool b"
| "lenient_value l (RawI64 i) = JNumber (number_from_i64 i)"
| "lenient_value l (RawU64 n) = JNumber (PosInt n)"
| "lenient_value l (RawF64 q) = JNumber (JFloat q)"
| "lenient_value l (RawStr s) = JString s"
| "lenient_value l (RawSeq xs) = JArray (lenient_seq l xs)"
| "lenient_value l (RawMap ms) =
     JObject (fmap_of_list (if l then rev (lenient_members l ms) else lenient_members l ms))"
| "lenient_seq l [] = []"
| "lenient_seq l (x # xs) = lenient_value l x # lenient_seq l xs"
| "lenient_members l [] = []"
| "lenient_members l ((k, x) # ms) = (k, lenient_value l x) # lenient_members l ms"

fun unique_members :: "raw_json \<Rightarrow> bool"
  and unique_seq :: "raw_json list \<Rightarrow> bool"
  and unique_map :: "(string \<times> raw_json) list \<Rightarrow> bool"
where
  "unique_members (RawSeq xs) = unique_seq xs"
| "unique_members (RawMap ms) \<longleftrightarrow> distinct (map fst ms) \<and> unique_map ms"
| "unique_members _ = True"
| "unique_seq [] = True"
| "unique_seq (x # xs) \<longleftrightarrow> unique_members x \<and> unique_seq xs"
| "unique_map [] = True"
| "unique_map ((k, x) # ms) \<longleftrightarrow> unique_members x \<and> unique_map ms"

lemma fst_lenient_members [simp]: "map fst (lenient_members l ms) = map fst ms"
  by (induction ms) auto

lemma map_of_rev_distinct:
  assumes "distinct (map fst xs)"
  shows "map_of (rev xs) = map_of xs"
proof
  fix k
  have "map_of (rev xs) k = Some y \<longleftrightarrow> map_of xs k = Some y" for y
    using assms by (simp add: map_of_eq_Some_iff rev_map [symmetric])
  then show "map_of (rev xs) k = map_of xs k" by (metis not_None_eq)
qed

lemma strict_iff:
  "strict_value dbg r = Inr v \<longleftrightarrow> unique_members r \<and> v = lenient_value l r"
  "strict_seq dbg xs = Inr vs \<longleftrightarrow> unique_seq xs \<and> vs = lenient_seq l xs"
  "strict_map dbg seen vals ms = Inr m \<longleftrightarrow>
     distinct (map fst ms) \<and> set (map fst ms) \<inter> set seen = {} \<and> unique_map ms \<and>
     fmlookup m = fmlookup vals ++ map_of (lenient_members l ms)"
proof (induction dbg r and dbg xs and dbg seen vals ms arbitrary: v and vs and m
    rule: strict_value_strict_seq_strict_map.induct)
  case (8 dbg ms)
  have "fmlookup m = map_of (lenient_members l ms) \<longleftrightarrow> m = fmap_of_list (lenient_members l ms)" for m
    by (metis fmap_ext fmlookup_of_list)
  moreover have "distinct (map fst ms) \<Longrightarrow>
      fmap_of_list (rev (lenient_members l ms)) = fmap_of_list (lenient_members l ms)"
    by (rule fmap_ext) (simp add: fmlookup_of_list map_of_rev_distinct)
  ultimately show ?case using 8 by (auto simp: and_then_Inr_iff)
next
  case (11 dbg seen vals)
  then show ?case by (auto intro: fmap_ext)
next
  case (12 dbg seen vals k x ms)
  show ?case
  proof (cases "k \<in> set seen")
    case True
    then show ?thesis by auto
  next
    case False
    have "(\<lambda>a. if k = a then Some w else fmlookup vals a) ++ map_of (lenient_members l ms) =
        fmlookup vals ++ (\<lambda>a. if a = k then Some w else map_of (lenient_members l ms) a)"
      if "k \<notin> fst ` set ms" for w
    proof -
      have "map_of (lenient_members l ms) k = None"
        using that by (simp add: map_of_eq_None_iff flip: set_map)
      then show ?thesis by (auto simp: fun_eq_iff map_add_def split: option.splits)
    qed
    with False 12 show ?thesis by (auto simp: and_then_Inr_iff)
  qed
qed (auto simp: and_then_Inr_iff)

subsection \<open>Envelopes, headers and signatures\<close>

lemma safe_equal_iff [simp]: "safe_equal l r \<longleftrightarrow> l = r"
  by (auto simp: safe_equal_def)

lemma flattened_envelope_Inr_iff:
  "flattened_envelope v = Inr e \<longleftrightarrow>
     (\<exists>m. v = JObject m \<and> field m ''header'' = None \<and>
        field m ''protected'' = Some (JString (je_protected e)) \<and> je_protected e \<noteq> [] \<and>
        field m ''payload'' = Some (JString (je_payload e)) \<and> je_payload e \<noteq> [] \<and>
        field m ''signature'' = Some (JString (je_signature e)) \<and> je_signature e \<noteq> [] \<and>
        je_flattened e \<and> je_flattened_value e = Some v)"
proof -
  have member: "opt_filter (\<lambda>s. s \<noteq> []) (field_str m k) = Some s \<longleftrightarrow> field m k = Some (JString s) \<and> s \<noteq> []"
    for m k s by (auto simp: bind_eq_Some_conv)
  have "(case (opt_filter (\<lambda>s. s \<noteq> []) (field_str m ''protected''), opt_filter (\<lambda>s. s \<noteq> []) (field_str m ''payload''),
          opt_filter (\<lambda>s. s \<noteq> []) (field_str m ''signature'')) of
        (Some a, Some b, Some c) \<Rightarrow>
          Inr \<lparr>je_protected = a, je_payload = b, je_signature = c, je_flattened = True, je_flattened_value = Some v\<rparr>
      | _ \<Rightarrow> Inl x) = Inr e \<longleftrightarrow>
      opt_filter (\<lambda>s. s \<noteq> []) (field_str m ''protected'') = Some (je_protected e) \<and>
      opt_filter (\<lambda>s. s \<noteq> []) (field_str m ''payload'') = Some (je_payload e) \<and>
      opt_filter (\<lambda>s. s \<noteq> []) (field_str m ''signature'') = Some (je_signature e) \<and>
      je_flattened e \<and> je_flattened_value e = Some v" for m and x :: receipt_error
    by (cases e) (auto split: option.splits)
  then show ?thesis
    unfolding flattened_envelope_def Let_def result_simps as_object_Some_iff member by auto
qed

lemma three_segments:
  "length (split_on d t) = 3 \<and> \<not> list_ex (\<lambda>p. p = []) (split_on d t) \<and>
     a = split_on d t ! 0 \<and> b = split_on d t ! 1 \<and> c = split_on d t ! 2 \<longleftrightarrow>
   t = a @ [d] @ b @ [d] @ c \<and> list_all (\<lambda>p. p \<noteq> [] \<and> d \<notin> set p) [a, b, c]"
    (is "?L \<longleftrightarrow> ?R")
proof
  assume l: ?L
  then obtain p q r where ps: "split_on d t = [p, q, r]"
    by (auto simp: numeral_3_eq_3 length_Suc_conv)
  with l join_split_on [of d t] split_on_no_sep [of _ d t] show ?R by auto
next
  assume r: ?R
  then have "split_on d t = [a, b, c]"
    using split_on_join [of "[a, b, c]" d] by auto
  with r show ?L by auto
qed

lemma parse_header_InrD:
  assumes "parse_header L e = Inr h"
  obtains jwk x where "field_str (ph_value h) ''alg'' = Some ''EdDSA''"
    and "field_str (ph_value h) ''typ'' = Some RECEIPT_TYPE"
    and "field (ph_value h) ''jwk'' = Some (JObject jwk)" and "jwk_public jwk"
    and "field jwk ''x'' = Some (JString x)" and "rl_b64_decode L x = Some (ph_public_key h)"
    and "length (ph_public_key h) = 32"
    and "field_str (ph_value h) ''kid'' = Some (rl_b64_encode L (rl_sha256 L (ph_public_key h)))"
  using assms unfolding parse_header_def result_simps Let_def
  by (auto simp: decode_b64_def bind_eq_Some_conv is_none_or_def ok_or_Inr_iff map_err_Inr_iff Let_def
      split: if_splits option.splits)

lemma verify_signature_Inr_iff:
  "verify_signature L e key = Inr payload \<longleftrightarrow>
     decode_b64 L (je_payload e) ''JWS payload'' = Inr payload \<and>
     (\<exists>sig. decode_b64 L (je_signature e) ''JWS signature'' = Inr sig \<and> rl_signature_from_slice L sig \<and>
        rl_key_from_bytes L key = Inr () \<and> rl_verify_strict L key (signing_input e) sig)"
  unfolding verify_signature_def result_simps by auto

lemma to_ascii_slash: "map ascii_lower ''/'' = ''/''"
  by code_simp

lemma canonical_https_origin_InrD:
  assumes "canonical_https_origin L v check = Inr c"
  obtains u where "rl_url_parse L v = Some u" and "uv_scheme u = ''https''" and "bare_origin u"
    and "c = origin_text u"
    and "to_ascii_lowercase (unwrap_or v (strip_suffix ''/'' v)) = to_ascii_lowercase c \<or>
      uv_port u = None \<and>
      to_ascii_lowercase (unwrap_or v (strip_suffix ''/'' v)) = to_ascii_lowercase c @ '':443''"
  using assms unfolding canonical_https_origin_def result_simps Let_def by (auto split: if_splits)

section \<open>Concrete libraries for examples\<close>

text \<open>Base64url is the identity, a digest is the first 32 base64url characters of the text, padded, a
  signature is the signed text followed by the key, and JSON texts are the entries of a table.\<close>

definition example_url_parse :: "string \<Rightarrow> url_view option" where
  "example_url_parse v =
     (case plain_parse v of
        Inl _ \<Rightarrow> None
      | Inr u \<Rightarrow>
          Some \<lparr>uv_scheme = to_ascii_lowercase (pu_scheme u),
                uv_host = Some (HostDomain (to_ascii_lowercase
                  (unwrap_or (pu_host u) (strip_suffix '':443'' (pu_host u))))),
                uv_username = [], uv_password = None, uv_path = pu_path u, uv_query = None,
                uv_fragment = None, uv_port = None\<rparr>)"

definition example_digest :: "string \<Rightarrow> string" where
  "example_digest s = take 32 (filter is_b64url s @ replicate 32 CHR ''A'')"

definition example_receipt_libs :: "(string \<times> raw_json) list \<Rightarrow> receipt_libs" where
  "example_receipt_libs table =
     \<lparr>rl_json = (\<lambda>s. case map_of table s of None \<Rightarrow> Inl ''expected value'' | Some r \<Rightarrow> Inr r),
      rl_show = (\<lambda>_. ''value''), rl_debug = (\<lambda>s. s), rl_sha256 = example_digest,
      rl_b64_encode = (\<lambda>s. s), rl_b64_decode = Some,
      rl_signature_from_slice = (\<lambda>_. True), rl_key_from_bytes = (\<lambda>_. Inr ()),
      rl_verify_strict = (\<lambda>key msg sig. sig = filter is_b64url msg @ key),
      rl_url_parse = example_url_parse\<rparr>"

section \<open>Properties\<close>

text \<open>C27: Strict JSON is unambiguous. A JSON text is accepted exactly when no object in it, at any depth,
  repeats a member, and the value is then what every reader gives it, whether a reader keeps the
  first or the last of repeated members: no two parsers can disagree on a signed text.\<close>

theorem strict_json_unambiguous:
  "load_json L data check = Inr v \<longleftrightarrow>
     (\<exists>r. rl_json L data = Inr r \<and> unique_members r \<and> v = lenient_value keep_last r)"
  unfolding load_json_def by (auto simp: result_simps strict_iff [where l = keep_last])

text \<open>C28: The two envelopes. A receipt is accepted as compact exactly when its trimmed ASCII text is
  three non-empty segments separated by dots, and as flattened exactly when it is a strict JSON
  object with non-empty string members \<open>protected\<close>, \<open>payload\<close> and \<open>signature\<close> and without an
  unprotected \<open>header\<close>; in both cases the envelope holds exactly those parts.\<close>

theorem parse_envelope_spec:
  "parse_envelope L r = Inr e \<longleftrightarrow>
     is_ascii r \<and>
     (if je_flattened e
      then (\<exists>m. starts_with ''{'' (trim r) \<and> load_json L (trim r) ''JWS structure'' = Inr (JObject m) \<and>
             field m ''header'' = None \<and>
             field m ''protected'' = Some (JString (je_protected e)) \<and> je_protected e \<noteq> [] \<and>
             field m ''payload'' = Some (JString (je_payload e)) \<and> je_payload e \<noteq> [] \<and>
             field m ''signature'' = Some (JString (je_signature e)) \<and> je_signature e \<noteq> [] \<and>
             je_flattened_value e = Some (JObject m))
      else \<not> starts_with ''{'' (trim r) \<and> je_flattened_value e = None \<and>
           trim r = signing_input e @ ''.'' @ je_signature e \<and>
           list_all (\<lambda>p. p \<noteq> [] \<and> CHR ''.'' \<notin> set p) [je_protected e, je_payload e, je_signature e])"
proof (cases "starts_with ''{'' (trim r)")
  case True
  then show ?thesis
    by (cases "is_ascii r") (auto simp: parse_envelope_def result_simps flattened_envelope_Inr_iff)
next
  case False
  have "parse_envelope L r = Inr e \<longleftrightarrow> is_ascii r \<and> \<not> je_flattened e \<and> je_flattened_value e = None \<and>
      length (split_on CHR ''.'' (trim r)) = 3 \<and> \<not> list_ex (\<lambda>p. p = []) (split_on CHR ''.'' (trim r)) \<and>
      je_protected e = split_on CHR ''.'' (trim r) ! 0 \<and> je_payload e = split_on CHR ''.'' (trim r) ! 1 \<and>
      je_signature e = split_on CHR ''.'' (trim r) ! 2"
    using False by (cases e) (auto simp: parse_envelope_def Let_def)
  with False show ?thesis
    unfolding three_segments signing_input_def by auto
qed

text \<open>Issuer spellings. An accepted issuer is the canonical HTTPS origin it is read as, up to ASCII
  case, one trailing slash and an explicit default port: no other spelling that a URL parser would
  normalise passes.\<close>

theorem issuer_spellings:
  assumes "canonical_https_origin L v check = Inr c"
  shows "starts_with ''https://'' c \<and>
    to_ascii_lowercase v \<in> set (map (\<lambda>suffix. to_ascii_lowercase c @ suffix) [[], ''/'', '':443'', '':443/''])"
proof -
  from assms obtain u where c: "c = origin_text u"
    and s: "to_ascii_lowercase (unwrap_or v (strip_suffix ''/'' v)) = to_ascii_lowercase c \<or>
      to_ascii_lowercase (unwrap_or v (strip_suffix ''/'' v)) = to_ascii_lowercase c @ '':443''"
    by (elim canonical_https_origin_InrD) blast
  have "starts_with ''https://'' c"
    by (auto simp: c origin_text_def Let_def starts_with_iff split: option.splits)
  moreover have "v = unwrap_or v (strip_suffix ''/'' v) \<or> v = unwrap_or v (strip_suffix ''/'' v) @ ''/''"
    by (metis option.exhaust strip_suffix_Some_iff unwrap_or_simps)
  then have "to_ascii_lowercase v = to_ascii_lowercase (unwrap_or v (strip_suffix ''/'' v)) \<or>
      to_ascii_lowercase v = to_ascii_lowercase (unwrap_or v (strip_suffix ''/'' v)) @ ''/''"
    by (metis to_ascii_lowercase_def map_append to_ascii_slash)
  ultimately show ?thesis using s by auto
qed

theorem issuer_spellings_witness:
  "canonical_https_origin (example_receipt_libs []) ''HTTPS://API.TrustedRouter.com:443/'' ''iss claim'' =
     Inr ''https://api.trustedrouter.com'' \<and>
   starts_with ''https://'' ''https://api.trustedrouter.com''"
proof -
  have c: "canonical_https_origin (example_receipt_libs []) ''HTTPS://API.TrustedRouter.com:443/'' ''iss claim'' =
     Inr ''https://api.trustedrouter.com''" by code_simp
  from issuer_spellings [OF c] c show ?thesis by blast
qed

end
