(* ===== verification/TR_Capture.thy ===== *)
theory TR_Capture
  imports TR_Jws
begin

text \<open>
  The stream layer of the receipt verifier (\<open>receipts.rs\<close>): cutting captured wire bytes into SSE events,
  decoding an event, finding the embedded receipt, the digest of a stream, and \<open>ReceiptCapture\<close>, which
  wraps a byte stream and finds the receipt while the bytes pass through. The positions the code
  keeps in a buffer are numbers here too; the reference definitions work on the remaining bytes.
\<close>

section \<open>Framing\<close>

definition LF :: char where "LF = CHR 0x0A"
definition lf_end :: string where "lf_end = [LF, LF]"
definition crlf_end :: string where "crlf_end = [CHR 0x0D, LF, CHR 0x0D, LF]"

definition next_sse_event :: "string \<Rightarrow> nat \<Rightarrow> (string \<times> nat) option" where
  "next_sse_event stream offset =
     (let lf = map_option (\<lambda>i. offset + i + 2) (find_subslice lf_end (drop offset stream));
          crlf = map_option (\<lambda>i. offset + i + 4) (find_subslice crlf_end (drop offset stream))
      in map_option (\<lambda>stop. (take (stop - offset) (drop offset stream), stop))
           (case (lf, crlf) of
              (Some l, Some r) \<Rightarrow> Some (min l r)
            | (Some e, None) \<Rightarrow> Some e
            | (None, Some e) \<Rightarrow> Some e
            | (None, None) \<Rightarrow> None))"

record captured_event =
  ce_name :: string
  ce_payload :: string
  ce_done :: bool

definition framing_error :: "string \<Rightarrow> receipt_error" where
  "framing_error m = RHash (''response stream framing check failed: '' @ m)"

text \<open>The value of a field line, without one leading space.\<close>

definition field_value :: "string \<Rightarrow> string" where
  "field_value v = unwrap_or v (strip_prefix '' '' v)"

fun decode_lines ::
    "string option \<Rightarrow> string option \<Rightarrow> string list \<Rightarrow> receipt_error + (string option \<times> string option)" where
  "decode_lines name payload [] = Inr (name, payload)"
| "decode_lines name payload (raw_line # lines) =
     (let line = unwrap_or raw_line (strip_suffix [CHR 0x0D] raw_line)
      in case strip_prefix ''data:'' line of
           Some v \<Rightarrow>
             if payload \<noteq> None then Inl (framing_error ''SSE event has multiple data fields'')
             else decode_lines name (Some (field_value v)) lines
         | None \<Rightarrow>
             (case strip_prefix ''event:'' line of
                Some v \<Rightarrow>
                  if name \<noteq> None then Inl (framing_error ''SSE event has multiple event fields'')
                  else decode_lines (Some (field_value v)) payload lines
              | None \<Rightarrow> Inl (framing_error ''SSE event contains an unsupported field'')))"

definition decode_sse_event :: "string \<Rightarrow> receipt_error + captured_event" where
  "decode_sse_event raw =
     and_then (ok_or (opt_or (strip_suffix crlf_end raw) (strip_suffix lf_end raw))
         (framing_error ''incomplete SSE event'')) (\<lambda>body.
     and_then (decode_lines None None (split_on LF body)) (\<lambda>(name, payload).
     and_then (ok_or payload (framing_error ''SSE event has no data field'')) (\<lambda>payload.
       Inr \<lparr>ce_name = unwrap_or [] name, ce_payload = payload, ce_done = (payload = ''[DONE]'')\<rparr>)))"

definition position_error :: "string \<Rightarrow> receipt_error" where
  "position_error m = RHash (''response stream receipt position check failed: '' @ m)"

definition embedded_receipt :: "receipt_libs \<Rightarrow> string \<Rightarrow> receipt_error + json option" where
  "embedded_receipt L payload =
     (case load_json L payload ''response stream event JSON'' of
        Inl _ \<Rightarrow> Inr None
      | Inr v \<Rightarrow>
          (case as_object v of
             None \<Rightarrow> Inr None
           | Some m \<Rightarrow>
               (case field m ''inference_receipt'' of
                  None \<Rightarrow> Inr None
                | Some receipt \<Rightarrow>
                    if is_object receipt then Inr (Some receipt)
                    else Inl (position_error ''inference_receipt must be a flattened JWS object''))))"

section \<open>The digest of a stream\<close>

text \<open>The loop variables of \<open>stream_digest\<close>. The hasher is the bytes it was given.\<close>

record digest_state =
  ds_digest :: string
  ds_events :: nat
  ds_saw_done :: bool
  ds_saw_receipt :: bool

definition digest_start :: digest_state where
  "digest_start = \<lparr>ds_digest = [], ds_events = 0, ds_saw_done = False, ds_saw_receipt = False\<rparr>"

definition hash_line :: "string \<Rightarrow> captured_event \<Rightarrow> string" where
  "hash_line domain ev =
     (if domain = ''sse-events-v1'' then ce_name ev @ [LF] else []) @ ce_payload ev @ [LF]"

definition digest_event ::
    "receipt_libs \<Rightarrow> string \<Rightarrow> json option \<Rightarrow> captured_event \<Rightarrow> digest_state \<Rightarrow> receipt_error + digest_state" where
  "digest_event L domain expected_receipt event st =
     (if ds_saw_done st then Inl (position_error ''data event follows [DONE]'')
      else if ce_done event then Inr (st\<lparr>ds_saw_done := True\<rparr>)
      else
        and_then (embedded_receipt L (ce_payload event)) (\<lambda>found.
          case found of
            Some embedded \<Rightarrow>
              if ds_saw_receipt st then Inl (position_error ''multiple receipt events'')
              else if is_none_or (\<lambda>expected. expected \<noteq> embedded) expected_receipt
              then Inl (position_error ''embedded receipt does not match the verified flattened JWS'')
              else Inr (st\<lparr>ds_saw_receipt := True\<rparr>)
          | None \<Rightarrow>
              if ds_saw_receipt st
              then Inl (position_error ''receipt is not the last data event before [DONE]'')
              else
                and_then
                  (if domain = ''sse-data-v1''
                   then ensure (ce_name event = [])
                     (RHash ''response stream hash check failed: sse-data-v1 events must be unnamed'')
                   else ensure (domain = ''sse-events-v1'')
                     (RHash (''response stream hash check failed: unsupported domain '' @ rl_debug L domain)))
                  (\<lambda>_. Inr (st\<lparr>ds_digest := ds_digest st @ hash_line domain event,
                              ds_events := ds_events st + 1\<rparr>))))"

text \<open>The length of the first frame of the remaining bytes.\<close>

definition frame_end :: "string \<Rightarrow> nat option" where
  "frame_end s =
     (case (find_subslice lf_end s, find_subslice crlf_end s) of
        (Some l, Some r) \<Rightarrow> Some (min (l + 2) (r + 4))
      | (Some l, None) \<Rightarrow> Some (l + 2)
      | (None, Some r) \<Rightarrow> Some (r + 4)
      | (None, None) \<Rightarrow> None)"

lemma next_sse_event_frame_end:
  "next_sse_event stream offset =
     map_option (\<lambda>n. (take n (drop offset stream), offset + n)) (frame_end (drop offset stream))"
  by (cases "find_subslice lf_end (drop offset stream)"; cases "find_subslice crlf_end (drop offset stream)")
    (simp_all add: next_sse_event_def frame_end_def min_def)

lemma find_subslice_fits: "find_subslice needle s = Some i \<Longrightarrow> i + length needle \<le> length s"
  using find_subslice_SomeD by fastforce

lemma frame_end_bounds: "frame_end s = Some n \<Longrightarrow> 0 < n \<and> n \<le> length s"
  using find_subslice_fits [of lf_end s] find_subslice_fits [of crlf_end s]
  by (auto simp: frame_end_def lf_end_def crlf_end_def min_def split: option.splits if_splits)

lemma next_sse_event_bounds:
  "next_sse_event stream offset = Some (raw, stop) \<Longrightarrow> offset < stop \<and> stop \<le> length stream"
  using frame_end_bounds [of "drop offset stream"]
  by (auto simp: next_sse_event_frame_end)

function digest_loop ::
    "receipt_libs \<Rightarrow> string \<Rightarrow> json option \<Rightarrow> string \<Rightarrow> nat \<Rightarrow> digest_state \<Rightarrow> receipt_error + digest_state" where
  "digest_loop L domain expected_receipt stream offset st =
     (if offset < length stream then
        (case next_sse_event stream offset of
           None \<Rightarrow> Inl (framing_error ''stream has an incomplete SSE tail'')
         | Some (raw, stop) \<Rightarrow>
             (case and_then (decode_sse_event raw) (\<lambda>event. digest_event L domain expected_receipt event st) of
                Inl e \<Rightarrow> Inl e
              | Inr st' \<Rightarrow> digest_loop L domain expected_receipt stream stop st'))
      else Inr st)"
  by pat_completeness auto
termination
  by (relation "measure (\<lambda>(L, domain, expected, stream, offset, st). length stream - offset)")
    (use next_sse_event_bounds in \<open>fastforce+\<close>)

declare digest_loop.simps [simp del]

definition stream_digest ::
    "receipt_libs \<Rightarrow> string \<Rightarrow> string \<Rightarrow> json option \<Rightarrow> receipt_error + (string \<times> nat)" where
  "stream_digest L stream domain expected_receipt =
     and_then (digest_loop L domain expected_receipt stream 0 digest_start) (\<lambda>st.
     and_then (ensure (ds_saw_receipt st) (position_error ''receipt event is missing'')) (\<lambda>_.
     and_then (ensure (ds_saw_done st) (position_error ''receipt is not followed by [DONE]'')) (\<lambda>_.
       Inr (rl_sha256 L (ds_digest st), ds_events st))))"

section \<open>Receipt capture\<close>

record capture =
  cp_wire :: string
  cp_receipt :: "json option"

definition capture_new :: capture where
  "capture_new = \<lparr>cp_wire = [], cp_receipt = None\<rparr>"

text \<open>What one frame does to the captured receipt.\<close>

definition note_frame :: "receipt_libs \<Rightarrow> string \<Rightarrow> json option \<Rightarrow> json option" where
  "note_frame L raw receipt =
     (case decode_sse_event raw of
        Inl _ \<Rightarrow> receipt
      | Inr event \<Rightarrow>
          (case embedded_receipt L (ce_payload event) of
             Inr (Some found) \<Rightarrow> Some found
           | _ \<Rightarrow> receipt))"

function refresh_loop :: "receipt_libs \<Rightarrow> string \<Rightarrow> nat \<Rightarrow> json option \<Rightarrow> json option" where
  "refresh_loop L wire offset receipt =
     (if offset < length wire then
        (case next_sse_event wire offset of
           None \<Rightarrow> receipt
         | Some (raw, stop) \<Rightarrow> refresh_loop L wire stop (note_frame L raw receipt))
      else receipt)"
  by pat_completeness auto
termination
  by (relation "measure (\<lambda>(L, wire, offset, receipt). length wire - offset)")
    (use next_sse_event_bounds in \<open>fastforce+\<close>)

declare refresh_loop.simps [simp del]

definition refresh_receipt :: "receipt_libs \<Rightarrow> capture \<Rightarrow> capture" where
  "refresh_receipt L c = c\<lparr>cp_receipt := refresh_loop L (cp_wire c) 0 (cp_receipt c)\<rparr>"

datatype 'e stream_poll = ReadyChunk string | ReadyErr 'e | ReadyEnd | PollPending

definition capture_poll :: "receipt_libs \<Rightarrow> 'e stream_poll \<Rightarrow> capture \<Rightarrow> 'e stream_poll \<times> capture" where
  "capture_poll L item c =
     (case item of
        ReadyChunk chunk \<Rightarrow> (ReadyChunk chunk, refresh_receipt L (c\<lparr>cp_wire := cp_wire c @ chunk\<rparr>))
      | ReadyErr e \<Rightarrow> (ReadyErr e, c)
      | ReadyEnd \<Rightarrow> (ReadyEnd, c)
      | PollPending \<Rightarrow> (PollPending, c))"

section \<open>Reference definitions on the remaining bytes\<close>

function sse_frames :: "string \<Rightarrow> string list \<times> string" where
  "sse_frames s =
     (case frame_end s of
        None \<Rightarrow> ([], s)
      | Some n \<Rightarrow> (let (fs, rest) = sse_frames (drop n s) in (take n s # fs, rest)))"
  by pat_completeness auto
termination
  by (relation "measure length") (use frame_end_bounds in \<open>fastforce+\<close>)

declare sse_frames.simps [simp del]

definition captured_events :: "string \<Rightarrow> captured_event list option" where
  "captured_events stream =
     (if snd (sse_frames stream) = []
      then those (map (\<lambda>raw. result_ok (decode_sse_event raw)) (fst (sse_frames stream))) else None)"

fun digest_events ::
    "receipt_libs \<Rightarrow> string \<Rightarrow> json option \<Rightarrow> captured_event list \<Rightarrow> digest_state \<Rightarrow> receipt_error + digest_state" where
  "digest_events L domain expected [] st = Inr st"
| "digest_events L domain expected (ev # evs) st =
     and_then (digest_event L domain expected ev st) (digest_events L domain expected evs)"

text \<open>An event that is hashed: neither the end marker nor a receipt, and in the domain's form.\<close>

definition hashable :: "receipt_libs \<Rightarrow> string \<Rightarrow> captured_event \<Rightarrow> bool" where
  "hashable L domain ev \<longleftrightarrow>
     \<not> ce_done ev \<and> embedded_receipt L (ce_payload ev) = Inr None \<and>
     (domain = ''sse-data-v1'' \<and> ce_name ev = [] \<or> domain = ''sse-events-v1'')"

subsection \<open>The loops compute them\<close>

lemma frame_end_Nil [simp]: "frame_end [] = None"
  by (simp add: frame_end_def lf_end_def crlf_end_def)

lemma sse_frames_Nil [simp]: "sse_frames [] = ([], [])"
  by (simp add: sse_frames.simps)

lemma sse_frames_None: "frame_end s = None \<Longrightarrow> sse_frames s = ([], s)"
  by (simp add: sse_frames.simps)

lemma sse_frames_Some:
  "frame_end s = Some n \<Longrightarrow>
     fst (sse_frames s) = take n s # fst (sse_frames (drop n s)) \<and>
     snd (sse_frames s) = snd (sse_frames (drop n s))"
  by (subst (1 2) sse_frames.simps) (simp add: case_prod_beta)

lemma sse_frames_concat: "concat (fst (sse_frames s)) @ snd (sse_frames s) = s"
proof (induction s rule: sse_frames.induct)
  case (1 s)
  then show ?case
    by (cases "frame_end s") (simp_all add: sse_frames_None sse_frames_Some)
qed

lemma refresh_loop_frames:
  "refresh_loop L wire offset r = fold (note_frame L) (fst (sse_frames (drop offset wire))) r"
proof (induction L wire offset r rule: refresh_loop.induct)
  case (1 L wire offset r)
  show ?case
  proof (cases "offset < length wire")
    case False
    then show ?thesis by (simp add: refresh_loop.simps [of L wire offset r])
  next
    case inside: True
    show ?thesis
    proof (cases "frame_end (drop offset wire)")
      case None
      with inside show ?thesis
        by (simp add: refresh_loop.simps [of L wire offset r] next_sse_event_frame_end sse_frames_None)
    next
      case (Some n)
      with inside 1 show ?thesis
        by (simp add: refresh_loop.simps [of L wire offset r] next_sse_event_frame_end sse_frames_Some add.commute)
    qed
  qed
qed

lemma digest_loop_Inr_iff:
  "digest_loop L domain expected stream offset st = Inr st' \<longleftrightarrow>
     (\<exists>evs. captured_events (drop offset stream) = Some evs \<and> digest_events L domain expected evs st = Inr st')"
proof (induction L domain expected stream offset st rule: digest_loop.induct)
  case (1 L domain expected stream offset st)
  show ?case
  proof (cases "offset < length stream")
    case False
    then show ?thesis
      by (simp add: digest_loop.simps [of L domain expected stream offset st] captured_events_def)
  next
    case inside: True
    show ?thesis
    proof (cases "frame_end (drop offset stream)")
      case None
      with inside show ?thesis
        by (simp add: digest_loop.simps [of L domain expected stream offset st] next_sse_event_frame_end
            captured_events_def sse_frames_None)
    next
      case (Some n)
      have "captured_events (drop offset stream) = Some evs \<longleftrightarrow>
          (\<exists>ev evs'. evs = ev # evs' \<and> decode_sse_event (take n (drop offset stream)) = Inr ev \<and>
             captured_events (drop (offset + n) stream) = Some evs')" for evs
        using sse_frames_Some [OF Some]
        by (auto simp: captured_events_def add.commute result_ok_def split: option.splits sum.splits)
      moreover have "digest_loop L domain expected stream offset st = Inr st' \<longleftrightarrow>
          (\<exists>ev st1. decode_sse_event (take n (drop offset stream)) = Inr ev \<and>
             digest_event L domain expected ev st = Inr st1 \<and>
             digest_loop L domain expected stream (offset + n) st1 = Inr st')"
        using inside Some
        by (auto simp: digest_loop.simps [of L domain expected stream offset st] next_sse_event_frame_end
            and_then_def split: sum.splits)
      ultimately show ?thesis
        using 1 [OF inside _ refl, of "take n (drop offset stream)" "offset + n"] inside Some
        by (auto simp: next_sse_event_frame_end and_then_Inr_iff)
    qed
  qed
qed

subsection \<open>Accepted streams\<close>

lemma digest_events_done:
  "ds_saw_done st \<Longrightarrow> digest_events L domain expected evs st = Inr st' \<longleftrightarrow> evs = [] \<and> st' = st"
  by (cases evs) (auto simp: digest_event_def)

lemma digest_events_receipt:
  assumes "\<not> ds_saw_done st" and "ds_saw_receipt st"
  shows "digest_events L domain expected evs st = Inr st' \<and> ds_saw_done st' \<longleftrightarrow>
    (\<exists>fin. evs = [fin] \<and> ce_done fin \<and> st' = st\<lparr>ds_saw_done := True\<rparr>)"
proof (cases evs)
  case Nil
  with assms show ?thesis by auto
next
  case (Cons ev evs')
  have "digest_event L domain expected ev st = Inr st1 \<longleftrightarrow> ce_done ev \<and> st1 = st\<lparr>ds_saw_done := True\<rparr>" for st1
    using assms by (auto simp: digest_event_def and_then_def split: sum.splits option.splits if_splits)
  with Cons show ?thesis
    by (auto simp: and_then_Inr_iff digest_events_done)
qed

lemma digest_event_fresh:
  assumes "\<not> ds_saw_done st" and "\<not> ds_saw_receipt st" and "\<not> ce_done ev"
  shows "digest_event L domain expected ev st = Inr st1 \<longleftrightarrow>
    hashable L domain ev \<and>
      st1 = st\<lparr>ds_digest := ds_digest st @ hash_line domain ev, ds_events := ds_events st + 1\<rparr> \<or>
    (\<exists>v. expected = Some v \<and> embedded_receipt L (ce_payload ev) = Inr (Some v)) \<and>
      st1 = st\<lparr>ds_saw_receipt := True\<rparr>"
  using assms
  by (auto simp: digest_event_def hashable_def and_then_def is_none_or_def ensure_def
      split: sum.splits option.splits if_splits)

definition accepted_as :: "receipt_libs \<Rightarrow> string \<Rightarrow> json option \<Rightarrow> captured_event list \<Rightarrow> captured_event list \<Rightarrow> bool" where
  "accepted_as L domain expected evs body \<longleftrightarrow>
     (\<exists>rec fin v. evs = body @ [rec, fin] \<and> list_all (hashable L domain) body \<and>
        \<not> ce_done rec \<and> expected = Some v \<and> embedded_receipt L (ce_payload rec) = Inr (Some v) \<and> ce_done fin)"

lemma accepted_as_Nil [simp]: "\<not> accepted_as L domain expected [] body"
  by (simp add: accepted_as_def)

lemma accepted_as_Cons:
  "accepted_as L domain expected (ev # evs) body \<longleftrightarrow>
     (\<exists>body'. body = ev # body' \<and> hashable L domain ev \<and> accepted_as L domain expected evs body') \<or>
     (body = [] \<and> \<not> ce_done ev \<and> (\<exists>v. expected = Some v \<and> embedded_receipt L (ce_payload ev) = Inr (Some v)) \<and>
       (\<exists>fin. evs = [fin] \<and> ce_done fin))"
  by (cases body) (auto simp: accepted_as_def)

lemma digest_events_iff:
  assumes "\<not> ds_saw_done st" and "\<not> ds_saw_receipt st"
  shows "(digest_events L domain expected evs st = Inr st' \<and> ds_saw_receipt st' \<and> ds_saw_done st') \<longleftrightarrow>
    (\<exists>body. accepted_as L domain expected evs body \<and>
       st' = \<lparr>ds_digest = ds_digest st @ concat (map (hash_line domain) body),
              ds_events = ds_events st + length body, ds_saw_done = True, ds_saw_receipt = True\<rparr>)"
  using assms
proof (induction evs arbitrary: st)
  case Nil
  then show ?case by auto
next
  case (Cons ev evs)
  show ?case
  proof (cases "ce_done ev")
    case True
    with Cons.prems show ?thesis
      by (auto simp: digest_event_def digest_events_done accepted_as_Cons hashable_def)
  next
    case False
    let ?hashed = "st\<lparr>ds_digest := ds_digest st @ hash_line domain ev, ds_events := ds_events st + 1\<rparr>"
    let ?noted = "st\<lparr>ds_saw_receipt := True\<rparr>"
    let ?result = "\<lambda>body. \<lparr>ds_digest = ds_digest st @ concat (map (hash_line domain) body),
        ds_events = ds_events st + length body, ds_saw_done = True, ds_saw_receipt = True\<rparr>"
    have noted: "digest_events L domain expected evs ?noted = Inr st' \<and> ds_saw_done st' \<longleftrightarrow>
        (\<exists>fin. evs = [fin] \<and> ce_done fin \<and> st' = ?noted\<lparr>ds_saw_done := True\<rparr>)"
      using Cons.prems by (intro digest_events_receipt) simp_all
    have hashed: "digest_events L domain expected evs ?hashed = Inr st' \<and> ds_saw_receipt st' \<and> ds_saw_done st' \<longleftrightarrow>
        (\<exists>body. accepted_as L domain expected evs body \<and>
           st' = \<lparr>ds_digest = ds_digest ?hashed @ concat (map (hash_line domain) body),
                  ds_events = ds_events ?hashed + length body, ds_saw_done = True, ds_saw_receipt = True\<rparr>)"
      using Cons.prems by (intro Cons.IH) simp_all
    let ?received = "(\<exists>v. expected = Some v \<and> embedded_receipt L (ce_payload ev) = Inr (Some v))"
    have lhs: "(digest_events L domain expected (ev # evs) st = Inr st' \<and> ds_saw_receipt st' \<and> ds_saw_done st') \<longleftrightarrow>
       hashable L domain ev \<and>
         (digest_events L domain expected evs ?hashed = Inr st' \<and> ds_saw_receipt st' \<and> ds_saw_done st') \<or>
       ?received \<and> (digest_events L domain expected evs ?noted = Inr st' \<and> ds_saw_done st') \<and> ds_saw_receipt st'"
      unfolding digest_events.simps and_then_Inr_iff digest_event_fresh [OF Cons.prems False] by blast
    have rhs: "(\<exists>body. accepted_as L domain expected (ev # evs) body \<and> st' = ?result body) \<longleftrightarrow>
       hashable L domain ev \<and> (\<exists>body. accepted_as L domain expected evs body \<and> st' = ?result (ev # body)) \<or>
       ?received \<and> (\<exists>fin. evs = [fin] \<and> ce_done fin) \<and> st' = ?result []"
      unfolding accepted_as_Cons using False by blast
    have noted_eq: "?noted\<lparr>ds_saw_done := True\<rparr> = ?result []"
      using Cons.prems by (cases st) simp
    show ?thesis
      unfolding lhs rhs hashed noted noted_eq by (auto simp: add.assoc)
  qed
qed

lemma stream_digest_Inr_iff:
  "stream_digest L stream domain expected = Inr (d, n) \<longleftrightarrow>
     (\<exists>evs body. captured_events stream = Some evs \<and> accepted_as L domain expected evs body \<and>
        d = rl_sha256 L (concat (map (hash_line domain) body)) \<and> n = length body)"
proof -
  have fresh: "\<not> ds_saw_done digest_start" "\<not> ds_saw_receipt digest_start"
    by (simp_all add: digest_start_def)
  have "stream_digest L stream domain expected = Inr (d, n) \<longleftrightarrow>
      (\<exists>evs st. captured_events stream = Some evs \<and>
         (digest_events L domain expected evs digest_start = Inr st \<and> ds_saw_receipt st \<and> ds_saw_done st) \<and>
         d = rl_sha256 L (ds_digest st) \<and> n = ds_events st)"
    unfolding stream_digest_def result_simps digest_loop_Inr_iff by auto
  then show ?thesis
    unfolding digest_events_iff [OF fresh]
    by (simp add: digest_start_def) (metis digest_state.select_convs(1,2))
qed

subsection \<open>More bytes never change the frames already cut\<close>

lemma find_subslice_append:
  assumes "find_subslice needle s = Some i"
  shows "find_subslice needle (s @ t) = Some i"
proof -
  from find_subslice_SomeD [OF assms] obtain a b where s: "s = a @ needle @ b" and a: "length a = i" by blast
  then have "find_subslice needle (s @ t) \<noteq> None"
    unfolding find_subslice_None_iff by (metis append.assoc)
  then obtain k where k: "find_subslice needle (s @ t) = Some k" by blast
  have "\<not> i < k"
  proof
    assume "i < k"
    with find_subslice_first [OF k] have "\<not> starts_with needle (drop i (s @ t))" by blast
    with s a show False by simp
  qed
  moreover have "\<not> k < i"
  proof
    assume less: "k < i"
    from find_subslice_SomeD [OF k] obtain x y where xy: "s @ t = x @ needle @ y" "length x = k" by blast
    have "length (x @ needle) \<le> length s" using less xy s a by simp
    with xy have "x @ needle = take (length (x @ needle)) s"
      by (metis append.assoc append_eq_conv_conj take_append diff_is_0_eq take_0 append_Nil2)
    then have "starts_with needle (drop k s)"
      by (metis append_eq_conv_conj append_take_drop_id starts_with_append xy(2) append.assoc)
    with find_subslice_first [OF assms less] show False by blast
  qed
  ultimately show ?thesis using k by simp
qed

lemma find_subslice_late:
  assumes "find_subslice needle s = None" and "find_subslice needle (s @ t) = Some i"
  shows "length s < i + length needle"
proof (rule ccontr)
  assume short: "\<not> length s < i + length needle"
  from find_subslice_SomeD [OF assms(2)] obtain a b where ab: "s @ t = a @ needle @ b" "length a = i" by blast
  with short have "length (a @ needle) \<le> length s" by simp
  with ab have "s = (a @ needle) @ drop (length (a @ needle)) s"
    by (metis append.assoc append_eq_append_conv2 append_eq_conv_conj append_take_drop_id take_append
        diff_is_0_eq take_0 append_Nil2)
  with assms(1) show False unfolding find_subslice_None_iff by (metis append.assoc)
qed

lemma frame_end_append: "frame_end s = Some n \<Longrightarrow> frame_end (s @ t) = Some n"
  using find_subslice_append [of lf_end s _ t] find_subslice_append [of crlf_end s _ t]
    find_subslice_late [of lf_end s t] find_subslice_late [of crlf_end s t]
    find_subslice_fits [of lf_end s] find_subslice_fits [of crlf_end s]
  by (cases "find_subslice lf_end s"; cases "find_subslice crlf_end s";
      cases "find_subslice lf_end (s @ t)"; cases "find_subslice crlf_end (s @ t)")
    (auto simp: frame_end_def lf_end_def crlf_end_def min_def)

lemma sse_frames_append:
  "fst (sse_frames (s @ t)) = fst (sse_frames s) @ fst (sse_frames (snd (sse_frames s) @ t))"
proof (induction s rule: sse_frames.induct)
  case (1 s)
  show ?case
  proof (cases "frame_end s")
    case None
    then show ?thesis by (simp add: sse_frames_None)
  next
    case (Some n)
    with frame_end_bounds have n: "n \<le> length s" by blast
    then show ?thesis
      using 1 [OF Some] sse_frames_Some [OF Some] sse_frames_Some [OF frame_end_append [OF Some, of t]] by simp
  qed
qed

text \<open>The receipt of one frame, and the capture as a fold over frames.\<close>

definition frame_receipt :: "receipt_libs \<Rightarrow> string \<Rightarrow> json option" where
  "frame_receipt L raw = note_frame L raw None"

lemma note_frame_opt_or: "note_frame L raw r = opt_or (frame_receipt L raw) r"
  by (auto simp: frame_receipt_def note_frame_def split: sum.splits option.splits)

definition receipts_in :: "receipt_libs \<Rightarrow> string \<Rightarrow> json list" where
  "receipts_in L wire = List.map_filter (frame_receipt L) (fst (sse_frames wire))"

definition last_opt :: "'a list \<Rightarrow> 'a option" where
  "last_opt xs = (if xs = [] then None else Some (last xs))"

lemma fold_note_frame:
  "fold (note_frame L) fs r = opt_or (last_opt (List.map_filter (frame_receipt L) fs)) r"
proof (induction fs arbitrary: r rule: rev_induct)
  case Nil
  then show ?case by (simp add: List.map_filter_def last_opt_def)
next
  case (snoc f fs)
  then show ?case
    by (cases "frame_receipt L f") (simp_all add: note_frame_opt_or List.map_filter_def last_opt_def)
qed

subsection \<open>Hashed lines determine the events\<close>

lemma LF_free_field_value: "LF \<notin> set v \<Longrightarrow> LF \<notin> set (field_value v)"
  by (auto simp: field_value_def strip_prefix_def unwrap_or_def dest: in_set_dropD split: option.splits)

lemma decode_lines_LF_free:
  assumes "decode_lines name payload lines = Inr (name', payload')"
    and "\<And>l. l \<in> set lines \<Longrightarrow> LF \<notin> set l"
    and "is_none_or (\<lambda>s. LF \<notin> set s) name" and "is_none_or (\<lambda>s. LF \<notin> set s) payload"
  shows "is_none_or (\<lambda>s. LF \<notin> set s) name' \<and> is_none_or (\<lambda>s. LF \<notin> set s) payload'"
  using assms
proof (induction name payload lines rule: decode_lines.induct [case_names empty line])
  case (line name payload raw_line lines)
  let ?line = "unwrap_or raw_line (strip_suffix [CHR 0x0D] raw_line)"
  have free: "LF \<notin> set ?line"
    using line.prems(2) [of raw_line]
    by (auto simp: strip_suffix_def unwrap_or_def dest: in_set_takeD split: option.splits)
  have value_free: "LF \<notin> set (field_value v)" if "strip_prefix p ?line = Some v" for p v
    using free that by (intro LF_free_field_value) (auto simp: strip_prefix_Some_iff)
  show ?case
  proof (cases "strip_prefix ''data:'' ?line")
    case (Some v)
    with line.prems(1) have "payload = None"
      "decode_lines name (Some (field_value v)) lines = Inr (name', payload')"
      by (auto simp: Let_def split: if_splits)
    with line.IH(2) [OF refl Some] line.prems value_free [OF Some] show ?thesis by simp
  next
    case None
    with line.prems(1) obtain v where v: "strip_prefix ''event:'' ?line = Some v" "name = None"
      "decode_lines (Some (field_value v)) payload lines = Inr (name', payload')"
      by (auto simp: Let_def split: option.splits if_splits)
    with line.IH(1) [OF refl None v(1)] line.prems value_free [OF v(1)] show ?thesis by simp
  qed
qed simp

lemma decode_sse_event_LF_free:
  assumes "decode_sse_event raw = Inr ev"
  shows "LF \<notin> set (ce_name ev) \<and> LF \<notin> set (ce_payload ev)"
proof -
  from assms obtain body name payload where
    d: "decode_lines None None (split_on LF body) = Inr (name, Some payload)"
    and ev: "ev = \<lparr>ce_name = unwrap_or [] name, ce_payload = payload, ce_done = (payload = ''[DONE]'')\<rparr>"
    unfolding decode_sse_event_def by (auto simp: result_simps)
  from decode_lines_LF_free [OF d] ev show ?thesis
    by (cases name) (auto dest: split_on_no_sep)
qed

lemma decode_sse_event_done: "decode_sse_event raw = Inr ev \<Longrightarrow> ce_done ev \<longleftrightarrow> ce_payload ev = ''[DONE]''"
  unfolding decode_sse_event_def by (auto simp: result_simps)

lemma those_Some_set: "those xs = Some ys \<Longrightarrow> y \<in> set ys \<Longrightarrow> Some y \<in> set xs"
  by (induction xs arbitrary: ys) (auto split: option.splits)

lemma captured_events_decoded:
  assumes "captured_events stream = Some evs" and "ev \<in> set evs"
  obtains raw where "decode_sse_event raw = Inr ev"
proof -
  from assms(1) have "those (map (\<lambda>raw. result_ok (decode_sse_event raw)) (fst (sse_frames stream))) = Some evs"
    by (simp add: captured_events_def split: if_splits)
  from those_Some_set [OF this assms(2)] that show thesis by (auto simp: result_ok_Some_iff dest: sym)
qed

lemma captured_events_LF_free:
  "captured_events stream = Some evs \<Longrightarrow> ev \<in> set evs \<Longrightarrow>
    LF \<notin> set (ce_name ev) \<and> LF \<notin> set (ce_payload ev)"
  by (erule captured_events_decoded) (auto dest: decode_sse_event_LF_free)

lemma split_on_lines:
  "(\<And>p. p \<in> set ps \<Longrightarrow> d \<notin> set p) \<Longrightarrow> split_on d (concat (map (\<lambda>p. p @ [d]) ps)) = ps @ [[]]"
  by (induction ps) (simp_all add: split_on_append)

definition pieces :: "string \<Rightarrow> captured_event \<Rightarrow> string list" where
  "pieces domain ev = (if domain = ''sse-events-v1'' then [ce_name ev] else []) @ [ce_payload ev]"

lemma hash_line_pieces: "hash_line domain ev = concat (map (\<lambda>p. p @ [LF]) (pieces domain ev))"
  by (simp add: hash_line_def pieces_def)

lemma hash_lines_pieces:
  "concat (map (hash_line domain) body) = concat (map (\<lambda>p. p @ [LF]) (concat (map (pieces domain) body)))"
  by (induction body) (simp_all add: hash_line_pieces)

lemma pieces_inj:
  "concat (map (pieces domain) b1) = concat (map (pieces domain) b2) \<Longrightarrow>
   list_all (hashable L domain) b1 \<Longrightarrow> list_all (hashable L domain) b2 \<Longrightarrow> b1 = b2"
proof (induction b1 arbitrary: b2)
  case Nil
  then show ?case by (cases b2) (auto simp: pieces_def)
next
  case (Cons e1 b1)
  then obtain e2 b2' where b2: "b2 = e2 # b2'" by (cases b2) (auto simp: pieces_def)
  have "length (pieces domain e1) = length (pieces domain e2)" by (simp add: pieces_def)
  with b2 Cons.prems(1) have "pieces domain e1 = pieces domain e2"
    "concat (map (pieces domain) b1) = concat (map (pieces domain) b2')"
    by simp_all
  moreover from this(1) Cons.prems b2 have "e1 = e2"
    by (cases e1; cases e2) (auto simp: pieces_def hashable_def split: if_splits)
  ultimately show ?case using Cons b2 by simp
qed

lemma hash_lines_inj:
  assumes "concat (map (hash_line domain) b1) = concat (map (hash_line domain) b2)"
    and "list_all (hashable L domain) b1" and "list_all (hashable L domain) b2"
    and free: "\<And>ev. ev \<in> set b1 \<union> set b2 \<Longrightarrow> LF \<notin> set (ce_name ev) \<and> LF \<notin> set (ce_payload ev)"
  shows "b1 = b2"
proof -
  have f: "LF \<notin> set p" if "p \<in> set (concat (map (pieces domain) b))" "set b \<subseteq> set b1 \<union> set b2" for b p
    using that free by (auto simp: pieces_def split: if_splits)
  have "split_on LF (concat (map (hash_line domain) b)) = concat (map (pieces domain) b) @ [[]]"
    if "set b \<subseteq> set b1 \<union> set b2" for b
    unfolding hash_lines_pieces using f [OF _ that] by (rule split_on_lines)
  from this [of b1] this [of b2] assms(1)
  have "concat (map (pieces domain) b1) = concat (map (pieces domain) b2)" by simp
  with assms(2,3) show ?thesis by (metis pieces_inj)
qed

section \<open>Properties\<close>

text \<open>C26: What a stream digest covers. A captured stream is accepted exactly when it is cut completely into
  events of which the last is the end marker, the last but one carries the expected receipt, and all
  before are data events of the domain; the digest is the hash of the lines of exactly those events,
  and the count is their number. In particular a stream with an incomplete tail, a misplaced, second
  or foreign receipt, a missing end marker or anything after it is rejected.\<close>

theorem stream_digest_spec:
  "stream_digest L stream domain expected = Inr (d, n) \<longleftrightarrow>
     (\<exists>body rec fin v. captured_events stream = Some (body @ [rec, fin]) \<and>
        list_all (hashable L domain) body \<and>
        \<not> ce_done rec \<and> expected = Some v \<and> embedded_receipt L (ce_payload rec) = Inr (Some v) \<and>
        ce_done fin \<and>
        d = rl_sha256 L (concat (map (hash_line domain) body)) \<and> n = length body)"
  unfolding stream_digest_Inr_iff accepted_as_def by blast

definition collision :: "receipt_libs \<Rightarrow> string \<Rightarrow> string \<Rightarrow> bool" where
  "collision L x y \<longleftrightarrow> x \<noteq> y \<and> rl_sha256 L x = rl_sha256 L y"

text \<open>A stream digest binds the events. Two captured streams with the same digest in the same domain
  have the same hashed events, names and payloads in order, and the same count, unless the two hashed
  texts are a collision of the hash function. The text that is hashed never lets one event run into
  the next.\<close>

theorem stream_digest_binds:
  assumes "stream_digest L s1 domain x1 = Inr (d, n1)" and "stream_digest L s2 domain x2 = Inr (d, n2)"
  shows "\<exists>b1 b2 t1 t2. captured_events s1 = Some (b1 @ t1) \<and> captured_events s2 = Some (b2 @ t2) \<and>
    length t1 = 2 \<and> length t2 = 2 \<and> n1 = length b1 \<and> n2 = length b2 \<and>
    (b1 = b2 \<or> collision L (concat (map (hash_line domain) b1)) (concat (map (hash_line domain) b2)))"
proof -
  from assms(1) obtain b1 r1 f1 where b1: "captured_events s1 = Some (b1 @ [r1, f1])"
    "list_all (hashable L domain) b1" "d = rl_sha256 L (concat (map (hash_line domain) b1))" "n1 = length b1"
    unfolding stream_digest_Inr_iff accepted_as_def by blast
  from assms(2) obtain b2 r2 f2 where b2: "captured_events s2 = Some (b2 @ [r2, f2])"
    "list_all (hashable L domain) b2" "d = rl_sha256 L (concat (map (hash_line domain) b2))" "n2 = length b2"
    unfolding stream_digest_Inr_iff accepted_as_def by blast
  have "LF \<notin> set (ce_name ev) \<and> LF \<notin> set (ce_payload ev)" if "ev \<in> set b1 \<union> set b2" for ev
    using that captured_events_LF_free [OF b1(1), of ev] captured_events_LF_free [OF b2(1), of ev] by auto
  then have "b1 = b2 \<or> collision L (concat (map (hash_line domain) b1)) (concat (map (hash_line domain) b2))"
    using hash_lines_inj [of domain b1 b2 L] b1 b2 by (auto simp: collision_def)
  with b1 b2 show ?thesis
    by (intro exI [of _ b1] exI [of _ b2] exI [of _ "[r1, f1]"] exI [of _ "[r2, f2]"]) simp
qed

text \<open>A short captured stream: one data event, the receipt, the end marker.\<close>

definition example_receipt :: json where
  "example_receipt = obj [(''protected'', JString ''HEAD'')]"

definition example_frame_libs :: receipt_libs where
  "example_frame_libs = example_receipt_libs
     [(''receipt'', RawMap [(''inference_receipt'', RawMap [(''protected'', RawStr ''HEAD'')])])]"

definition example_stream :: string where
  "example_stream = ''data: hello'' @ lf_end @ ''data: receipt'' @ crlf_end @ ''data: [DONE]'' @ lf_end"

definition data_event :: "string \<Rightarrow> captured_event" where
  "data_event p = \<lparr>ce_name = [], ce_payload = p, ce_done = (p = ''[DONE]'')\<rparr>"

lemma example_stream_events:
  "captured_events example_stream = Some ([data_event ''hello''] @ [data_event ''receipt'', data_event ''[DONE]''])"
  by code_simp

lemma example_embedded:
  "embedded_receipt example_frame_libs ''hello'' = Inr None"
  "embedded_receipt example_frame_libs ''receipt'' = Inr (Some example_receipt)"
  by (simp_all add: embedded_receipt_def load_json_def example_frame_libs_def example_receipt_libs_def
      example_receipt_def obj_def)

theorem stream_digest_binds_witness:
  "\<exists>b1 b2 t1 t2. captured_events example_stream = Some (b1 @ t1) \<and>
     captured_events example_stream = Some (b2 @ t2) \<and>
     length t1 = 2 \<and> length t2 = 2 \<and> 1 = length b1 \<and> 1 = length b2 \<and>
     (b1 = b2 \<or> collision example_frame_libs
        (concat (map (hash_line ''sse-data-v1'') b1)) (concat (map (hash_line ''sse-data-v1'') b2)))"
proof -
  have d: "stream_digest example_frame_libs example_stream ''sse-data-v1'' (Some example_receipt) =
      Inr (rl_sha256 example_frame_libs (''hello'' @ [LF]), 1)"
    unfolding stream_digest_Inr_iff example_stream_events accepted_as_def
    by (rule exI [of _ "[data_event ''hello'', data_event ''receipt'', data_event ''[DONE]'']"],
        rule exI [of _ "[data_event ''hello'']"])
      (simp add: hashable_def hash_line_def example_embedded data_event_def)
  from stream_digest_binds [OF d d] show ?thesis .
qed

fun chunk_of :: "'e stream_poll \<Rightarrow> string" where
  "chunk_of (ReadyChunk c) = c"
| "chunk_of _ = []"

lemma capture_poll_step:
  assumes "cp_receipt c = last_opt (receipts_in L (cp_wire c))"
  shows "snd (capture_poll L item c) =
    \<lparr>cp_wire = cp_wire c @ chunk_of item, cp_receipt = last_opt (receipts_in L (cp_wire c @ chunk_of item))\<rparr>"
proof (cases item)
  case (ReadyChunk chunk)
  have "receipts_in L (cp_wire c @ chunk) =
      receipts_in L (cp_wire c) @ List.map_filter (frame_receipt L) (fst (sse_frames (snd (sse_frames (cp_wire c)) @ chunk)))"
    unfolding receipts_in_def by (subst sse_frames_append) (simp add: List.map_filter_def)
  then have "opt_or (last_opt (receipts_in L (cp_wire c @ chunk))) (last_opt (receipts_in L (cp_wire c))) =
      last_opt (receipts_in L (cp_wire c @ chunk))"
    by (simp add: last_opt_def)
  moreover have "snd (capture_poll L (ReadyChunk chunk) c) =
      \<lparr>cp_wire = cp_wire c @ chunk, cp_receipt = opt_or (last_opt (receipts_in L (cp_wire c @ chunk))) (cp_receipt c)\<rparr>"
    by (cases c) (simp add: capture_poll_def refresh_receipt_def refresh_loop_frames fold_note_frame receipts_in_def)
  ultimately show ?thesis using ReadyChunk assms by simp
qed (simp_all add: capture_poll_def assms [symmetric])

definition capture_run :: "receipt_libs \<Rightarrow> 'e stream_poll list \<Rightarrow> capture" where
  "capture_run L items = fold (\<lambda>item c. snd (capture_poll L item c)) items capture_new"

lemma capture_run_eq:
  "capture_run L items =
     \<lparr>cp_wire = concat (map chunk_of items), cp_receipt = last_opt (receipts_in L (concat (map chunk_of items)))\<rparr>"
proof (induction items rule: rev_induct)
  case Nil
  show ?case by (simp add: capture_run_def capture_new_def receipts_in_def List.map_filter_def last_opt_def)
next
  case (snoc item items)
  have "capture_run L (items @ [item]) = snd (capture_poll L item (capture_run L items))"
    by (simp add: capture_run_def)
  with capture_poll_step [of "capture_run L items" L item] show ?case by (simp add: snoc.IH)
qed

text \<open>C25: Capturing is transparent and independent of chunking. Wrapping a byte stream hands every item
  on unchanged; after any sequence of polls the captured bytes are the chunks put together, and the
  captured receipt is that of the last receipt event among the complete events of those bytes,
  however the bytes were cut into chunks.\<close>

theorem capture_exact:
  "fst (capture_poll L item c) = item \<and>
   cp_wire (capture_run L items) = concat (map chunk_of items) \<and>
   cp_receipt (capture_run L items) = last_opt (receipts_in L (concat (map chunk_of items)))"
  unfolding capture_run_eq by (simp add: capture_poll_def split: stream_poll.split)

end
