(* ===== verification/TR_Receipts.thy ===== *)
theory TR_Receipts
  imports TR_Capture
begin

text \<open>
  Verification of a signed inference receipt (\<open>receipts.rs\<close>: \<open>verify_receipt_with\<close> and the helpers it
  calls). The ordered checks of the function are definitions of their own, composed in the order of
  the code; every early return is an error value. The Google attestation check is an argument, as it is
  in the code; the clock of the machine is an argument as well.
\<close>

section \<open>Options and claims\<close>

record receipt_options =
  ro_request_body :: "string option"
  ro_response_body :: "string option"
  ro_response_stream :: "string option"
  ro_expected_nonce :: "string option"
  ro_max_age_seconds :: "nat option"
  ro_now :: "int option"
  ro_attestation :: "string option"
  ro_require_attestation :: bool
  ro_require_bindings :: bool

definition default_receipt_options :: receipt_options where
  "default_receipt_options =
     \<lparr>ro_request_body = None, ro_response_body = None, ro_response_stream = None, ro_expected_nonce = None,
      ro_max_age_seconds = None, ro_now = None, ro_attestation = None,
      ro_require_attestation = True, ro_require_bindings = True\<rparr>"

record receipt_hash_claims =
  rh_alg :: string
  rh_hash :: string
  rh_of :: string
  rh_events :: "nat option"

record receipt_model_claims =
  rm_requested :: string
  rm_selected :: string
  rm_provider :: string
  rm_endpoint :: string

record receipt_upstream_claims =
  ru_tier :: string
  ru_policy :: "string option"
  ru_verified_at :: "int option"
  ru_verification_expires_at :: "int option"
  ru_cert_sha256 :: "string option"

datatype attestation_verdict = Verified | UnverifiedByThisSdk

record receipt_claims =
  rc_rv :: int
  rc_iss :: string
  rc_iat :: int
  rc_jti :: string
  rc_gen :: "string option"
  rc_nonce :: "string option"
  rc_route :: string
  rc_req :: receipt_hash_claims
  rc_resp :: receipt_hash_claims
  rc_model :: receipt_model_claims
  rc_upstream :: receipt_upstream_claims
  rc_att_sha256 :: "string option"
  rc_attestation_status :: attestation_verdict

section \<open>The checks in order\<close>

definition require_traffic_bindings :: "receipt_options \<Rightarrow> receipt_error + unit" where
  "require_traffic_bindings options =
     (if \<not> ro_require_bindings options then Inr ()
      else
        (let missing_request = (ro_request_body options = None);
             missing_response = (ro_response_body options = None \<and> ro_response_stream options = None)
         in if missing_request \<and> missing_response
            then Inl (RMissingBinding ''receipt binding check failed: missing request_body and response_body or response_stream'')
            else if missing_request then Inl (RMissingBinding ''receipt binding check failed: missing request_body'')
            else if missing_response
            then Inl (RMissingBinding ''receipt binding check failed: missing response_body or response_stream'')
            else Inr ()))"

text \<open>Signed 64-bit arithmetic.\<close>

definition i64_saturating_add :: "int \<Rightarrow> int \<Rightarrow> int" where
  "i64_saturating_add a b = max i64_min (min i64_max (a + b))"

definition i64_checked_sub :: "int \<Rightarrow> int \<Rightarrow> int option" where
  "i64_checked_sub a b = (if i64_min \<le> a - b \<and> a - b \<le> i64_max then Some (a - b) else None)"

definition u64_try_from :: "int \<Rightarrow> nat option" where
  "u64_try_from i = (if 0 \<le> i then Some (nat i) else None)"

definition show_int :: "int \<Rightarrow> string" where
  "show_int i = (if i < 0 then ''-'' @ show_nat (nat (- i)) else show_nat (nat i))"

text \<open>The clock gives the seconds since the epoch, or the text of a clock error.\<close>

definition current_time :: "string + nat \<Rightarrow> receipt_error + int" where
  "current_time clock =
     and_then (map_err RTime clock) (\<lambda>secs.
       if int secs \<le> i64_max then Inr (int secs)
       else Inl (RTime ''current Unix time does not fit in i64''))"

definition check_time :: "string + nat \<Rightarrow> receipt_options \<Rightarrow> jobject \<Rightarrow> receipt_error + int" where
  "check_time clock options claims =
     and_then (integer (field claims ''iat'') ''iat claim'' RTime) (\<lambda>iat.
     and_then (case ro_now options of Some v \<Rightarrow> Inr v | None \<Rightarrow> current_time clock) (\<lambda>now.
     and_then (ensure (\<not> i64_saturating_add now 60 < iat)
         (RTime (''iat future-skew check failed: iat='' @ show_int iat @ '' is more than 60 seconds after now='' @ show_int now)))
       (\<lambda>_.
         case ro_max_age_seconds options of
           None \<Rightarrow> Inr iat
         | Some max_age \<Rightarrow>
             (let age = Option.bind (i64_checked_sub now iat) u64_try_from
              in if is_some_and (\<lambda>a. max_age < a) age
                 then Inl (RTime (''iat max-age check failed: receipt age '' @ show_nat (unwrap_or 0 age) @
                   ''s exceeds '' @ show_nat max_age @ ''s''))
                 else Inr iat))))"

definition check_issuer :: "receipt_libs \<Rightarrow> string \<Rightarrow> jobject \<Rightarrow> receipt_error + string" where
  "check_issuer L canonical_expected claims =
     and_then (required_string claims ''iss'' ''claims'') (\<lambda>iss.
     and_then (canonical_https_origin L iss ''iss claim'') (\<lambda>canonical.
     and_then (ensure (safe_equal canonical canonical_expected)
         (RIssuer (''iss claim check failed: expected '' @ rl_debug L canonical_expected @ '', got '' @ rl_debug L canonical)))
       (\<lambda>_. Inr iss)))"

definition check_route :: "receipt_libs \<Rightarrow> jobject \<Rightarrow> receipt_error + string" where
  "check_route L claims =
     and_then (required_string claims ''route'' ''claims'') (\<lambda>route.
     and_then (ensure (route = ''chat.completions'' \<or> route = ''responses'')
         (RClaims (''route claim check failed: unsupported route '' @ rl_debug L route))) (\<lambda>_. Inr route))"

definition check_model :: "jobject \<Rightarrow> receipt_error + receipt_model_claims" where
  "check_model claims =
     and_then (required_object claims ''model'' RClaims) (\<lambda>raw.
     and_then (required_string raw ''requested'' ''model'') (\<lambda>requested.
     and_then (required_string raw ''selected'' ''model'') (\<lambda>selected.
     and_then (required_string raw ''provider'' ''model'') (\<lambda>provider.
     and_then (required_string raw ''endpoint'' ''model'') (\<lambda>endpoint.
       Inr \<lparr>rm_requested = requested, rm_selected = selected, rm_provider = provider, rm_endpoint = endpoint\<rparr>)))))"

definition check_att_pin :: "receipt_libs \<Rightarrow> jws_envelope \<Rightarrow> jobject \<Rightarrow> receipt_error + string option" where
  "check_att_pin L envelope claims =
     and_then (optional_string claims ''att_sha256'' ''claims'') (\<lambda>pin.
     and_then
       (case pin of
          None \<Rightarrow> Inr ()
        | Some encoded \<Rightarrow>
            and_then (map_err (\<lambda>e. RClaims (receipt_error_text e)) (decode_b64 L encoded ''att_sha256 claim'')) (\<lambda>decoded.
              ensure (length decoded = 32)
                (RClaims ''att_sha256 claim check failed: SHA-256 digest must be 32 bytes''))) (\<lambda>_.
     and_then (ensure (\<not> (\<not> je_flattened envelope \<and> pin = None))
         (RClaims ''att_sha256 claim check failed: compact receipts must pin an attestation document'')) (\<lambda>_.
       Inr pin)))"

definition debug_opt :: "receipt_libs \<Rightarrow> string option \<Rightarrow> string" where
  "debug_opt L x = (case x of None \<Rightarrow> ''None'' | Some s \<Rightarrow> ''Some('' @ rl_debug L s @ '')'')"

definition check_nonce :: "receipt_libs \<Rightarrow> receipt_options \<Rightarrow> jobject \<Rightarrow> receipt_error + string option" where
  "check_nonce L options claims =
     and_then (optional_nonce claims) (\<lambda>nonce.
       case ro_expected_nonce options of
         None \<Rightarrow> Inr nonce
       | Some expected \<Rightarrow>
           if is_none_or (\<lambda>actual. \<not> safe_equal actual expected) nonce
           then Inl (RNonce (''nonce match check failed: expected '' @ rl_debug L expected @ '', got '' @ debug_opt L nonce))
           else Inr nonce)"

definition check_window :: "receipt_libs \<Rightarrow> int \<Rightarrow> jobject \<Rightarrow> receipt_error + (int option \<times> int option)" where
  "check_window L iat raw =
     (let tier = field_str raw ''tier''
      in if tier = Some ''tee-verified'' then
           and_then (integer (field raw ''verified_at'') ''upstream.verified_at'' RUpstream) (\<lambda>verified_at.
           and_then (integer (field raw ''verification_expires_at'') ''upstream.verification_expires_at'' RUpstream) (\<lambda>expires_at.
           and_then (ensure (verified_at \<le> iat \<and> iat < expires_at)
               (RUpstream ''tee-verified window check failed: expected verified_at <= iat < verification_expires_at'')) (\<lambda>_.
             Inr (Some verified_at, Some expires_at))))
         else if tier = Some ''tls-webpki'' then Inr (None, None)
         else Inl (RUpstream (''upstream.tier check failed: unsupported tier '' @ display_value L (field raw ''tier''))))"

definition check_upstream :: "receipt_libs \<Rightarrow> int \<Rightarrow> jobject \<Rightarrow> receipt_error + receipt_upstream_claims" where
  "check_upstream L iat claims =
     and_then (required_object claims ''upstream'' RUpstream) (\<lambda>raw.
     and_then (check_window L iat raw) (\<lambda>(verified_at, expires_at).
     and_then (optional_string raw ''policy'' ''upstream'') (\<lambda>policy.
     and_then (ensure (\<not> (field_str raw ''tier'' = Some ''tee-verified'' \<and> policy = None))
         (RUpstream ''upstream.policy check failed: tee-verified receipts require a policy'')) (\<lambda>_.
     and_then (optional_string raw ''cert_sha256'' ''upstream'') (\<lambda>cert.
       Inr \<lparr>ru_tier = unwrap_or [] (field_str raw ''tier''), ru_policy = policy, ru_verified_at = verified_at,
            ru_verification_expires_at = expires_at, ru_cert_sha256 = cert\<rparr>)))))"

section \<open>Digest claims\<close>

definition sse_domain :: "string \<Rightarrow> bool" where
  "sse_domain d \<longleftrightarrow> d = ''sse-data-v1'' \<or> d = ''sse-events-v1''"

definition events_claim :: "string \<Rightarrow> bool \<Rightarrow> string \<Rightarrow> json option \<Rightarrow> receipt_error + nat option" where
  "events_claim name response domain v =
     (if (v = None \<or> v = Some JNull) \<and> domain = ''body'' then Inr None
      else if v \<noteq> None \<and> response \<and> domain \<noteq> ''body'' then
        and_then (ok_or (Option.bind v as_u64)
            (RHash (name @ ''.events check failed: value must be a non-negative integer''))) (\<lambda>n. Inr (Some n))
      else if v = None \<and> response \<and> domain \<noteq> ''body'' then Inr None
      else Inl (RHash (name @ ''.events check failed: body receipts must omit events'')))"

definition digest_claim :: "receipt_libs \<Rightarrow> jobject \<Rightarrow> string \<Rightarrow> bool \<Rightarrow> receipt_error + receipt_hash_claims" where
  "digest_claim L m name response =
     and_then (ensure (field_str m ''alg'' = Some ''sha256'')
         (RHash (name @ ''.alg check failed: expected 'sha256', got '' @ display_value L (field m ''alg'')))) (\<lambda>_.
     and_then (ok_or (field_str m ''hash'') (RHash (name @ ''.hash check failed: required string is missing''))) (\<lambda>encoded.
     and_then (hash_bytes L encoded (name @ ''.hash'')) (\<lambda>digest.
     and_then (ensure (length digest = 32) (RHash (name @ ''.hash check failed: SHA-256 digest must be 32 bytes''))) (\<lambda>_.
       let domain = unwrap_or [] (field_str m ''of'')
       in and_then (ensure (domain = ''body'' \<or> response \<and> sse_domain domain)
              (RHash (name @ ''.of check failed: unsupported hash domain '' @ display_value L (field m ''of'')))) (\<lambda>_.
          and_then (events_claim name response domain (field m ''events'')) (\<lambda>events.
            Inr \<lparr>rh_alg = ''sha256'', rh_hash = encoded, rh_of = domain, rh_events = events\<rparr>))))))"

definition check_request :: "receipt_libs \<Rightarrow> receipt_options \<Rightarrow> jobject \<Rightarrow> receipt_error + receipt_hash_claims" where
  "check_request L options claims =
     and_then (required_object claims ''req'' RHash) (\<lambda>raw.
     and_then (digest_claim L raw ''req'' False) (\<lambda>req.
       case ro_request_body options of
         None \<Rightarrow> Inr req
       | Some body \<Rightarrow>
           and_then (hash_bytes L (rh_hash req) ''req.hash'') (\<lambda>expected.
           and_then (ensure (safe_equal (rl_sha256 L body) expected)
               (RHash ''request body hash check failed: req.hash does not match'')) (\<lambda>_. Inr req))))"

definition check_response ::
    "receipt_libs \<Rightarrow> receipt_options \<Rightarrow> jws_envelope \<Rightarrow> jobject \<Rightarrow> receipt_error + receipt_hash_claims" where
  "check_response L options envelope claims =
     and_then (required_object claims ''resp'' RHash) (\<lambda>raw.
     and_then (digest_claim L raw ''resp'' True) (\<lambda>resp.
     and_then (ensure (\<not> (ro_response_body options \<noteq> None \<and> ro_response_stream options \<noteq> None))
         (RHash ''response hash check failed: provide response_body or response_stream, not both'')) (\<lambda>_.
     and_then (hash_bytes L (rh_hash resp) ''resp.hash'') (\<lambda>expected.
       case ro_response_body options of
         Some body \<Rightarrow>
           and_then (ensure (rh_of resp = ''body'')
               (RHash (''response body hash check failed: resp.of is '' @ rl_debug L (rh_of resp) @ '', expected '' @ [CHR 0x27] @ ''body'' @ [CHR 0x27])))
             (\<lambda>_.
           and_then (ensure (safe_equal (rl_sha256 L body) expected)
               (RHash ''response body hash check failed: resp.hash does not match'')) (\<lambda>_. Inr resp))
       | None \<Rightarrow>
           (case ro_response_stream options of
              None \<Rightarrow> Inr resp
            | Some stream \<Rightarrow>
                and_then (ensure (sse_domain (rh_of resp))
                    (RHash (''response stream hash check failed: resp.of is '' @ rl_debug L (rh_of resp) @
                      '', expected an SSE domain''))) (\<lambda>_.
                and_then (stream_digest L stream (rh_of resp) (je_flattened_value envelope)) (\<lambda>(actual, events).
                and_then (ensure (safe_equal actual expected)
                    (RHash ''response stream hash check failed: resp.hash does not match'')) (\<lambda>_.
                and_then (ensure (\<not> is_some_and (\<lambda>claimed. claimed \<noteq> events) (rh_events resp))
                    (RHash (''response stream events check failed: counted '' @ show_nat events @
                      '', receipt claims '' @ show_nat (unwrap_or 0 (rh_events resp))))) (\<lambda>_. Inr resp)))))))))"

section \<open>Attestation evidence\<close>

definition KEY_COMMITMENT_DOMAIN :: string where
  "KEY_COMMITMENT_DOMAIN = ''inference-receipt-key-v1'' @ [CHR 0x00]"

definition key_commitment :: "receipt_libs \<Rightarrow> string \<Rightarrow> string" where
  "key_commitment L public_key = rl_sha256 L (KEY_COMMITMENT_DOMAIN @ public_key)"

definition attestation_kind :: "receipt_libs \<Rightarrow> jobject \<Rightarrow> receipt_error + unit" where
  "attestation_kind L header =
     (let kind = field header ''att_kind''
      in case Option.bind kind as_str of
           None \<Rightarrow> Inl (RMissingAttestation ''attestation check failed: flattened receipt has no att_kind'')
         | Some k \<Rightarrow>
             if k = ''aws-nitro-cose'' \<or> k = ''azure-maa-jwt''
             then Inl (RUnsupportedAttestation (''attestation kind check failed: '' @ display_value L kind @
               '' is not supported by this SDK''))
             else if k = ''gcp-cs-jwt'' then Inr ()
             else Inl (RUnsupportedAttestation (''attestation kind check failed: unsupported att_kind '' @ display_value L kind)))"

definition attestation_status ::
    "receipt_libs \<Rightarrow> jws_envelope \<Rightarrow> parsed_header \<Rightarrow> string option \<Rightarrow> string option \<Rightarrow> bool \<Rightarrow>
     (string \<Rightarrow> receipt_error + unit) \<Rightarrow> receipt_error + attestation_verdict" where
  "attestation_status L envelope header supplied att_sha256 require verify_gcp =
     (if \<not> je_flattened envelope then
        (case supplied of
           None \<Rightarrow>
             if \<not> require then Inr UnverifiedByThisSdk
             else Inl (RMissingAttestation ''attestation check failed: compact receipts omit attestation evidence; obtain the pinned document or explicitly set require_attestation to false'')
         | Some attestation \<Rightarrow>
             and_then (ok_or att_sha256
                 (RMissingAttestation ''attestation check failed: compact receipt has no att_sha256 claim'')) (\<lambda>encoded.
             and_then (decode_b64 L encoded ''att_sha256 claim'') (\<lambda>expected.
             and_then (ensure (safe_equal (rl_sha256 L attestation) expected)
                 (RAttestation ''att_sha256 check failed: supplied attestation does not match the compact receipt'')) (\<lambda>_.
             and_then (verify_gcp attestation) (\<lambda>_. Inr Verified)))))
      else
        and_then (attestation_kind L (ph_value header)) (\<lambda>_.
        and_then (ok_or (opt_filter (\<lambda>v. v \<noteq> []) (field_str (ph_value header) ''att''))
            (RMissingAttestation ''attestation check failed: flattened receipt has no embedded att'')) (\<lambda>embedded.
        and_then (ensure (\<not> is_some_and (\<lambda>s. \<not> safe_equal s embedded) supplied)
            (RAttestation ''attestation check failed: supplied attestation does not match the flattened receipt's embedded attestation'')) (\<lambda>_.
        and_then (verify_gcp embedded) (\<lambda>_. Inr Verified)))))"

section \<open>The verifier\<close>

definition verify_receipt_claims ::
    "receipt_libs \<Rightarrow> string + nat \<Rightarrow> receipt_options \<Rightarrow> (string \<Rightarrow> string \<Rightarrow> receipt_error + unit) \<Rightarrow>
     string \<Rightarrow> jws_envelope \<Rightarrow> parsed_header \<Rightarrow> jobject \<Rightarrow> receipt_error + receipt_claims" where
  "verify_receipt_claims L clock options verify_gcp canonical_expected envelope header claims =
     and_then (ensure (Option.bind (field claims ''rv'') as_i64 = Some 1)
         (RClaims (''rv claim check failed: expected integer 1, got '' @ display_value L (field claims ''rv'')))) (\<lambda>_.
     and_then (check_issuer L canonical_expected claims) (\<lambda>iss.
     and_then (check_time clock options claims) (\<lambda>iat.
     and_then (required_string claims ''jti'' ''claims'') (\<lambda>jti.
     and_then (optional_string claims ''gen'' ''claims'') (\<lambda>generation.
     and_then (check_route L claims) (\<lambda>route.
     and_then (check_model claims) (\<lambda>model.
     and_then (check_att_pin L envelope claims) (\<lambda>att_sha256.
     and_then (check_nonce L options claims) (\<lambda>nonce.
     and_then (check_upstream L iat claims) (\<lambda>upstream.
     and_then (check_request L options claims) (\<lambda>req.
     and_then (check_response L options envelope claims) (\<lambda>resp.
     and_then (attestation_status L envelope header (ro_attestation options) att_sha256
         (ro_require_attestation options)
         (\<lambda>attestation. verify_gcp attestation (key_commitment L (ph_public_key header)))) (\<lambda>status.
       Inr \<lparr>rc_rv = 1, rc_iss = iss, rc_iat = iat, rc_jti = jti, rc_gen = generation, rc_nonce = nonce,
            rc_route = route, rc_req = req, rc_resp = resp, rc_model = model, rc_upstream = upstream,
            rc_att_sha256 = att_sha256, rc_attestation_status = status\<rparr>)))))))))))))"

definition verify_receipt_with ::
    "receipt_libs \<Rightarrow> string + nat \<Rightarrow> (string \<Rightarrow> string \<Rightarrow> receipt_error + unit) \<Rightarrow>
     string \<Rightarrow> string \<Rightarrow> receipt_options \<Rightarrow> receipt_error + receipt_claims" where
  "verify_receipt_with L clock verify_gcp receipt expected_issuer options =
     and_then (require_traffic_bindings options) (\<lambda>_.
     and_then (canonical_https_origin L expected_issuer ''expected_issuer'') (\<lambda>canonical_expected.
     and_then (parse_envelope L receipt) (\<lambda>envelope.
     and_then (parse_header L envelope) (\<lambda>header.
     and_then (verify_signature L envelope (ph_public_key header)) (\<lambda>payload_bytes.
     and_then (load_json L payload_bytes ''receipt claims'') (\<lambda>payload.
     and_then (ok_or (as_object payload)
         (RClaims ''rv claim check failed: receipt claims must be a JSON object'')) (\<lambda>claims.
       verify_receipt_claims L clock options verify_gcp canonical_expected envelope header claims)))))))"

text \<open>\<open>ReceiptCapture::verify_with\<close>: the captured receipt against the captured bytes.\<close>

definition capture_verify_with ::
    "receipt_libs \<Rightarrow> string + nat \<Rightarrow> (string \<Rightarrow> string \<Rightarrow> receipt_error + unit) \<Rightarrow>
     capture \<Rightarrow> string \<Rightarrow> receipt_options \<Rightarrow> receipt_error + receipt_claims" where
  "capture_verify_with L clock verify_gcp c expected_issuer options =
     and_then (ok_or (cp_receipt c)
         (RStructure ''receipt capture check failed: no flattened receipt event has been captured'')) (\<lambda>receipt.
     and_then (ensure (ro_response_stream options = None)
         (RStructure ''ReceiptCapture::verify supplies response_stream from captured bytes'')) (\<lambda>_.
       verify_receipt_with L clock verify_gcp (rl_show L receipt) expected_issuer
         (options\<lparr>ro_response_stream := Some (cp_wire c)\<rparr>)))"

section \<open>Lemmas\<close>

lemma decode_b64_check: "decode_b64 L v check = Inr d \<longleftrightarrow> decode_b64 L v check' = Inr d"
  by (simp add: decode_b64_def Let_def result_simps)

lemma hash_bytes_Inr_iff: "hash_bytes L v check = Inr d \<longleftrightarrow> decode_b64 L v check = Inr d"
  by (simp add: hash_bytes_def result_simps)

lemma required_string_Inr_iff [result_simps]:
  "required_string m name family = Inr s \<longleftrightarrow> field m name = Some (JString s) \<and> s \<noteq> []"
  by (auto simp: required_string_def result_simps bind_eq_Some_conv)

lemma required_object_Inr_iff [result_simps]:
  "required_object m name err = Inr v \<longleftrightarrow> field m name = Some (JObject v)"
  by (auto simp: required_object_def result_simps bind_eq_Some_conv)

lemma optional_string_Inr_iff [result_simps]:
  "optional_string m name family = Inr s \<longleftrightarrow> field m name = map_option JString s \<and> s \<noteq> Some []"
  by (cases s) (auto simp: optional_string_def opt_filter_def split: option.splits if_splits)

lemma integer_Inr_iff [result_simps]:
  "integer v check err = Inr i \<longleftrightarrow> Option.bind v as_i64 = Some i"
  by (simp add: integer_def result_simps)

text \<open>A successful verification, taken apart along the checks.\<close>

lemma verify_receipt_claims_InrE:
  assumes "verify_receipt_claims L clock options gcp expected e h m = Inr c"
  obtains "Option.bind (field m ''rv'') as_i64 = Some 1" "rc_rv c = 1"
    and "check_issuer L expected m = Inr (rc_iss c)"
    and "check_time clock options m = Inr (rc_iat c)"
    and "field m ''jti'' = Some (JString (rc_jti c))"
    and "field m ''gen'' = map_option JString (rc_gen c)"
    and "check_route L m = Inr (rc_route c)" and "check_model m = Inr (rc_model c)"
    and "check_att_pin L e m = Inr (rc_att_sha256 c)"
    and "check_nonce L options m = Inr (rc_nonce c)"
    and "check_upstream L (rc_iat c) m = Inr (rc_upstream c)"
    and "check_request L options m = Inr (rc_req c)"
    and "check_response L options e m = Inr (rc_resp c)"
    and "attestation_status L e h (ro_attestation options) (rc_att_sha256 c) (ro_require_attestation options)
      (\<lambda>doc. gcp doc (key_commitment L (ph_public_key h))) = Inr (rc_attestation_status c)"
  using assms unfolding verify_receipt_claims_def and_then_Inr_iff ensure_Inr_iff
  by (elim exE conjE) (auto simp: result_simps)

lemma verify_receipt_with_InrE:
  assumes "verify_receipt_with L clock gcp receipt issuer options = Inr c"
  obtains e h payload m expected where "require_traffic_bindings options = Inr ()"
    and "canonical_https_origin L issuer ''expected_issuer'' = Inr expected"
    and "parse_envelope L receipt = Inr e" and "parse_header L e = Inr h"
    and "verify_signature L e (ph_public_key h) = Inr payload"
    and "load_json L payload ''receipt claims'' = Inr (JObject m)"
    and "verify_receipt_claims L clock options gcp expected e h m = Inr c"
  using assms unfolding verify_receipt_with_def and_then_Inr_iff ok_or_Inr_iff as_object_Some_iff
  by (elim exE conjE) auto

lemma check_issuer_Inr_iff:
  "check_issuer L expected m = Inr iss \<longleftrightarrow>
     field m ''iss'' = Some (JString iss) \<and> iss \<noteq> [] \<and> canonical_https_origin L iss ''iss claim'' = Inr expected"
  unfolding check_issuer_def result_simps by auto

lemma check_route_InrD:
  "check_route L m = Inr r \<Longrightarrow> field m ''route'' = Some (JString r) \<and> (r = ''chat.completions'' \<or> r = ''responses'')"
  unfolding check_route_def result_simps by auto

lemma check_nonce_InrD:
  assumes "check_nonce L options m = Inr nonce"
  shows "field m ''nonce'' = map_option JString nonce \<and>
    (case ro_expected_nonce options of None \<Rightarrow> True | Some n \<Rightarrow> nonce = Some n)"
proof -
  have n: "optional_nonce m = Inr n \<Longrightarrow> field m ''nonce'' = map_option JString n" for n
    by (auto simp: optional_nonce_def opt_filter_def split: option.splits if_splits)
  show ?thesis
    using assms n [of nonce] unfolding check_nonce_def and_then_Inr_iff
    by (cases "ro_expected_nonce options"; cases nonce) (auto split: if_splits)
qed

lemma check_model_InrD:
  assumes "check_model m = Inr r"
  obtains raw where "field m ''model'' = Some (JObject raw)"
    and "field raw ''requested'' = Some (JString (rm_requested r))"
    and "field raw ''selected'' = Some (JString (rm_selected r))"
    and "field raw ''provider'' = Some (JString (rm_provider r))"
    and "field raw ''endpoint'' = Some (JString (rm_endpoint r))"
  using assms unfolding check_model_def result_simps by auto

lemma digest_claim_InrD:
  assumes "digest_claim L m name response = Inr r"
  obtains d where "decode_b64 L (rh_hash r) (name @ ''.hash'') = Inr d" and "length d = 32"
    and "field m ''hash'' = Some (JString (rh_hash r))" and "rh_alg r = ''sha256''"
    and "rh_of r = ''body'' \<or> response \<and> sse_domain (rh_of r)"
  using assms unfolding digest_claim_def result_simps Let_def hash_bytes_Inr_iff
  by (auto simp: bind_eq_Some_conv)

lemma check_request_InrD:
  assumes "check_request L options m = Inr r" and "ro_request_body options = Some body"
  shows "rh_of r = ''body'' \<and> decode_b64 L (rh_hash r) ''req.hash'' = Inr (rl_sha256 L body) \<and>
    length (rl_sha256 L body) = 32"
proof -
  from assms obtain raw where "digest_claim L raw ''req'' False = Inr r"
    and h: "decode_b64 L (rh_hash r) ''req.hash'' = Inr (rl_sha256 L body)"
    unfolding check_request_def result_simps hash_bytes_Inr_iff by (auto simp: hash_bytes_Inr_iff result_simps)
  then show ?thesis
    by (elim digest_claim_InrD) (auto simp: decode_b64_check [of _ _ "''req'' @ ''.hash''" _ "''req.hash''"])
qed

lemma check_response_InrD:
  assumes "check_response L options e m = Inr r"
  obtains d where "decode_b64 L (rh_hash r) ''resp.hash'' = Inr d" and "length d = 32"
    and "ro_response_body options = None \<or> ro_response_stream options = None"
    and "\<And>body. ro_response_body options = Some body \<Longrightarrow> rh_of r = ''body'' \<and> d = rl_sha256 L body"
    and "\<And>stream. ro_response_stream options = Some stream \<Longrightarrow>
      sse_domain (rh_of r) \<and>
      (\<exists>n. stream_digest L stream (rh_of r) (je_flattened_value e) = Inr (d, n) \<and>
         is_none_or (\<lambda>claimed. claimed = n) (rh_events r))"
proof -
  from assms obtain raw d where dc: "digest_claim L raw ''resp'' True = Inr r"
    and d: "decode_b64 L (rh_hash r) ''resp.hash'' = Inr d"
    and one: "ro_response_body options = None \<or> ro_response_stream options = None"
    and body: "\<And>body. ro_response_body options = Some body \<Longrightarrow> rh_of r = ''body'' \<and> d = rl_sha256 L body"
    and stream: "\<And>stream. ro_response_stream options = Some stream \<Longrightarrow>
      sse_domain (rh_of r) \<and>
      (\<exists>n. stream_digest L stream (rh_of r) (je_flattened_value e) = Inr (d, n) \<and>
         is_none_or (\<lambda>claimed. claimed = n) (rh_events r))"
    unfolding check_response_def result_simps hash_bytes_Inr_iff
    by (cases "ro_response_body options"; cases "ro_response_stream options")
      (auto simp: result_simps is_none_or_def is_some_and_def split: option.splits)
  from dc have "length d = 32"
    by (elim digest_claim_InrD) (use d decode_b64_check [of L "rh_hash r" "''resp'' @ ''.hash''" _ "''resp.hash''"] in auto)
  with d one body stream that show thesis by blast
qed

lemma attestation_status_Inr_iff:
  "attestation_status L e h supplied pin require gcp = Inr status \<longleftrightarrow>
     (if je_flattened e
      then status = Verified \<and> field_str (ph_value h) ''att_kind'' = Some ''gcp-cs-jwt'' \<and>
        (\<exists>doc. field_str (ph_value h) ''att'' = Some doc \<and> doc \<noteq> [] \<and> is_none_or (\<lambda>s. s = doc) supplied \<and>
           gcp doc = Inr ())
      else
        (case supplied of
           None \<Rightarrow> status = UnverifiedByThisSdk \<and> \<not> require
         | Some doc \<Rightarrow> status = Verified \<and>
             (\<exists>encoded. pin = Some encoded \<and> decode_b64 L encoded ''att_sha256 claim'' = Inr (rl_sha256 L doc)) \<and>
             gcp doc = Inr ()))"
proof (cases "je_flattened e")
  case True
  have kind: "attestation_kind L m = Inr u \<longleftrightarrow> field_str m ''att_kind'' = Some ''gcp-cs-jwt''" for m u
    by (auto simp: attestation_kind_def Let_def split: option.splits)
  show ?thesis
    using True unfolding attestation_status_def result_simps kind
    by (cases supplied) (auto simp: result_simps kind)
next
  case False
  then show ?thesis
    unfolding attestation_status_def
    by (cases supplied) (auto simp: result_simps)
qed

lemma check_att_pin_compact:
  "check_att_pin L e m = Inr pin \<Longrightarrow> \<not> je_flattened e \<Longrightarrow> pin \<noteq> None"
  unfolding check_att_pin_def result_simps by auto

lemma check_upstream_window:
  assumes "check_upstream L iat m = Inr r" and "ru_tier r = ''tee-verified''"
  shows "\<exists>a b p. ru_verified_at r = Some a \<and> ru_verification_expires_at r = Some b \<and> a \<le> iat \<and> iat < b \<and>
    ru_policy r = Some p"
proof -
  from assms(1) obtain raw va ve policy cert where
    w: "check_window L iat raw = Inr (va, ve)" and p: "\<not> (field_str raw ''tier'' = Some ''tee-verified'' \<and> policy = None)"
    and r: "r = \<lparr>ru_tier = unwrap_or [] (field_str raw ''tier''), ru_policy = policy, ru_verified_at = va,
      ru_verification_expires_at = ve, ru_cert_sha256 = cert\<rparr>"
    unfolding check_upstream_def by (auto simp: and_then_Inr_iff ensure_Inr_iff)
  from assms(2) r have tier: "field_str raw ''tier'' = Some ''tee-verified''"
    by (cases "field_str raw ''tier''") auto
  with w obtain a b where "va = Some a" "ve = Some b" "a \<le> iat" "iat < b"
    unfolding check_window_def by (auto simp: Let_def result_simps)
  with p tier r show ?thesis by auto
qed

lemma require_traffic_bindings_Inr_iff:
  "require_traffic_bindings o1 = Inr u \<longleftrightarrow>
     (ro_require_bindings o1 \<longrightarrow> ro_request_body o1 \<noteq> None \<and>
        (ro_response_body o1 \<noteq> None \<or> ro_response_stream o1 \<noteq> None))"
  by (simp add: require_traffic_bindings_def Let_def)

section \<open>A receipt that verifies\<close>

definition example_key :: string where "example_key = replicate 32 CHR ''K''"

definition example_hash :: "string \<Rightarrow> raw_json" where
  "example_hash body = RawMap [(''alg'', RawStr ''sha256''), (''hash'', RawStr (example_digest body)), (''of'', RawStr ''body'')]"

definition example_claims :: raw_json where
  "example_claims = RawMap
     [(''rv'', RawU64 1), (''iss'', RawStr ''https://api.trustedrouter.com/''), (''iat'', RawU64 100),
      (''jti'', RawStr ''resp-1''), (''route'', RawStr ''chat.completions''),
      (''model'', RawMap [(''requested'', RawStr ''auto''), (''selected'', RawStr ''m''),
         (''provider'', RawStr ''p''), (''endpoint'', RawStr ''e'')]),
      (''att_sha256'', RawStr (example_digest ''doc'')), (''nonce'', RawStr ''n-1''),
      (''upstream'', RawMap [(''tier'', RawStr ''tee-verified''), (''verified_at'', RawU64 90),
         (''verification_expires_at'', RawU64 200), (''policy'', RawStr ''strict'')]),
      (''req'', example_hash ''ask''), (''resp'', example_hash ''answer'')]"

definition example_header :: raw_json where
  "example_header = RawMap
     [(''alg'', RawStr ''EdDSA''), (''typ'', RawStr RECEIPT_TYPE), (''kid'', RawStr example_key),
      (''jwk'', RawMap [(''kty'', RawStr ''OKP''), (''crv'', RawStr ''Ed25519''), (''x'', RawStr example_key)])]"

definition example_verifier_libs :: receipt_libs where
  "example_verifier_libs = example_receipt_libs [(''HEAD'', example_header), (''BODY'', example_claims)]"

definition example_compact :: string where
  "example_compact = ''HEAD.BODY.HEADBODY'' @ example_key"

definition example_options :: receipt_options where
  "example_options = default_receipt_options
     \<lparr>ro_request_body := Some ''ask'', ro_response_body := Some ''answer'', ro_expected_nonce := Some ''n-1'',
      ro_max_age_seconds := Some 60, ro_now := Some 120, ro_attestation := Some ''doc''\<rparr>"

definition example_gcp :: "string \<Rightarrow> string \<Rightarrow> receipt_error + unit" where
  "example_gcp doc commitment = (if doc = ''doc'' then Inr () else Inl (RAttestation ''unknown document''))"

definition example_verified :: "receipt_error + receipt_claims" where
  "example_verified =
     verify_receipt_with example_verifier_libs (Inr 0) example_gcp example_compact
       ''https://API.trustedrouter.com'' example_options"

lemma example_verified_ok: "is_ok example_verified"
  by code_simp

lemma example_verifiedE: obtains c where "example_verified = Inr c"
  using example_verified_ok by (auto simp: is_ok_def split: sum.splits)

section \<open>Properties\<close>





text \<open>Attestation is never skipped silently. A verified receipt either has the status verified, and
  then the evidence checker accepted a document for the commitment to exactly the signing key, the
  document being the one the signed payload pins by digest (compact) or the one embedded in the signed
  header (flattened); or it has the status unverified, and then it is compact, the caller gave no
  document and explicitly did not require one.\<close>

theorem receipt_attested:
  assumes "verify_receipt_with L clock gcp receipt issuer options = Inr c"
  shows "\<exists>e h. parse_envelope L receipt = Inr e \<and> parse_header L e = Inr h \<and>
    (rc_attestation_status c = Verified \<and>
      (\<exists>doc. gcp doc (rl_sha256 L (KEY_COMMITMENT_DOMAIN @ ph_public_key h)) = Inr () \<and>
         (if je_flattened e
          then field_str (ph_value h) ''att'' = Some doc \<and>
            field_str (ph_value h) ''att_kind'' = Some ''gcp-cs-jwt'' \<and>
            is_none_or (\<lambda>s. s = doc) (ro_attestation options)
          else ro_attestation options = Some doc \<and>
            (\<exists>pin. rc_att_sha256 c = Some pin \<and> decode_b64 L pin ''att_sha256 claim'' = Inr (rl_sha256 L doc)))) \<or>
     rc_attestation_status c = UnverifiedByThisSdk \<and> \<not> je_flattened e \<and> ro_attestation options = None \<and>
       \<not> ro_require_attestation options \<and> rc_att_sha256 c \<noteq> None)"
proof -
  from assms obtain e h m where e: "parse_envelope L receipt = Inr e" "parse_header L e = Inr h"
    and pin: "check_att_pin L e m = Inr (rc_att_sha256 c)"
    and st: "attestation_status L e h (ro_attestation options) (rc_att_sha256 c) (ro_require_attestation options)
      (\<lambda>doc. gcp doc (key_commitment L (ph_public_key h))) = Inr (rc_attestation_status c)"
    by (elim verify_receipt_with_InrE) (auto elim!: verify_receipt_claims_InrE)
  show ?thesis
  proof (intro exI conjI)
    show "parse_envelope L receipt = Inr e" "parse_header L e = Inr h" by fact+
  qed (use st check_att_pin_compact [OF pin] in
    \<open>auto simp: attestation_status_Inr_iff key_commitment_def split: if_splits option.splits\<close>)
qed

theorem receipt_attested_witness:
  "\<exists>c. example_verified = Inr c \<and> rc_attestation_status c = Verified"
proof -
  obtain c where c: "example_verified = Inr c" by (rule example_verifiedE)
  have "ro_attestation example_options \<noteq> None" by (simp add: example_options_def)
  with receipt_attested [OF c [unfolded example_verified_def]] c show ?thesis by blast
qed

text \<open>C38: The time window, exactly. For a 64-bit time now, an issue time is accepted exactly when it is at
  most 60 seconds ahead and, under a maximum age, the age does not exceed it; except that an age that
  does not fit into 63 bits is always accepted.\<close>

theorem check_time_window:
  assumes "ro_now options = Some now" and "i64_min \<le> now" and "now \<le> i64_max"
    and "Option.bind (field m ''iat'') as_i64 = Some iat" and "iat \<le> i64_max"
  shows "check_time clock options m = Inr iat \<longleftrightarrow>
    iat \<le> now + 60 \<and> is_none_or (\<lambda>age. now - iat \<le> int age \<or> i64_max < now - iat) (ro_max_age_seconds options)"
proof -
  have future: "i64_saturating_add now 60 < iat \<longleftrightarrow> now + 60 < iat"
    using assms by (auto simp: i64_saturating_add_def i64_min_def)
  have age: "is_some_and (\<lambda>a. limit < a) (Option.bind (i64_checked_sub now iat) u64_try_from) \<longleftrightarrow>
      \<not> (now - iat \<le> int limit \<or> i64_max < now - iat)" if "iat \<le> now + 60" for limit
    using assms that by (auto simp: i64_checked_sub_def u64_try_from_def i64_min_def is_some_and_def)
  show ?thesis
    using assms age
    by (auto simp: check_time_def integer_def future Let_def ensure_def is_none_or_def split: option.splits)
qed

theorem check_time_window_witness:
  "check_time (Inr 0) example_options (fmap_of_list [(''iat'', JNumber (PosInt 100))]) = Inr 100 \<longleftrightarrow>
     (100 :: int) \<le> 120 + 60 \<and>
     is_none_or (\<lambda>age. 120 - 100 \<le> int age \<or> i64_max < 120 - 100) (Some 60)"
proof -
  have o: "ro_now example_options = Some 120" "ro_max_age_seconds example_options = Some 60"
    by (simp_all add: example_options_def default_receipt_options_def)
  show ?thesis
    using check_time_window [OF o(1), of "fmap_of_list [(''iat'', JNumber (PosInt 100))]" 100 "Inr 0"]
    by (simp add: o(2) i64_min_def i64_max_def)
qed

text \<open>C39: The maximum age fails open on overflow. A receipt issued at the least 64-bit time passes every
  maximum age at every time from the epoch on, although it is the oldest receipt there can be.\<close>

theorem max_age_overflow:
  assumes "0 \<le> now" and "now \<le> i64_max"
  shows "check_time clock (default_receipt_options\<lparr>ro_max_age_seconds := Some limit, ro_now := Some now\<rparr>)
    (fmap_of_list [(''iat'', JNumber (NegInt i64_min))]) = Inr i64_min"
  using assms
  by (simp add: check_time_def integer_def i64_saturating_add_def i64_checked_sub_def i64_min_def i64_max_def)

theorem max_age_overflow_witness:
  "check_time (Inr 0) (default_receipt_options\<lparr>ro_max_age_seconds := Some 0, ro_now := Some 1800000000\<rparr>)
    (fmap_of_list [(''iat'', JNumber (NegInt i64_min))]) = Inr i64_min"
  by (rule max_age_overflow) (simp_all add: i64_max_def)

text \<open>C12: Verifying a captured stream verifies what passed through. When a capture that has seen any
  sequence of polls verifies, the bytes that passed through are completely cut into events: data events
  in the signed domain, then an event with the verified flattened receipt itself, then the end marker;
  and the signed response digest is the hash of those data events.\<close>

theorem captured_stream_verified:
  assumes "capture_verify_with L clock gcp (capture_run L items) issuer options = Inr c"
  shows "\<exists>receipt v body rec fin. last_opt (receipts_in L (concat (map chunk_of items))) = Some receipt \<and>
    load_json L (trim (rl_show L receipt)) ''JWS structure'' = Inr v \<and>
    captured_events (concat (map chunk_of items)) = Some (body @ [rec, fin]) \<and>
    list_all (hashable L (rh_of (rc_resp c))) body \<and> embedded_receipt L (ce_payload rec) = Inr (Some v) \<and>
    ce_done fin \<and>
    decode_b64 L (rh_hash (rc_resp c)) ''resp.hash'' =
      Inr (rl_sha256 L (concat (map (hash_line (rh_of (rc_resp c))) body))) \<and>
    is_none_or (\<lambda>claimed. claimed = length body) (rh_events (rc_resp c))"
proof -
  let ?wire = "concat (map chunk_of items)"
  let ?options = "options\<lparr>ro_response_stream := Some ?wire\<rparr>"
  from assms obtain receipt where r: "last_opt (receipts_in L ?wire) = Some receipt"
    and v: "verify_receipt_with L clock gcp (rl_show L receipt) issuer ?options = Inr c"
    unfolding capture_verify_with_def capture_run_eq by (auto simp: result_simps)
  from v obtain e m where e: "parse_envelope L (rl_show L receipt) = Inr e"
    and resp: "check_response L ?options e m = Inr (rc_resp c)"
    by (elim verify_receipt_with_InrE) (auto elim!: verify_receipt_claims_InrE)
  from resp obtain d n where d: "decode_b64 L (rh_hash (rc_resp c)) ''resp.hash'' = Inr d"
    "stream_digest L ?wire (rh_of (rc_resp c)) (je_flattened_value e) = Inr (d, n)"
    "is_none_or (\<lambda>claimed. claimed = n) (rh_events (rc_resp c))"
    by (elim check_response_InrD) auto
  then obtain body rec fin w where b: "captured_events ?wire = Some (body @ [rec, fin])"
    "list_all (hashable L (rh_of (rc_resp c))) body" "je_flattened_value e = Some w"
    "embedded_receipt L (ce_payload rec) = Inr (Some w)" "ce_done fin"
    "d = rl_sha256 L (concat (map (hash_line (rh_of (rc_resp c))) body))" "n = length body"
    unfolding stream_digest_Inr_iff accepted_as_def by blast
  from e b(3) have "load_json L (trim (rl_show L receipt)) ''JWS structure'' = Inr w"
    by (auto simp: parse_envelope_def Let_def and_then_Inr_iff flattened_envelope_Inr_iff split: if_splits)
  with r d b show ?thesis by blast
qed

text \<open>A flattened receipt captured at the end of its stream.\<close>

definition example_flat :: raw_json where
  "example_flat = RawMap [(''protected'', RawStr ''FLAT''), (''payload'', RawStr ''BOD2''),
     (''signature'', RawStr (''FLATBOD2'' @ example_key))]"

definition example_flat_header :: raw_json where
  "example_flat_header = RawMap
     [(''alg'', RawStr ''EdDSA''), (''typ'', RawStr RECEIPT_TYPE), (''kid'', RawStr example_key),
      (''att_kind'', RawStr ''gcp-cs-jwt''), (''att'', RawStr ''doc''),
      (''jwk'', RawMap [(''kty'', RawStr ''OKP''), (''crv'', RawStr ''Ed25519''), (''x'', RawStr example_key)])]"

definition example_stream_claims :: raw_json where
  "example_stream_claims = RawMap
     [(''rv'', RawU64 1), (''iss'', RawStr ''https://api.trustedrouter.com''), (''iat'', RawU64 100),
      (''jti'', RawStr ''resp-2''), (''route'', RawStr ''responses''),
      (''model'', RawMap [(''requested'', RawStr ''auto''), (''selected'', RawStr ''m''),
         (''provider'', RawStr ''p''), (''endpoint'', RawStr ''e'')]),
      (''upstream'', RawMap [(''tier'', RawStr ''tls-webpki'')]), (''req'', example_hash ''ask''),
      (''resp'', RawMap [(''alg'', RawStr ''sha256''), (''hash'', RawStr (example_digest (''hello'' @ [LF]))),
         (''of'', RawStr ''sse-data-v1''), (''events'', RawU64 1)])]"

definition example_capture_libs :: receipt_libs where
  "example_capture_libs = (example_receipt_libs
     [(''{flat}'', example_flat), (''receipt'', RawMap [(''inference_receipt'', example_flat)]),
      (''FLAT'', example_flat_header), (''BOD2'', example_stream_claims)])\<lparr>rl_show := (\<lambda>_. ''{flat}'')\<rparr>"

definition example_polls :: "unit stream_poll list" where
  "example_polls = [PollPending, ReadyChunk (take 20 example_stream), ReadyChunk (drop 20 example_stream), ReadyEnd]"

definition example_captured :: "receipt_error + receipt_claims" where
  "example_captured =
     capture_verify_with example_capture_libs (Inr 0) example_gcp (capture_run example_capture_libs example_polls)
       ''https://api.trustedrouter.com''
       (default_receipt_options\<lparr>ro_request_body := Some ''ask'', ro_now := Some 120\<rparr>)"

lemma example_captured_ok: "is_ok example_captured"
  by code_simp

theorem captured_stream_verified_witness:
  "\<exists>c body rec fin. example_captured = Inr c \<and>
     captured_events (concat (map chunk_of example_polls)) = Some (body @ [rec, fin]) \<and>
     list_all (hashable example_capture_libs (rh_of (rc_resp c))) body \<and> ce_done fin"
proof -
  obtain c where c: "example_captured = Inr c"
    using example_captured_ok by (auto simp: is_ok_def split: sum.splits)
  from captured_stream_verified [OF c [unfolded example_captured_def]] c show ?thesis by blast
qed

end
