(* ===== verification/TR_Attestation.thy ===== *)
theory TR_Attestation
  imports TR_Types TR_Identity
begin

text \<open>
  Google Confidential Space attestation (\<open>attestation.rs\<close>): policies and the trust release they come
  from, the signed token and its keys, the ordered checks on verified claims, and the two entry points
  that differ in what they compare with the caller's connection. RSA and JWT verification, SHA-256 and
  HTTP belong to other crates: they are the fields of \<open>attestation_env\<close>. The HTTP clients are values of
  the type parameter \<open>'c\<close>.
\<close>

section \<open>Policies\<close>

datatype attestation_binding = BindNone | BindTlsCert | BindTlsExporter

datatype attestation_binding_mode = LiveChannel | Document

definition GCP_ISSUER :: string where "GCP_ISSUER = ''https://confidentialcomputing.googleapis.com''"

definition GCP_JWKS_URL :: string where
  "GCP_JWKS_URL = ''https://www.googleapis.com/service_accounts/v1/metadata/jwk/signer@confidentialspace-sign.iam.gserviceaccount.com''"

definition EXPORTER_LENGTH :: nat where "EXPORTER_LENGTH = 32"

record attestation_policy =
  ap_audience :: string
  ap_expected_cert_sha256 :: "string option"
  ap_expected_image_digest :: "string option"
  ap_expected_image_digests :: "string list"
  ap_expected_image_reference :: "string option"
  ap_expected_image_references :: "string list"
  ap_allow_debug :: bool

definition has_pin :: "string option \<Rightarrow> string list \<Rightarrow> bool" where
  "has_pin single pins =
     (if pins = [] then is_some_and (\<lambda>v. v \<noteq> []) single else list_ex (\<lambda>v. v \<noteq> []) pins)"

definition pins_image_identity :: "attestation_policy \<Rightarrow> bool" where
  "pins_image_identity policy \<longleftrightarrow>
     has_pin (ap_expected_image_digest policy) (ap_expected_image_digests policy) \<or>
     has_pin (ap_expected_image_reference policy) (ap_expected_image_references policy)"

definition default_policy :: attestation_policy where
  "default_policy =
     \<lparr>ap_audience = ''quill-cloud'', ap_expected_cert_sha256 = None, ap_expected_image_digest = None,
      ap_expected_image_digests = [], ap_expected_image_reference = None,
      ap_expected_image_references = [], ap_allow_debug = False\<rparr>"

record trust_release_tls =
  tt_mode :: string
  tt_hostname :: string
  tt_extra :: jobject

record trust_release_data_policy =
  td_prompt_output_storage :: bool
  td_control_plane_prompt_access :: bool
  td_extra :: jobject

record trust_release =
  tr_platform :: string
  tr_source_repo :: string
  tr_source_repositories :: "(string, string) fmap"
  tr_source_commit :: string
  tr_image_reference :: string
  tr_accepted_image_references :: "string list"
  tr_image_digest :: string
  tr_accepted_image_digests :: "string list"
  tr_attestation_issuer :: string
  tr_attestation_audience :: string
  tr_api_base_url :: string
  tr_tls :: "trust_release_tls option"
  tr_data_policy :: "trust_release_data_policy option"
  tr_extra :: jobject

definition nonempty :: "string \<Rightarrow> string option" where
  "nonempty v = (if v \<noteq> [] then Some v else None)"

definition unpinned_release :: error where
  "unpinned_release = ErrAttestation ''trust release pins no image identity (none of image_digest, accepted_image_digests, image_reference, accepted_image_references); refusing to build a policy that would accept any Confidential Space workload''"

definition policy_from_trust_release :: "trust_release \<Rightarrow> string option \<Rightarrow> error + attestation_policy" where
  "policy_from_trust_release release cert_sha256 =
     (let policy =
        \<lparr>ap_audience = (if tr_attestation_audience release = [] then ''quill-cloud'' else tr_attestation_audience release),
         ap_expected_cert_sha256 = cert_sha256,
         ap_expected_image_digest = nonempty (tr_image_digest release),
         ap_expected_image_digests =
           (if tr_accepted_image_digests release = [] then the_list (nonempty (tr_image_digest release))
            else tr_accepted_image_digests release),
         ap_expected_image_reference = nonempty (tr_image_reference release),
         ap_expected_image_references =
           (if tr_accepted_image_references release = [] then the_list (nonempty (tr_image_reference release))
            else tr_accepted_image_references release),
         ap_allow_debug = False\<rparr>
      in if \<not> pins_image_identity policy then Inl unpinned_release else Inr policy)"

section \<open>Options, results and libraries\<close>

record 'c attestation_options =
  ao_policy :: attestation_policy
  ao_nonce_hex :: "string option"
  ao_tls_certificate_der :: "string option"
  ao_tls_exporter :: "string option"
  ao_jwks :: "json option"
  ao_jwks_url :: "string option"
  ao_http_client :: "'c option"

record gateway_attestation =
  ga_binding :: attestation_binding
  ga_cert_sha256 :: string
  ga_image_digest :: string
  ga_image_reference :: string
  ga_nonce :: "string option"
  ga_expires_at :: int
  ga_issuer :: string
  ga_audience :: string
  ga_raw_claims :: json

record 'c document_options =
  do_policy :: attestation_policy
  do_nonce_hex :: string
  do_jwks :: "json option"
  do_jwks_url :: "string option"
  do_http_client :: "'c option"

record gateway_document =
  gd_binding :: attestation_binding
  gd_cert_sha256_candidates :: "string list"
  gd_image_digest :: string
  gd_image_reference :: string
  gd_nonce :: string
  gd_expires_at :: int
  gd_issuer :: string
  gd_audience :: string
  gd_raw_claims :: json

text \<open>\<open>at_decode_header\<close> gives whether the algorithm is RS256 and the key identifier;
  \<open>at_decode\<close> verifies a token under an RSA key, an issuer, an audience and required claims;
  \<open>at_get\<close> sends a GET request and gives the status and the JSON of the body.\<close>

record 'c attestation_env =
  at_sha256 :: "string \<Rightarrow> string"
  at_decode_header :: "string \<Rightarrow> string + (bool \<times> string option)"
  at_rsa_key :: "string \<Rightarrow> string \<Rightarrow> string + unit"
  at_decode :: "string \<Rightarrow> string \<times> string \<Rightarrow> string \<Rightarrow> string \<Rightarrow> string list \<Rightarrow> string + json"
  at_build_client :: "string \<Rightarrow> string + 'c"
  at_get :: "'c \<Rightarrow> string \<Rightarrow> string + (nat \<times> (string + json))"
  at_status_text :: "nat \<Rightarrow> string"
  at_build :: build_env

section \<open>Helpers\<close>

definition safe_eq :: "string \<Rightarrow> string \<Rightarrow> bool" where
  "safe_eq l r \<longleftrightarrow> length l = length r \<and> l = r"

definition is_fresh_nonce_hex :: "string \<Rightarrow> bool" where
  "is_fresh_nonce_hex nonce \<longleftrightarrow>
     32 \<le> length nonce \<and> length nonce \<le> 128 \<and> 2 dvd length nonce \<and> list_all is_ascii_hexdigit nonce"

definition is_sha256_hex :: "string \<Rightarrow> bool" where
  "is_sha256_hex v \<longleftrightarrow> length v = 64 \<and> list_all is_ascii_hexdigit v"

definition candidate_values :: "json \<Rightarrow> json list" where
  "candidate_values claims =
     List.map_filter (\<lambda>name. jget name claims) [''tls_cert_sha256'', ''workload_tls_cert_sha256''] @
     (case jget ''eat_nonce'' claims of None \<Rightarrow> [] | Some v \<Rightarrow> (case as_array v of Some vs \<Rightarrow> vs | None \<Rightarrow> [v]))"

fun add_candidates :: "string \<Rightarrow> string list \<Rightarrow> json list \<Rightarrow> string list" where
  "add_candidates nonce candidates [] = candidates"
| "add_candidates nonce candidates (v # vs) =
     (case opt_filter is_sha256_hex (as_str v) of
        None \<Rightarrow> add_candidates nonce candidates vs
      | Some text \<Rightarrow>
          (let h = to_ascii_lowercase text
           in add_candidates nonce
                (if h \<noteq> nonce \<and> h \<notin> set candidates then candidates @ [h] else candidates) vs))"

definition cert_sha256_candidates :: "json \<Rightarrow> string \<Rightarrow> string list" where
  "cert_sha256_candidates claims nonce_hex =
     add_candidates (to_ascii_lowercase nonce_hex) [] (candidate_values claims)"

text \<open>\<open>Value::pointer\<close> along object members; an array has no member with such a name.\<close>

definition claim_at :: "json \<Rightarrow> string list \<Rightarrow> json option" where
  "claim_at claims path = fold (\<lambda>key v. Option.bind v (jget key)) path (Some claims)"

definition optional_claim_string :: "json \<Rightarrow> string list \<Rightarrow> error + string" where
  "optional_claim_string claims path =
     (case claim_at claims path of
        None \<Rightarrow> Inr []
      | Some v \<Rightarrow>
          ok_or (as_str v) (ErrAttestation (concat (map (\<lambda>k. ''/'' @ k) path) @ '' must be a string'')))"

fun strings_of :: "json list \<Rightarrow> error + string list" where
  "strings_of [] = Inr []"
| "strings_of (v # vs) =
     and_then (ok_or (as_str v) (ErrAttestation ''nonce must be a string'')) (\<lambda>s.
     and_then (strings_of vs) (\<lambda>ss. Inr (s # ss)))"

fun string_list :: "json \<Rightarrow> error + string list" where
  "string_list JNull = Inr []"
| "string_list (JString v) = Inr [v]"
| "string_list (JArray vs) = strings_of vs"
| "string_list _ = Inl (ErrAttestation ''nonces must be a string or string array'')"

definition require_equal :: "string \<Rightarrow> string \<Rightarrow> string option \<Rightarrow> error + unit" where
  "require_equal name actual expected =
     (case opt_filter (\<lambda>v. v \<noteq> []) expected of
        None \<Rightarrow> Inr ()
      | Some e \<Rightarrow> ensure (safe_eq actual e) (ErrAttestation (name @ '' pin mismatch'')))"

definition require_one_of :: "string \<Rightarrow> string \<Rightarrow> string list \<Rightarrow> error + unit" where
  "require_one_of name actual expected =
     (if expected \<noteq> [] \<and> \<not> list_ex (\<lambda>v. v \<noteq> [] \<and> safe_eq actual v) expected
      then Inl (ErrAttestation (name @ '' pin mismatch'')) else Inr ())"

section \<open>The signed token\<close>

definition fetch_jwks :: "'c attestation_env \<Rightarrow> 'c attestation_options \<Rightarrow> error + json" where
  "fetch_jwks E options =
     and_then
       (case ao_http_client options of
          Some client \<Rightarrow> Inr client
        | None \<Rightarrow>
            map_err (\<lambda>e. ErrAttestation (''cannot build JWKS HTTP client: '' @ e))
              (at_build_client E (sdk_user_agent (at_build E)))) (\<lambda>client.
     and_then (map_err (\<lambda>e. ErrAttestation (''JWKS fetch failed: '' @ e))
         (at_get E client (unwrap_or GCP_JWKS_URL (ao_jwks_url options)))) (\<lambda>(status, body).
     and_then (ensure (is_success status)
         (ErrAttestation (''JWKS fetch returned HTTP '' @ at_status_text E status))) (\<lambda>_.
       map_err (\<lambda>e. ErrAttestation (''invalid JWKS JSON: '' @ e)) body)))"

definition jwk_for :: "json \<Rightarrow> string \<Rightarrow> json option" where
  "jwk_for jwks kid =
     Option.bind (Option.bind (jget ''keys'' jwks) as_array) (find (\<lambda>key. jstr ''kid'' key = Some kid))"

definition verified_jwt_claims ::
    "'c attestation_env \<Rightarrow> string \<Rightarrow> 'c attestation_options \<Rightarrow> error + json" where
  "verified_jwt_claims E document options =
     and_then (map_err (\<lambda>e. ErrAttestation (''attestation is not ASCII JWT: '' @ e)) (from_utf8 document)) (\<lambda>text.
       let token = trim text in
     and_then (ensure (length (split_on CHR ''.'' token) = 3) (ErrAttestation ''expected three JWT segments'')) (\<lambda>_.
     and_then (map_err (\<lambda>e. ErrAttestation (''invalid JWT header: '' @ e)) (at_decode_header E token)) (\<lambda>(rs256, header_kid).
     and_then (ensure rs256 (ErrAttestation ''expected RS256 JWT'')) (\<lambda>_.
     and_then (ok_or header_kid (ErrAttestation ''JWT header is missing kid'')) (\<lambda>kid.
     and_then (case ao_jwks options of Some v \<Rightarrow> Inr v | None \<Rightarrow> fetch_jwks E options) (\<lambda>jwks.
     and_then (ok_or (jwk_for jwks kid) (ErrAttestation ''no JWK matches JWT kid'')) (\<lambda>key.
     and_then (ensure (jstr ''kty'' key = Some ''RSA'') (ErrAttestation ''attestation JWK is not RSA'')) (\<lambda>_.
     and_then (ok_or (jstr ''n'' key) (ErrAttestation ''JWK is missing modulus'')) (\<lambda>modulus.
     and_then (ok_or (jstr ''e'' key) (ErrAttestation ''JWK is missing exponent'')) (\<lambda>exponent.
     and_then (map_err (\<lambda>e. ErrAttestation (''malformed RSA JWK: '' @ e)) (at_rsa_key E modulus exponent)) (\<lambda>_.
       map_err (\<lambda>e. ErrAttestation (''JWT verification failed: '' @ e))
         (at_decode E token (modulus, exponent) GCP_ISSUER (ap_audience (ao_policy options))
           [''exp'', ''iss'', ''aud'']))))))))))))"

section \<open>Checks on verified claims\<close>

definition check_platform :: "attestation_policy \<Rightarrow> json \<Rightarrow> error + unit" where
  "check_platform policy claims =
     and_then (ensure (\<not> (\<not> ap_allow_debug policy \<and>
           \<not> is_some_and (\<lambda>v. eq_ignore_ascii_case v ''disabled-since-boot'') (jstr ''dbgstat'' claims)))
         (ErrAttestation ''debug state must be disabled-since-boot'')) (\<lambda>_.
     and_then (ensure (jstr ''swname'' claims = Some ''CONFIDENTIAL_SPACE'')
         (ErrAttestation ''workload is not Confidential Space'')) (\<lambda>_.
     and_then (ensure (Option.bind (jget ''secboot'' claims) as_bool = Some True)
         (ErrAttestation ''Secure Boot is not attested'')) (\<lambda>_.
       let hardware = unwrap_or [] (jstr ''hwmodel'' claims)
       in ensure (hardware \<in> set [''GCP_AMD_SEV'', ''GCP_AMD_SEV_ES'', ''GCP_INTEL_TDX''])
            (ErrAttestation (''unsupported confidential hardware: '' @ hardware)))))"

definition accepted_pins :: "string option \<Rightarrow> string list \<Rightarrow> string list" where
  "accepted_pins single pins = (if pins = [] then the_list single else pins)"

definition check_image :: "attestation_policy \<Rightarrow> string \<Rightarrow> string \<Rightarrow> error + unit" where
  "check_image policy digest ref =
     and_then (ensure (pins_image_identity policy)
         (ErrAttestation ''attestation policy pins no image identity; refusing to verify against a policy that cannot distinguish the gateway from any other workload'')) (\<lambda>_.
     and_then (require_one_of ''image digest'' digest
         (accepted_pins (ap_expected_image_digest policy) (ap_expected_image_digests policy))) (\<lambda>_.
       require_one_of ''image reference'' ref
         (accepted_pins (ap_expected_image_reference policy) (ap_expected_image_references policy))))"

definition check_bound_nonce ::
    "attestation_binding_mode \<Rightarrow> json \<Rightarrow> string list \<Rightarrow> string option \<Rightarrow> error + unit" where
  "check_bound_nonce mode claims nonces wanted =
     (case wanted of
        None \<Rightarrow> Inr ()
      | Some nonce \<Rightarrow>
          and_then
            (case mode of
               LiveChannel \<Rightarrow> Inr (list_ex (\<lambda>v. safe_eq v nonce) nonces)
             | Document \<Rightarrow>
                 and_then (string_list (unwrap_or JNull (jget ''eat_nonce'' claims))) (\<lambda>eat.
                   Inr (list_ex (\<lambda>v. safe_eq (to_ascii_lowercase v) (to_ascii_lowercase nonce)) eat)))
            (\<lambda>present. ensure present (ErrAttestation ''nonce is not bound in JWT'')))"

definition check_exporter :: "'c attestation_options \<Rightarrow> string list \<Rightarrow> error + unit" where
  "check_exporter options nonces =
     (case ao_tls_exporter options of
        None \<Rightarrow> Inr ()
      | Some exporter \<Rightarrow>
          and_then (ensure (length exporter = EXPORTER_LENGTH)
              (ErrAttestation (''TLS exporter must be '' @ show_nat EXPORTER_LENGTH @ '' bytes''))) (\<lambda>_.
          and_then (ok_or (ao_nonce_hex options) (ErrAttestation ''fresh nonce required with exporter'')) (\<lambda>nonce.
          and_then (ensure (\<not> safe_eq (to_ascii_lowercase nonce) (hex exporter))
              (ErrAttestation ''fresh nonce must differ from TLS exporter'')) (\<lambda>_.
            ensure (list_ex (\<lambda>v. safe_eq (to_ascii_lowercase v) (hex exporter)) nonces)
              (ErrAttestation ''TLS exporter is not bound in JWT'')))))"

definition committed_cert :: "json \<Rightarrow> string list \<Rightarrow> string option \<Rightarrow> string option" where
  "committed_cert claims nonces actual =
     opt_or
       (map_option to_ascii_lowercase
         (Option.bind (opt_or (jget ''tls_cert_sha256'' claims) (jget ''workload_tls_cert_sha256'' claims)) as_str))
       (opt_filter (\<lambda>a. list_ex (\<lambda>n. safe_eq (to_ascii_lowercase n) a) nonces) actual)"

definition check_cert ::
    "'c attestation_env \<Rightarrow> 'c attestation_options \<Rightarrow> json \<Rightarrow> string list \<Rightarrow> error + string" where
  "check_cert E options claims nonces =
     (let actual = map_option (\<lambda>der. hex (at_sha256 E der)) (ao_tls_certificate_der options)
      in and_then (ok_or (committed_cert claims nonces actual)
             (ErrAttestation
               (if ao_tls_certificate_der options \<noteq> None then ''JWT does not bind a TLS certificate''
                else ''JWT does not bind a TLS certificate; pass tls_certificate_der from this connection, or use verify_gateway_attestation_document for document-only verification''))) (\<lambda>cert.
         and_then (ensure (\<not> (length cert \<noteq> 64 \<or> \<not> list_all is_ascii_hexdigit cert))
             (ErrAttestation ''invalid TLS certificate commitment'')) (\<lambda>_.
         and_then (ensure (is_none_or (\<lambda>a. safe_eq a cert) actual)
             (ErrAttestation ''TLS certificate does not match JWT'')) (\<lambda>_.
         and_then (require_equal ''TLS certificate'' cert (ap_expected_cert_sha256 (ao_policy options))) (\<lambda>_.
           Inr cert)))))"

definition verify_claims ::
    "'c attestation_env \<Rightarrow> json \<Rightarrow> 'c attestation_options \<Rightarrow> attestation_binding_mode \<Rightarrow> error + gateway_attestation" where
  "verify_claims E claims options mode =
     and_then (check_platform (ao_policy options) claims) (\<lambda>_.
     and_then (optional_claim_string claims [''submods'', ''container'', ''image_digest'']) (\<lambda>image_digest.
     and_then (optional_claim_string claims [''submods'', ''container'', ''image_reference'']) (\<lambda>image_reference.
     and_then (ok_or (Option.bind (jget ''exp'' claims) as_i64) (ErrAttestation ''exp must be an integer'')) (\<lambda>expires_at.
     and_then (ok_or (jstr ''iss'' claims) (ErrAttestation ''iss must be a string'')) (\<lambda>issuer.
     and_then (check_image (ao_policy options) image_digest image_reference) (\<lambda>_.
     and_then (string_list (unwrap_or JNull (opt_or (jget ''eat_nonce'' claims) (jget ''nonces'' claims)))) (\<lambda>nonces.
     and_then (check_bound_nonce mode claims nonces (ao_nonce_hex options)) (\<lambda>_.
       let result =
         (\<lambda>binding cert. \<lparr>ga_binding = binding, ga_cert_sha256 = cert, ga_image_digest = image_digest,
            ga_image_reference = image_reference, ga_nonce = ao_nonce_hex options, ga_expires_at = expires_at,
            ga_issuer = issuer, ga_audience = ap_audience (ao_policy options), ga_raw_claims = claims\<rparr>)
       in if mode = Document then Inr (result BindNone [])
          else
            and_then (check_exporter options nonces) (\<lambda>_.
            and_then (check_cert E options claims nonces) (\<lambda>cert.
              Inr (result
                (if ao_tls_exporter options \<noteq> None then BindTlsExporter
                 else if ao_tls_certificate_der options \<noteq> None then BindTlsCert else BindNone) cert)))))))))))"

section \<open>Entry points\<close>

definition verify_gateway_attestation ::
    "'c attestation_env \<Rightarrow> string \<Rightarrow> 'c attestation_options \<Rightarrow> error + gateway_attestation" where
  "verify_gateway_attestation E document options =
     and_then (verified_jwt_claims E document options) (\<lambda>claims. verify_claims E claims options LiveChannel)"

definition verify_gateway_attestation_document ::
    "'c attestation_env \<Rightarrow> string \<Rightarrow> 'c document_options \<Rightarrow> error + gateway_document" where
  "verify_gateway_attestation_document E document d =
     and_then (ensure (is_fresh_nonce_hex (do_nonce_hex d))
         (ErrAttestation ''document verification requires a fresh nonce of 16 to 64 random bytes as hex'')) (\<lambda>_.
       let options = \<lparr>ao_policy = do_policy d, ao_nonce_hex = Some (do_nonce_hex d), ao_tls_certificate_der = None,
         ao_tls_exporter = None, ao_jwks = do_jwks d, ao_jwks_url = do_jwks_url d, ao_http_client = do_http_client d\<rparr>
       in and_then (verified_jwt_claims E document options) (\<lambda>claims.
          and_then (verify_claims E claims options Document) (\<lambda>verified.
            let nonce = unwrap_or [] (ga_nonce verified)
            in Inr \<lparr>gd_binding = BindNone,
                    gd_cert_sha256_candidates = cert_sha256_candidates (ga_raw_claims verified) nonce,
                    gd_image_digest = ga_image_digest verified, gd_image_reference = ga_image_reference verified,
                    gd_nonce = nonce, gd_expires_at = ga_expires_at verified, gd_issuer = ga_issuer verified,
                    gd_audience = ga_audience verified, gd_raw_claims = ga_raw_claims verified\<rparr>)))"

definition verify_receipt_key_attestation ::
    "'c attestation_env \<Rightarrow> string \<Rightarrow> 'c attestation_options \<Rightarrow> error + unit" where
  "verify_receipt_key_attestation E document options =
     and_then (ensure (ao_nonce_hex options \<noteq> None) (ErrAttestation ''receipt key commitment is required'')) (\<lambda>_.
     and_then (verified_jwt_claims E document options) (\<lambda>claims.
     and_then (verify_claims E claims options Document) (\<lambda>_. Inr ())))"

section \<open>Lemmas\<close>

lemma safe_eq_iff [simp]: "safe_eq l r \<longleftrightarrow> l = r"
  by (auto simp: safe_eq_def)

lemma has_pin_accepted: "has_pin single pins \<longleftrightarrow> (\<exists>v \<in> set (accepted_pins single pins). v \<noteq> [])"
  by (auto simp: has_pin_def accepted_pins_def the_list_def list_ex_iff is_some_and_iff split: option.splits)

lemma require_one_of_Inr_iff:
  "require_one_of name actual expected = Inr u \<longleftrightarrow> expected = [] \<or> actual \<noteq> [] \<and> actual \<in> set expected"
  by (auto simp: require_one_of_def list_ex_iff)

text \<open>A list of accepted pins that names a build.\<close>

definition pinned :: "string \<Rightarrow> string list \<Rightarrow> bool" where
  "pinned actual pins \<longleftrightarrow> actual \<noteq> [] \<and> actual \<in> set pins"

lemma check_image_Inr_iff:
  "check_image policy digest ref = Inr u \<longleftrightarrow>
     (let digests = accepted_pins (ap_expected_image_digest policy) (ap_expected_image_digests policy);
          refs = accepted_pins (ap_expected_image_reference policy) (ap_expected_image_references policy)
      in (digests = [] \<or> pinned digest digests) \<and> (refs = [] \<or> pinned ref refs) \<and>
         (pinned digest digests \<or> pinned ref refs))"
proof -
  have "(\<exists>v \<in> set digests. v \<noteq> []) \<or> (\<exists>v \<in> set refs. v \<noteq> []) \<longleftrightarrow> pinned digest digests \<or> pinned ref refs"
    if "digests = [] \<or> pinned digest digests" "refs = [] \<or> pinned ref refs" for digests refs
    using that by (auto simp: pinned_def)
  then show ?thesis
    unfolding check_image_def pins_image_identity_def has_pin_accepted
    by (auto simp: result_simps require_one_of_Inr_iff Let_def pinned_def)
qed

lemma strings_of_Inr_iff: "strings_of vs = Inr ss \<longleftrightarrow> vs = map JString ss"
  by (induction vs arbitrary: ss) (auto simp: result_simps)

lemma check_platform_InrD:
  "check_platform policy claims = Inr u \<Longrightarrow>
     jstr ''swname'' claims = Some ''CONFIDENTIAL_SPACE'' \<and> jget ''secboot'' claims = Some (JBool True) \<and>
     (ap_allow_debug policy \<or>
      (\<exists>v. jstr ''dbgstat'' claims = Some v \<and> eq_ignore_ascii_case v ''disabled-since-boot'')) \<and>
     (\<exists>hw. jstr ''hwmodel'' claims = Some hw \<and> hw \<in> set [''GCP_AMD_SEV'', ''GCP_AMD_SEV_ES'', ''GCP_INTEL_TDX''])"
  unfolding check_platform_def result_simps Let_def
  by (cases "jstr ''hwmodel'' claims") (auto simp: result_simps is_some_and_iff bind_eq_Some_conv)

lemma verify_claims_InrE:
  assumes "verify_claims E claims options mode = Inr a"
  obtains nonces where "check_platform (ao_policy options) claims = Inr ()"
    and "optional_claim_string claims [''submods'', ''container'', ''image_digest''] = Inr (ga_image_digest a)"
    and "optional_claim_string claims [''submods'', ''container'', ''image_reference''] = Inr (ga_image_reference a)"
    and "Option.bind (jget ''exp'' claims) as_i64 = Some (ga_expires_at a)"
    and "jstr ''iss'' claims = Some (ga_issuer a)"
    and "check_image (ao_policy options) (ga_image_digest a) (ga_image_reference a) = Inr ()"
    and "string_list (unwrap_or JNull (opt_or (jget ''eat_nonce'' claims) (jget ''nonces'' claims))) = Inr nonces"
    and "check_bound_nonce mode claims nonces (ao_nonce_hex options) = Inr ()"
    and "ga_raw_claims a = claims" and "ga_nonce a = ao_nonce_hex options"
    and "ga_audience a = ap_audience (ao_policy options)"
    and "mode = Document \<Longrightarrow> ga_binding a = BindNone \<and> ga_cert_sha256 a = []"
    and "mode = LiveChannel \<Longrightarrow> check_exporter options nonces = Inr () \<and>
      check_cert E options claims nonces = Inr (ga_cert_sha256 a) \<and>
      ga_binding a = (if ao_tls_exporter options \<noteq> None then BindTlsExporter
        else if ao_tls_certificate_der options \<noteq> None then BindTlsCert else BindNone)"
  using assms unfolding verify_claims_def and_then_Inr_iff
  by (elim exE conjE) (cases mode; auto simp: result_simps Let_def)

lemma verified_jwt_claims_InrE:
  assumes "verified_jwt_claims E document options = Inr claims"
  obtains kid jwks key modulus exponent where "at_decode_header E (trim document) = Inr (True, Some kid)"
    and "(case ao_jwks options of Some v \<Rightarrow> Inr v | None \<Rightarrow> fetch_jwks E options) = Inr jwks"
    and "jwk_for jwks kid = Some key" and "jstr ''kty'' key = Some ''RSA''"
    and "jstr ''n'' key = Some modulus" and "jstr ''e'' key = Some exponent"
    and "at_decode E (trim document) (modulus, exponent) GCP_ISSUER (ap_audience (ao_policy options))
      [''exp'', ''iss'', ''aud''] = Inr claims"
  using assms unfolding verified_jwt_claims_def and_then_Inr_iff Let_def
  by (elim exE conjE) (auto simp: result_simps)

lemma check_bound_nonce_live:
  "check_bound_nonce LiveChannel claims nonces (Some n) = Inr u \<longleftrightarrow> n \<in> set nonces"
  by (auto simp: check_bound_nonce_def list_ex_iff result_simps)

lemma check_bound_nonce_document:
  "check_bound_nonce Document claims nonces (Some n) = Inr u \<longleftrightarrow>
     (\<exists>eat v. string_list (unwrap_or JNull (jget ''eat_nonce'' claims)) = Inr eat \<and> v \<in> set eat \<and>
        eq_ignore_ascii_case v n)"
  by (auto simp: check_bound_nonce_def list_ex_iff result_simps eq_ignore_ascii_case_def)

lemma check_exporter_Inr_iff:
  "check_exporter options nonces = Inr u \<longleftrightarrow>
     (case ao_tls_exporter options of
        None \<Rightarrow> True
      | Some x \<Rightarrow> length x = 32 \<and> (\<exists>n. ao_nonce_hex options = Some n \<and> to_ascii_lowercase n \<noteq> hex x) \<and>
          (\<exists>v \<in> set nonces. to_ascii_lowercase v = hex x))"
  by (auto simp: check_exporter_def result_simps EXPORTER_LENGTH_def list_ex_iff split: option.splits)

lemma check_cert_InrD:
  assumes "check_cert E options claims nonces = Inr cert"
  shows "is_sha256_hex cert \<and>
    (case ao_tls_certificate_der options of None \<Rightarrow> True | Some der \<Rightarrow> cert = hex (at_sha256 E der)) \<and>
    (case ap_expected_cert_sha256 (ao_policy options) of None \<Rightarrow> True | Some p \<Rightarrow> p = [] \<or> cert = p)"
  using assms unfolding check_cert_def Let_def result_simps
  by (auto simp: is_sha256_hex_def is_none_or_def require_equal_def opt_filter_def result_simps
      split: option.splits if_splits)

lemma add_candidates_set:
  "set (add_candidates nonce cs vs) =
     set cs \<union> {to_ascii_lowercase t | t. JString t \<in> set vs \<and> is_sha256_hex t \<and> to_ascii_lowercase t \<noteq> nonce}"
proof (induction nonce cs vs rule: add_candidates.induct)
  case (2 nonce cs v vs)
  show ?case
  proof (cases "opt_filter is_sha256_hex (as_str v)")
    case None
    then have "\<not> (\<exists>t. v = JString t \<and> is_sha256_hex t)" by (auto simp: opt_filter_None_iff)
    with None 2(1) show ?thesis by auto
  next
    case (Some t)
    then have "v = JString t" "is_sha256_hex t" by simp_all
    with 2(2) [OF Some refl] show ?thesis by (auto simp: Let_def)
  qed
qed simp

lemma add_candidates_distinct: "distinct cs \<Longrightarrow> distinct (add_candidates nonce cs vs)"
  by (induction nonce cs vs rule: add_candidates.induct) (auto simp: Let_def split: option.splits)

section \<open>What a verified attestation means\<close>

text \<open>The token is signed for the Google issuer and the policy's audience by an RSA key that the key set
  lists under the token's key identifier.\<close>

definition signed_claims :: "'c attestation_env \<Rightarrow> string \<Rightarrow> 'c attestation_options \<Rightarrow> json \<Rightarrow> bool" where
  "signed_claims E document options claims \<longleftrightarrow>
     (\<exists>kid jwks keys key modulus exponent. at_decode_header E (trim document) = Inr (True, Some kid) \<and>
        (case ao_jwks options of Some v \<Rightarrow> Inr v | None \<Rightarrow> fetch_jwks E options) = Inr jwks \<and>
        jget ''keys'' jwks = Some (JArray keys) \<and> key \<in> set keys \<and> jstr ''kid'' key = Some kid \<and>
        jstr ''kty'' key = Some ''RSA'' \<and> jstr ''n'' key = Some modulus \<and> jstr ''e'' key = Some exponent \<and>
        at_decode E (trim document) (modulus, exponent) GCP_ISSUER (ap_audience (ao_policy options))
          [''exp'', ''iss'', ''aud''] = Inr claims)"

text \<open>The workload is a production Confidential Space workload that runs a pinned image.\<close>

definition workload_ok :: "attestation_policy \<Rightarrow> json \<Rightarrow> string \<Rightarrow> string \<Rightarrow> bool" where
  "workload_ok policy claims digest ref \<longleftrightarrow>
     jstr ''swname'' claims = Some ''CONFIDENTIAL_SPACE'' \<and> jget ''secboot'' claims = Some (JBool True) \<and>
     (ap_allow_debug policy \<or>
      (\<exists>v. jstr ''dbgstat'' claims = Some v \<and> eq_ignore_ascii_case v ''disabled-since-boot'')) \<and>
     (\<exists>hw. jstr ''hwmodel'' claims = Some hw \<and> hw \<in> set [''GCP_AMD_SEV'', ''GCP_AMD_SEV_ES'', ''GCP_INTEL_TDX'']) \<and>
     (pinned digest (accepted_pins (ap_expected_image_digest policy) (ap_expected_image_digests policy)) \<or>
      pinned ref (accepted_pins (ap_expected_image_reference policy) (ap_expected_image_references policy)))"

lemma verified_jwt_claims_signed:
  assumes "verified_jwt_claims E document options = Inr claims"
  shows "signed_claims E document options claims"
  using assms
proof (rule verified_jwt_claims_InrE)
  fix kid jwks key modulus exponent
  assume "jwk_for jwks kid = Some key"
  then obtain keys where "jget ''keys'' jwks = Some (JArray keys)" "key \<in> set keys" "jstr ''kid'' key = Some kid"
    unfolding jwk_for_def by (auto simp: bind_eq_Some_conv find_Some_iff)
  moreover assume "at_decode_header E (trim document) = Inr (True, Some kid)"
    "(case ao_jwks options of Some v \<Rightarrow> Inr v | None \<Rightarrow> fetch_jwks E options) = Inr jwks"
    "jstr ''kty'' key = Some ''RSA''" "jstr ''n'' key = Some modulus" "jstr ''e'' key = Some exponent"
    "at_decode E (trim document) (modulus, exponent) GCP_ISSUER (ap_audience (ao_policy options))
      [''exp'', ''iss'', ''aud''] = Inr claims"
  ultimately show ?thesis unfolding signed_claims_def by blast
qed

lemma verify_claims_workload_ok:
  assumes "verify_claims E claims options mode = Inr a"
  shows "workload_ok (ao_policy options) claims (ga_image_digest a) (ga_image_reference a)"
  using assms
  by (rule verify_claims_InrE)
    (auto simp: workload_ok_def check_image_Inr_iff Let_def dest!: check_platform_InrD)

lemma verify_claims_document:
  assumes "verify_claims E claims options Document = Inr a" and "ao_nonce_hex options = Some n"
  shows "\<exists>eat v. string_list (unwrap_or JNull (jget ''eat_nonce'' claims)) = Inr eat \<and> v \<in> set eat \<and>
    eq_ignore_ascii_case v n"
  using assms(1) by (rule verify_claims_InrE) (simp add: assms(2) check_bound_nonce_document)

lemma policy_from_trust_release_Inr_iff:
  "policy_from_trust_release release cert = Inr policy \<longleftrightarrow>
     ((\<exists>v \<in> set (if tr_accepted_image_digests release = [] then [tr_image_digest release]
                 else tr_accepted_image_digests release). v \<noteq> []) \<or>
      (\<exists>v \<in> set (if tr_accepted_image_references release = [] then [tr_image_reference release]
                 else tr_accepted_image_references release). v \<noteq> [])) \<and>
     policy = \<lparr>ap_audience = (if tr_attestation_audience release = [] then ''quill-cloud'' else tr_attestation_audience release),
         ap_expected_cert_sha256 = cert,
         ap_expected_image_digest = nonempty (tr_image_digest release),
         ap_expected_image_digests =
           (if tr_accepted_image_digests release = [] then the_list (nonempty (tr_image_digest release))
            else tr_accepted_image_digests release),
         ap_expected_image_reference = nonempty (tr_image_reference release),
         ap_expected_image_references =
           (if tr_accepted_image_references release = [] then the_list (nonempty (tr_image_reference release))
            else tr_accepted_image_references release),
         ap_allow_debug = False\<rparr>"
proof -
  have pin: "has_pin (nonempty single) (if pins = [] then the_list (nonempty single) else pins) \<longleftrightarrow>
      (\<exists>v \<in> set (if pins = [] then [single] else pins). v \<noteq> [])" for single pins
    by (auto simp: has_pin_def nonempty_def the_list_def list_ex_iff)
  show ?thesis
    unfolding policy_from_trust_release_def Let_def pins_image_identity_def attestation_policy.simps pin by auto
qed

section \<open>An attestation that verifies\<close>

definition example_digests :: "string list" where "example_digests = [''sha256:old'', ''sha256:new'']"

definition example_attestation :: json where
  "example_attestation = obj
     [(''iss'', JString GCP_ISSUER), (''exp'', JNumber (PosInt 2000)), (''dbgstat'', JString ''disabled-since-boot''),
      (''swname'', JString ''CONFIDENTIAL_SPACE''), (''secboot'', JBool True), (''hwmodel'', JString ''GCP_INTEL_TDX''),
      (''submods'', obj [(''container'', obj [(''image_digest'', JString ''sha256:new'')])]),
      (''eat_nonce'', JArray [JString (replicate 32 CHR ''a''), JString (hex (replicate 32 CHR ''C''))])]"

definition example_env_at :: "unit attestation_env" where
  "example_env_at =
     \<lparr>at_sha256 = (\<lambda>_. replicate 32 CHR ''C''), at_decode_header = (\<lambda>_. Inr (True, Some ''k1'')),
      at_rsa_key = (\<lambda>_ _. Inr ()), at_decode = (\<lambda>_ _ _ _ _. Inr example_attestation),
      at_build_client = (\<lambda>_. Inr ()),
      at_get = (\<lambda>_ _. Inr (200, Inr (obj [(''keys'', JArray [obj [(''kid'', JString ''k1''), (''kty'', JString ''RSA''),
         (''n'', JString ''AQAB''), (''e'', JString ''AQAB'')]])]))),
      at_status_text = show_nat,
      at_build = \<lparr>be_version = ''1.0.0'', be_rustc_release = Some ''1.90.0'', be_os = ''linux'', be_arch = ''x86_64''\<rparr>\<rparr>"

definition example_at_options :: "unit attestation_options" where
  "example_at_options =
     \<lparr>ao_policy = default_policy\<lparr>ap_expected_image_digests := example_digests\<rparr>,
      ao_nonce_hex = Some (replicate 32 CHR ''a''), ao_tls_certificate_der = Some ''certificate'',
      ao_tls_exporter = None, ao_jwks = None, ao_jwks_url = None, ao_http_client = None\<rparr>"

section \<open>Properties\<close>





text \<open>A policy from a trust release always pins an image. Building a policy succeeds exactly when the
  release names a digest or a reference, taking the published transition set instead of the single
  value where there is one; the policy never allows debugging, and it refuses every workload whose
  digest and reference are both outside the release.\<close>

theorem policy_from_trust_release_pins:
  "(is_ok (policy_from_trust_release release cert) \<longleftrightarrow>
      (\<exists>v \<in> set (if tr_accepted_image_digests release = [] then [tr_image_digest release]
                 else tr_accepted_image_digests release). v \<noteq> []) \<or>
      (\<exists>v \<in> set (if tr_accepted_image_references release = [] then [tr_image_reference release]
                 else tr_accepted_image_references release). v \<noteq> [])) \<and>
   (policy_from_trust_release release cert = Inr policy \<longrightarrow>
      \<not> ap_allow_debug policy \<and>
      (is_ok (check_image policy digest ref) \<longrightarrow>
         pinned digest (tr_image_digest release # tr_accepted_image_digests release) \<or>
         pinned ref (tr_image_reference release # tr_accepted_image_references release)))"
proof (intro conjI impI)
  assume p: "policy_from_trust_release release cert = Inr policy"
  then show "\<not> ap_allow_debug policy" unfolding policy_from_trust_release_Inr_iff by auto
  assume "is_ok (check_image policy digest ref)"
  then have "check_image policy digest ref = Inr ()" by (auto simp: is_ok_def split: sum.splits)
  with p show "pinned digest (tr_image_digest release # tr_accepted_image_digests release) \<or>
      pinned ref (tr_image_reference release # tr_accepted_image_references release)"
    unfolding policy_from_trust_release_Inr_iff check_image_Inr_iff Let_def
    by (auto simp: accepted_pins_def pinned_def nonempty_def the_list_def split: if_splits)
next
  have ok: "is_ok (policy_from_trust_release release cert) \<longleftrightarrow> (\<exists>p. policy_from_trust_release release cert = Inr p)"
    by (auto simp: is_ok_def split: sum.splits)
  show "is_ok (policy_from_trust_release release cert) \<longleftrightarrow>
      (\<exists>v \<in> set (if tr_accepted_image_digests release = [] then [tr_image_digest release]
                 else tr_accepted_image_digests release). v \<noteq> []) \<or>
      (\<exists>v \<in> set (if tr_accepted_image_references release = [] then [tr_image_reference release]
                 else tr_accepted_image_references release). v \<noteq> [])"
    unfolding ok policy_from_trust_release_Inr_iff by blast
qed

definition example_release :: trust_release where
  "example_release =
     \<lparr>tr_platform = ''gcp'', tr_source_repo = [], tr_source_repositories = fmempty, tr_source_commit = [],
      tr_image_reference = [], tr_accepted_image_references = [], tr_image_digest = ''sha256:new'',
      tr_accepted_image_digests = example_digests, tr_attestation_issuer = GCP_ISSUER,
      tr_attestation_audience = [], tr_api_base_url = [], tr_tls = None, tr_data_policy = None,
      tr_extra = fmempty\<rparr>"

theorem policy_from_trust_release_pins_witness:
  "\<exists>policy. policy_from_trust_release example_release None = Inr policy \<and> \<not> ap_allow_debug policy \<and>
     is_ok (check_image policy ''sha256:old'' ''other'') \<and> \<not> is_ok (check_image policy ''sha256:other'' ''other'')"
proof -
  have "is_ok (policy_from_trust_release example_release None)" by code_simp
  then obtain policy where p: "policy_from_trust_release example_release None = Inr policy"
    by (auto simp: is_ok_def split: sum.splits)
  have "is_ok (and_then (policy_from_trust_release example_release None) (\<lambda>p. check_image p ''sha256:old'' ''other''))"
    by code_simp
  moreover have "\<not> pinned ''sha256:other'' (tr_image_digest example_release # tr_accepted_image_digests example_release)"
    "\<not> pinned ''other'' (tr_image_reference example_release # tr_accepted_image_references example_release)"
    by code_simp+
  ultimately show ?thesis
    using p policy_from_trust_release_pins [of example_release None policy "''sha256:other''" "''other''"] by auto
qed

end
