(* ===== verification/TR_ReceiptKey.thy ===== *)
theory TR_ReceiptKey
  imports TR_Receipts TR_Attestation
begin

text \<open>
  The default evidence check of the receipt verifier (\<open>receipts.rs\<close>: \<open>verify_gcp_attestation\<close> and
  \<open>verify_receipt\<close>): it fetches the trust release, builds a policy from it, and verifies the
  attestation document as evidence for the commitment to the receipt key. This is where the receipt
  verifier and the attestation verifier meet.
\<close>

definition DEFAULT_TRUST_RELEASE_URL :: string where
  "DEFAULT_TRUST_RELEASE_URL = ''https://trust.trustedrouter.com/trust/gcp-release.json''"

text \<open>The trust release as the HTTP client decodes it: the status and the typed body.\<close>

record 'c release_env =
  re_attestation :: "'c attestation_env"
  re_get_release :: "'c \<Rightarrow> string \<Rightarrow> string + (nat \<times> (string + trust_release))"

definition receipt_verification_material_urls :: "string \<times> string" where
  "receipt_verification_material_urls = (DEFAULT_TRUST_RELEASE_URL, GCP_JWKS_URL)"

definition receipt_key_options :: "'c \<Rightarrow> attestation_policy \<Rightarrow> string \<Rightarrow> 'c attestation_options" where
  "receipt_key_options client policy commitment =
     \<lparr>ao_policy = policy, ao_nonce_hex = Some (hex commitment), ao_tls_certificate_der = None,
      ao_tls_exporter = None, ao_jwks = None, ao_jwks_url = Some (snd receipt_verification_material_urls),
      ao_http_client = Some client\<rparr>"

definition verify_gcp_attestation :: "'c release_env \<Rightarrow> string \<Rightarrow> string \<Rightarrow> receipt_error + unit" where
  "verify_gcp_attestation R attestation commitment =
     (let E = re_attestation R in
     and_then (map_err RAttestation (at_build_client E (sdk_user_agent (at_build E)))) (\<lambda>client.
     and_then (map_err (\<lambda>e. RAttestation (''trust release fetch failed: '' @ e))
         (re_get_release R client (fst receipt_verification_material_urls))) (\<lambda>(status, body).
     and_then (ensure (is_success status)
         (RAttestation (''trust release fetch returned HTTP '' @ at_status_text E status))) (\<lambda>_.
     and_then (map_err (\<lambda>e. RAttestation (''invalid trust release JSON: '' @ e)) body) (\<lambda>release.
     and_then (map_err (\<lambda>e. RAttestation (error_text e)) (policy_from_trust_release release None)) (\<lambda>policy.
       map_err (\<lambda>e. RAttestation (''GCP attestation check failed: '' @ error_text e))
         (verify_receipt_key_attestation E attestation (receipt_key_options client policy commitment))))))))"

definition verify_receipt ::
    "'c release_env \<Rightarrow> receipt_libs \<Rightarrow> string + nat \<Rightarrow> string \<Rightarrow> string \<Rightarrow> receipt_options \<Rightarrow>
     receipt_error + receipt_claims" where
  "verify_receipt R L clock receipt expected_issuer options =
     verify_receipt_with L clock (verify_gcp_attestation R) receipt expected_issuer options"

definition capture_verify ::
    "'c release_env \<Rightarrow> receipt_libs \<Rightarrow> string + nat \<Rightarrow> capture \<Rightarrow> string \<Rightarrow> receipt_options \<Rightarrow>
     receipt_error + receipt_claims" where
  "capture_verify R L clock c expected_issuer options =
     capture_verify_with L clock (verify_gcp_attestation R) c expected_issuer options"

lemma verify_gcp_attestation_InrD:
  assumes "verify_gcp_attestation R doc commitment = Inr u"
  obtains client status release policy claims a where
    "re_get_release R client DEFAULT_TRUST_RELEASE_URL = Inr (status, Inr release)" and "is_success status"
    and "policy_from_trust_release release None = Inr policy"
    and "verified_jwt_claims (re_attestation R) doc (receipt_key_options client policy commitment) = Inr claims"
    and "verify_claims (re_attestation R) claims (receipt_key_options client policy commitment) Document = Inr a"
  using assms
  unfolding verify_gcp_attestation_def verify_receipt_key_attestation_def receipt_verification_material_urls_def
  by (auto simp: result_simps Let_def)

end
