(* ===== verification/TR_Serde.thy ===== *)
theory TR_Serde
  imports TR_Json "HOL-Library.Word"
begin

text \<open>
  The data model behind the derived (de)serialisers of the SDK's request and response structs
  (\<open>types.rs\<close>, \<open>tools.rs\<close>, \<open>oauth.rs\<close>): how a field of each kind is written to and read from a JSON
  object, what \<open>skip_serializing_if\<close>, \<open>default\<close> and \<open>flatten\<close> mean, and the locales in which the
  round trips are proved once. A decoder returns \<open>None\<close> where \<open>serde\<close> reports an error; the text of
  the error is not modelled. An integer of \<open>w\<close> bits is a word of that length.
\<close>

section \<open>Values\<close>

definition enc_uint :: "'w::len word \<Rightarrow> json" where
  "enc_uint w = JNumber (PosInt (unat w))"

definition dec_uint :: "json \<Rightarrow> 'w::len word option" where
  "dec_uint v =
     Option.bind (as_u64 v) (\<lambda>n. if n < 2 ^ LENGTH('w) then Some (of_nat n) else None)"

definition enc_i64 :: "64 word \<Rightarrow> json" where
  "enc_i64 w = JNumber (if sint w < 0 then NegInt (sint w) else PosInt (nat (sint w)))"

definition dec_i64 :: "json \<Rightarrow> 64 word option" where
  "dec_i64 v = map_option word_of_int (as_i64 v)"

definition enc_f64 :: "rat option \<Rightarrow> json" where
  "enc_f64 x = (case x of None \<Rightarrow> JNull | Some r \<Rightarrow> JNumber (JFloat r))"

text \<open>\<open>Vec<T>\<close> is an array; \<open>Option<T>\<close> is the value or null; \<open>BTreeMap<String, Value>\<close> is an object.\<close>

definition enc_vec :: "('a \<Rightarrow> json) \<Rightarrow> 'a list \<Rightarrow> json" where
  "enc_vec enc xs = JArray (map enc xs)"

fun collect_some :: "'a option list \<Rightarrow> 'a list option" where
  "collect_some [] = Some []"
| "collect_some (None # xs) = None"
| "collect_some (Some x # xs) = map_option (Cons x) (collect_some xs)"

definition dec_vec :: "(json \<Rightarrow> 'a option) \<Rightarrow> json \<Rightarrow> 'a list option" where
  "dec_vec dec v = Option.bind (as_array v) (\<lambda>vs. collect_some (map dec vs))"

definition enc_opt :: "('a \<Rightarrow> json) \<Rightarrow> 'a option \<Rightarrow> json" where
  "enc_opt enc x = (case x of None \<Rightarrow> JNull | Some y \<Rightarrow> enc y)"

definition dec_opt :: "(json \<Rightarrow> 'a option) \<Rightarrow> json \<Rightarrow> 'a option option" where
  "dec_opt dec v = (if v = JNull then Some None else map_option Some (dec v))"

section \<open>Structs\<close>

text \<open>A struct is the object of its written fields, in which the entries of a flattened map replace
  fields of the same name. A field that \<open>skip_serializing_if\<close> leaves out is \<open>None\<close> in the list.\<close>

definition always :: "string \<Rightarrow> json \<Rightarrow> string \<times> json option" where
  "always k v = (k, Some v)"

definition unless_none :: "string \<Rightarrow> ('a \<Rightarrow> json) \<Rightarrow> 'a option \<Rightarrow> string \<times> json option" where
  "unless_none k enc x = (k, map_option enc x)"

definition unless_empty :: "string \<Rightarrow> ('a \<Rightarrow> json) \<Rightarrow> 'a list \<Rightarrow> string \<times> json option" where
  "unless_empty k enc xs = (k, if xs = [] then None else Some (enc_vec enc xs))"

definition unless_empty_map :: "string \<Rightarrow> jobject \<Rightarrow> string \<times> json option" where
  "unless_empty_map k m = (k, if m = fmempty then None else Some (JObject m))"

fun written :: "(string \<times> json option) list \<Rightarrow> (string \<times> json) list" where
  "written [] = []"
| "written ((k, None) # fs) = written fs"
| "written ((k, Some v) # fs) = (k, v) # written fs"

definition object_of :: "(string \<times> json option) list \<Rightarrow> jobject \<Rightarrow> jobject" where
  "object_of fs extra = fmadd (fmap_of_list (written fs)) extra"

definition struct :: "(string \<times> json option) list \<Rightarrow> jobject \<Rightarrow> json" where
  "struct fs extra = JObject (object_of fs extra)"

text \<open>Reading a field: a plain field must be there, a field with a default may be missing, and an
  optional one may be missing or null. A flattened map takes the members no field has claimed.\<close>

definition required :: "(json \<Rightarrow> 'a option) \<Rightarrow> string \<Rightarrow> jobject \<Rightarrow> 'a option" where
  "required dec k m = Option.bind (fmlookup m k) dec"

definition defaulted :: "'a \<Rightarrow> (json \<Rightarrow> 'a option) \<Rightarrow> string \<Rightarrow> jobject \<Rightarrow> 'a option" where
  "defaulted d dec k m = (case fmlookup m k of None \<Rightarrow> Some d | Some v \<Rightarrow> dec v)"

definition optional :: "(json \<Rightarrow> 'a option) \<Rightarrow> string \<Rightarrow> jobject \<Rightarrow> 'a option option" where
  "optional dec k m = defaulted None (dec_opt dec) k m"

definition unclaimed :: "string list \<Rightarrow> jobject \<Rightarrow> jobject" where
  "unclaimed names m = fmfilter (\<lambda>k. k \<notin> set names) m"

definition free_of :: "string list \<Rightarrow> jobject \<Rightarrow> bool" where
  "free_of names m \<longleftrightarrow> list_all (\<lambda>k. fmlookup m k = None) names"

section \<open>Reading back what was written\<close>

lemma written_keys: "fst ` set (written fs) \<subseteq> fst ` set fs"
  by (induction fs rule: written.induct) auto

lemma map_of_written: "distinct (map fst fs) \<Longrightarrow> map_of (written fs) k = Option.bind (map_of fs k) id"
proof (induction fs rule: written.induct)
  case (2 k' fs)
  then have "k' \<notin> fst ` set (written fs)" using written_keys [of fs] by auto
  then have "map_of (written fs) k' = None" by (simp only: map_of_eq_None_iff not_False_eq_True)
  with 2 show ?case by (cases "k = k'") simp_all
qed auto

lemma fmlookup_fmadd:
  "fmlookup (fmadd m n) k = (case fmlookup n k of None \<Rightarrow> fmlookup m k | Some v \<Rightarrow> Some v)"
  by (cases "fmlookup n k") (auto simp: fmdom_notI dest: fmdomI)

lemma fields_lookup:
  assumes "free_of (map fst fs) extra" and "distinct (map fst fs)"
  shows "fmlookup (object_of fs extra) k = (case map_of fs k of None \<Rightarrow> fmlookup extra k | Some v \<Rightarrow> v)"
proof (cases "map_of fs k")
  case None
  then show ?thesis using map_of_written [OF assms(2), of k]
    by (simp add: object_of_def fmlookup_fmadd fmlookup_of_list del: fmlookup_add split: option.split)
next
  case (Some v)
  then have "k \<in> set (map fst fs)" by (auto dest: map_of_SomeD intro: rev_image_eqI)
  with assms(1) have "fmlookup extra k = None" by (auto simp: free_of_def list_all_iff)
  with Some show ?thesis using map_of_written [OF assms(2), of k]
    by (simp add: object_of_def fmlookup_fmadd fmlookup_of_list del: fmlookup_add)
qed

lemma fields_unclaimed:
  assumes "map fst fs = names" and "free_of names extra" and "distinct names"
  shows "unclaimed names (object_of fs extra) = extra"
proof (rule fmap_ext)
  fix k
  show "fmlookup (unclaimed names (object_of fs extra)) k = fmlookup extra k"
  proof (cases "k \<in> set names")
    case True
    with assms(2) show ?thesis by (auto simp: unclaimed_def free_of_def list_all_iff)
  next
    case False
    with assms(1) have "map_of fs k = None" by (metis list.set_map map_of_eq_None_iff)
    with False assms show ?thesis by (auto simp: unclaimed_def fields_lookup)
  qed
qed

named_theorems serde_simps \<open>reading back the fields of a struct\<close>

declare always_def [serde_simps] unless_none_def [serde_simps] unless_empty_def [serde_simps]
  unless_empty_map_def [serde_simps]
  required_def [serde_simps] defaulted_def [serde_simps] optional_def [serde_simps] struct_def [serde_simps]
  option.pred_True [serde_simps] list.pred_True [serde_simps] fields_lookup [serde_simps] fields_unclaimed [serde_simps]

text \<open>A member that is not a field is the one of the flattened map.\<close>

lemma struct_kept: "k \<notin> fst ` set fs \<Longrightarrow> jget k (struct fs extra) = fmlookup extra k"
proof -
  assume "k \<notin> fst ` set fs"
  then have "map_of (written fs) k = None" using written_keys [of fs] by (auto simp: map_of_eq_None_iff)
  then show ?thesis
    by (simp add: struct_def object_of_def fmlookup_fmadd fmlookup_of_list del: fmlookup_add split: option.split)
qed

lemma fields_members:
  "distinct (map fst fs) \<Longrightarrow> fmlookup (object_of fs extra) k =
     (case fmlookup extra k of None \<Rightarrow> Option.bind (map_of fs k) id | Some v \<Rightarrow> Some v)"
  by (simp add: object_of_def fmlookup_fmadd fmlookup_of_list map_of_written del: fmlookup_add split: option.split)

lemma field_name [simp]:
  "fst (always k v) = k" "fst (unless_none k enc x) = k" "fst (unless_empty k enc xs) = k"
  "fst (unless_empty_map k m) = k"
  by (simp_all add: always_def unless_none_def unless_empty_def unless_empty_map_def)

lemma struct_not_null [simp]: "struct fs extra \<noteq> JNull"
  by (simp add: struct_def)

section \<open>Codecs\<close>

locale codec =
  fixes enc :: "'a \<Rightarrow> json" and dec :: "json \<Rightarrow> 'a option" and ok :: "'a \<Rightarrow> bool"
  assumes round_trip: "ok x \<Longrightarrow> dec (enc x) = Some x"
begin

lemma collect_round: "list_all ok xs \<Longrightarrow> collect_some (map (dec \<circ> enc) xs) = Some xs"
  by (induction xs) (simp_all add: round_trip)

lemma vec_round [simp]: "list_all ok xs \<Longrightarrow> dec_vec dec (enc_vec enc xs) = Some xs"
  by (simp add: dec_vec_def enc_vec_def collect_round)

lemma vec_default [simp]:
  "list_all ok xs \<Longrightarrow>
   (case (if xs = [] then None else Some (enc_vec enc xs)) of None \<Rightarrow> Some [] | Some v \<Rightarrow> dec_vec dec v) = Some xs"
  by simp

lemma injective: "x = y" if "ok x" "ok y" "enc x = enc y"
  using round_trip [OF that(1)] round_trip [OF that(2)] unfolding that(3) by simp

end

text \<open>A codec whose encodings are never null also serves optional fields.\<close>

locale plain_codec = codec +
  assumes not_null: "ok x \<Longrightarrow> enc x \<noteq> JNull"
begin

lemma opt_round [simp]: "pred_option ok x \<Longrightarrow> dec_opt dec (enc_opt enc x) = Some x"
  by (cases x) (simp_all add: dec_opt_def enc_opt_def round_trip not_null)

lemma opt_written [simp]:
  "pred_option ok x \<Longrightarrow>
   (case map_option enc x of None \<Rightarrow> Some None | Some v \<Rightarrow> dec_opt dec v) = Some x"
  by (cases x) (simp_all add: dec_opt_def round_trip not_null)

end

text \<open>Nothing is lost: what was read is read again from its own encoding, and every member with a name
  outside \<open>names\<close> is written back as it was.\<close>

definition lossless :: "('a \<Rightarrow> json) \<Rightarrow> (json \<Rightarrow> 'a option) \<Rightarrow> string list \<Rightarrow> bool" where
  "lossless enc dec names \<longleftrightarrow>
     (\<forall>v x. dec v = Some x \<longrightarrow>
        dec (enc x) = Some x \<and> (\<forall>k. k \<notin> set names \<longrightarrow> jget k (enc x) = jget k v))"

text \<open>A struct: what is read is well formed, so that it can be written and read again, and the members
  the struct does not name are kept.\<close>

locale struct_codec = plain_codec enc dec ok
  for enc :: "'a \<Rightarrow> json" and dec :: "json \<Rightarrow> 'a option" and ok :: "'a \<Rightarrow> bool" +
  fixes names :: "string list"
  assumes decoded_ok: "dec v = Some x \<Longrightarrow> ok x"
    and decoded_kept: "dec v = Some x \<Longrightarrow> k \<notin> set names \<Longrightarrow> jget k (enc x) = jget k v"
begin

lemma reread: "dec v = Some x \<Longrightarrow> dec (enc x) = Some x"
  by (rule round_trip) (rule decoded_ok)

lemma nothing_lost: "lossless enc dec names"
  by (simp add: lossless_def reread decoded_kept)

lemma vec_ok: "dec_vec dec v = Some xs \<Longrightarrow> list_all ok xs"
proof -
  have "collect_some (map dec vs) = Some xs \<Longrightarrow> list_all ok xs" for vs xs
  proof (induction vs arbitrary: xs)
    case (Cons v vs)
    then show ?case by (cases "dec v") (auto dest: decoded_ok)
  qed simp
  then show "dec_vec dec v = Some xs \<Longrightarrow> list_all ok xs"
    by (auto simp: dec_vec_def bind_eq_Some_conv)
qed

lemma default_vec_ok [dest]: "defaulted [] (dec_vec dec) k m = Some xs \<Longrightarrow> list_all ok xs"
  by (auto simp: defaulted_def split: option.splits dest: vec_ok)

lemma optional_ok [dest]: "optional dec k m = Some x \<Longrightarrow> pred_option ok x"
  by (auto simp: optional_def defaulted_def dec_opt_def split: option.splits if_splits dest: decoded_ok)

lemma required_ok [dest]: "required dec k m = Some x \<Longrightarrow> ok x"
  by (auto simp: required_def bind_eq_Some_conv dest: decoded_ok)

end

lemma optional_present [dest]: "optional Some k m = Some x \<Longrightarrow> x \<noteq> Some JNull"
  by (auto simp: optional_def defaulted_def dec_opt_def split: option.splits if_splits)

lemma free_of_unclaimed [simp]: "free_of names (unclaimed names m)"
  by (simp add: free_of_def unclaimed_def list_all_iff)

lemma unclaimed_lookup [simp]: "fmlookup (unclaimed names m) k = (if k \<in> set names then None else fmlookup m k)"
  by (simp add: unclaimed_def)

sublocale plain_codec \<subseteq> optionals: codec "enc_opt enc" "dec_opt dec" "pred_option ok"
  by unfold_locales simp

interpretation text_codec: plain_codec JString as_str "\<lambda>_. True"
  by unfold_locales simp_all

interpretation bool_codec: plain_codec JBool as_bool "\<lambda>_. True"
  by unfold_locales simp_all

interpretation object_codec: plain_codec JObject as_object "\<lambda>_. True"
  by unfold_locales simp_all

interpretation uint_codec: plain_codec enc_uint dec_uint "\<lambda>_. True"
  by unfold_locales (simp_all add: enc_uint_def dec_uint_def)

text \<open>A value is its own encoding; an optional value cannot hold null.\<close>

interpretation value_codec: codec "\<lambda>v. v" Some "\<lambda>_. True"
  by unfold_locales simp

interpretation present_codec: plain_codec "\<lambda>v. v" Some "\<lambda>v. v \<noteq> JNull"
  by unfold_locales simp_all

lemma sint_64: "i64_min \<le> sint (w :: 64 word)" "sint (w :: 64 word) \<le> i64_max"
  using sint_greater_eq [of w] sint_less [of w] by (simp_all add: i64_min_def i64_max_def)

lemma dec_enc_i64: "dec_i64 (enc_i64 w) = Some w"
proof (cases "sint w < 0")
  case False
  then have "as_i64 (enc_i64 w) = Some (sint w)" using sint_64 [of w] by (simp add: enc_i64_def)
  then show ?thesis by (simp add: dec_i64_def)
qed (simp add: enc_i64_def dec_i64_def)

interpretation i64_codec: plain_codec enc_i64 dec_i64 "\<lambda>_. True"
  by unfold_locales (simp_all add: dec_enc_i64, simp add: enc_i64_def)

lemma present_opt_round [serde_simps]: "x \<noteq> Some JNull \<Longrightarrow> dec_opt Some (enc_opt (\<lambda>v. v) x) = Some x"
  using present_codec.opt_round [of x] by (cases x) simp_all

lemma present_opt_written [serde_simps]:
  "x \<noteq> Some JNull \<Longrightarrow> (case x of None \<Rightarrow> Some None | Some v \<Rightarrow> dec_opt Some v) = Some x"
  using present_codec.opt_written [of x] by (cases x) simp_all

lemma map_default [serde_simps]:
  "(case (if m = fmempty then None else Some (JObject m)) of None \<Rightarrow> Some fmempty | Some v \<Rightarrow> as_object v) = Some m"
  by simp

declare uint_codec.round_trip [serde_simps] i64_codec.round_trip [serde_simps]

end
