(* ===== verification/TR_Models.thy ===== *)
theory TR_Models
  imports TR_Serde TR_Types
begin

text \<open>
  The request and response structs of the inference plane (\<open>types.rs\<close>) with their derived
  serialisers and deserialisers, and the constructors the SDK offers for them. \<open>_to_json\<close> is
  \<open>serde_json::to_value\<close>, \<open>_of_json\<close> the derived deserialiser on a value, and \<open>_ok\<close> says when a
  struct is one that can have been read: its free-form fields do not collide with the named ones
  and its optional values are not null. Every struct that has both directions is a codec.
\<close>

section \<open>Chat\<close>

record chat_message =
  msg_role :: string
  msg_content :: json
  msg_name :: "string option"
  msg_tool_calls :: "json list"
  msg_tool_call_id :: "string option"
  msg_extra :: jobject

definition chat_message_to_json :: "chat_message \<Rightarrow> json" where
  "chat_message_to_json c = struct
     [always ''role'' (JString (msg_role c)), always ''content'' (msg_content c),
      unless_none ''name'' JString (msg_name c),
      unless_empty ''tool_calls'' (\<lambda>v. v) (msg_tool_calls c),
      unless_none ''tool_call_id'' JString (msg_tool_call_id c)]
     (msg_extra c)"

definition CHAT_MESSAGE :: "string list" where
  "CHAT_MESSAGE = [''role'', ''content'', ''name'', ''tool_calls'', ''tool_call_id'']"

definition chat_message_of_json :: "json \<Rightarrow> chat_message option" where
  "chat_message_of_json v =
     Option.bind (as_object v) (\<lambda>m.
     Option.bind (required as_str ''role'' m) (\<lambda>role.
     Option.bind (required Some ''content'' m) (\<lambda>content.
     Option.bind (optional as_str ''name'' m) (\<lambda>name.
     Option.bind (defaulted [] (dec_vec Some) ''tool_calls'' m) (\<lambda>tool_calls.
     Option.bind (optional as_str ''tool_call_id'' m) (\<lambda>tool_call_id.
     Some \<lparr>msg_role = role, msg_content = content, msg_name = name, msg_tool_calls = tool_calls,
      msg_tool_call_id = tool_call_id, msg_extra = unclaimed CHAT_MESSAGE m\<rparr>))))))"

definition chat_message_ok :: "chat_message \<Rightarrow> bool" where
  "chat_message_ok c \<longleftrightarrow>
     free_of CHAT_MESSAGE (msg_extra c)"

interpretation chat_message_codec: struct_codec chat_message_to_json chat_message_of_json chat_message_ok CHAT_MESSAGE
proof
  show "chat_message_of_json (chat_message_to_json c) = Some c" if "chat_message_ok c" for c
    using that by (simp add: chat_message_to_json_def chat_message_of_json_def chat_message_ok_def CHAT_MESSAGE_def serde_simps
      del: case_map_option split del: if_split)
  show decoded: "chat_message_ok c" if "chat_message_of_json v = Some c" for v c
    using that by (auto simp: chat_message_of_json_def chat_message_ok_def bind_eq_Some_conv)
  show "jget k (chat_message_to_json c) = jget k v" if "chat_message_of_json v = Some c" "k \<notin> set CHAT_MESSAGE" for v c k
    using that by (auto simp: chat_message_of_json_def chat_message_to_json_def bind_eq_Some_conv struct_kept CHAT_MESSAGE_def)
qed (simp add: chat_message_to_json_def)

declare chat_message_codec.round_trip [serde_simps]

definition chat_message_text :: "string \<Rightarrow> string \<Rightarrow> chat_message" where
  "chat_message_text role content =
     \<lparr>msg_role = role, msg_content = JString content, msg_name = None, msg_tool_calls = [],
      msg_tool_call_id = None, msg_extra = fmempty\<rparr>"

definition chat_message_user :: "string \<Rightarrow> chat_message" where
  "chat_message_user content = chat_message_text ''user'' content"

definition chat_message_system :: "string \<Rightarrow> chat_message" where
  "chat_message_system content = chat_message_text ''system'' content"

definition text_content :: "chat_message \<Rightarrow> string option" where
  "text_content c = as_str (msg_content c)"

definition messages_to_values :: "chat_message list \<Rightarrow> json list" where
  "messages_to_values messages = map chat_message_to_json messages"

record provider_preferences =
  prov_order :: "string list"
  prov_only :: "string list"
  prov_ignore :: "string list"
  prov_sort :: "string option"
  prov_allow_fallbacks :: "bool option"
  prov_require_parameters :: "bool option"
  prov_data_collection :: "string option"
  prov_min_privacy :: "string option"
  prov_jurisdiction :: "string option"
  prov_usage :: "string option"
  prov_quantizations :: "string list"
  prov_max_price :: jobject
  prov_extra :: jobject

definition provider_preferences_to_json :: "provider_preferences \<Rightarrow> json" where
  "provider_preferences_to_json c = struct
     [unless_empty ''order'' JString (prov_order c), unless_empty ''only'' JString (prov_only c),
      unless_empty ''ignore'' JString (prov_ignore c), unless_none ''sort'' JString (prov_sort c),
      unless_none ''allow_fallbacks'' JBool (prov_allow_fallbacks c),
      unless_none ''require_parameters'' JBool (prov_require_parameters c),
      unless_none ''data_collection'' JString (prov_data_collection c),
      unless_none ''min_privacy'' JString (prov_min_privacy c),
      unless_none ''jurisdiction'' JString (prov_jurisdiction c),
      unless_none ''usage'' JString (prov_usage c),
      unless_empty ''quantizations'' JString (prov_quantizations c),
      unless_empty_map ''max_price'' (prov_max_price c)]
     (prov_extra c)"

definition PROVIDER_PREFERENCES :: "string list" where
  "PROVIDER_PREFERENCES = [''order'', ''only'', ''ignore'', ''sort'', ''allow_fallbacks'', ''require_parameters'',
      ''data_collection'', ''min_privacy'', ''jurisdiction'', ''usage'', ''quantizations'',
      ''max_price'']"

definition provider_preferences_of_json :: "json \<Rightarrow> provider_preferences option" where
  "provider_preferences_of_json v =
     Option.bind (as_object v) (\<lambda>m.
     Option.bind (defaulted [] (dec_vec as_str) ''order'' m) (\<lambda>order.
     Option.bind (defaulted [] (dec_vec as_str) ''only'' m) (\<lambda>only.
     Option.bind (defaulted [] (dec_vec as_str) ''ignore'' m) (\<lambda>ignored.
     Option.bind (optional as_str ''sort'' m) (\<lambda>sort.
     Option.bind (optional as_bool ''allow_fallbacks'' m) (\<lambda>allow_fallbacks.
     Option.bind (optional as_bool ''require_parameters'' m) (\<lambda>require_parameters.
     Option.bind (optional as_str ''data_collection'' m) (\<lambda>data_collection.
     Option.bind (optional as_str ''min_privacy'' m) (\<lambda>min_privacy.
     Option.bind (optional as_str ''jurisdiction'' m) (\<lambda>jurisdiction.
     Option.bind (optional as_str ''usage'' m) (\<lambda>usage.
     Option.bind (defaulted [] (dec_vec as_str) ''quantizations'' m) (\<lambda>quantizations.
     Option.bind (defaulted fmempty as_object ''max_price'' m) (\<lambda>max_price.
     Some \<lparr>prov_order = order, prov_only = only, prov_ignore = ignored, prov_sort = sort,
      prov_allow_fallbacks = allow_fallbacks, prov_require_parameters = require_parameters,
      prov_data_collection = data_collection, prov_min_privacy = min_privacy, prov_jurisdiction = jurisdiction,
      prov_usage = usage, prov_quantizations = quantizations, prov_max_price = max_price,
      prov_extra = unclaimed PROVIDER_PREFERENCES m\<rparr>)))))))))))))"

definition provider_preferences_ok :: "provider_preferences \<Rightarrow> bool" where
  "provider_preferences_ok c \<longleftrightarrow>
     free_of PROVIDER_PREFERENCES (prov_extra c)"

interpretation provider_preferences_codec: struct_codec provider_preferences_to_json provider_preferences_of_json provider_preferences_ok PROVIDER_PREFERENCES
proof
  show "provider_preferences_of_json (provider_preferences_to_json c) = Some c" if "provider_preferences_ok c" for c
    using that by (simp add: provider_preferences_to_json_def provider_preferences_of_json_def provider_preferences_ok_def PROVIDER_PREFERENCES_def serde_simps
      del: case_map_option split del: if_split)
  show decoded: "provider_preferences_ok c" if "provider_preferences_of_json v = Some c" for v c
    using that by (auto simp: provider_preferences_of_json_def provider_preferences_ok_def bind_eq_Some_conv)
  show "jget k (provider_preferences_to_json c) = jget k v" if "provider_preferences_of_json v = Some c" "k \<notin> set PROVIDER_PREFERENCES" for v c k
    using that by (auto simp: provider_preferences_of_json_def provider_preferences_to_json_def bind_eq_Some_conv struct_kept PROVIDER_PREFERENCES_def)
qed (simp add: provider_preferences_to_json_def)

definition default_preferences :: provider_preferences where
  "default_preferences =
     \<lparr>prov_order = [], prov_only = [], prov_ignore = [], prov_sort = None, prov_allow_fallbacks = None,
      prov_require_parameters = None, prov_data_collection = None, prov_min_privacy = None,
      prov_jurisdiction = None, prov_usage = None, prov_quantizations = [], prov_max_price = fmempty,
      prov_extra = fmempty\<rparr>"

definition zdr :: provider_preferences where
  "zdr = default_preferences\<lparr>prov_min_privacy := Some ''zdr'', prov_data_collection := Some ''deny''\<rparr>"

definition confidential :: provider_preferences where
  "confidential =
     default_preferences\<lparr>prov_min_privacy := Some ''confidential'', prov_data_collection := Some ''deny''\<rparr>"

definition us_only :: provider_preferences where
  "us_only = default_preferences\<lparr>prov_jurisdiction := Some ''us''\<rparr>"

record chat_request =
  chat_model :: string
  chat_messages :: "json list"
  chat_models :: "string list"
  chat_tools :: "json list"
  chat_provider :: "provider_preferences option"
  chat_metadata :: "json option"
  chat_depth :: "(8 word) option"
  chat_extra :: jobject
  chat_call_options :: call_options

definition chat_request_to_json :: "chat_request \<Rightarrow> json" where
  "chat_request_to_json c = struct
     [always ''model'' (JString (chat_model c)),
      always ''messages'' (enc_vec (\<lambda>v. v) (chat_messages c)),
      unless_empty ''models'' JString (chat_models c),
      unless_empty ''tools'' (\<lambda>v. v) (chat_tools c),
      unless_none ''provider'' provider_preferences_to_json (chat_provider c),
      unless_none ''metadata'' (\<lambda>v. v) (chat_metadata c),
      unless_none ''depth'' enc_uint (chat_depth c)]
     (chat_extra c)"

definition chat_request_new :: "string \<Rightarrow> chat_message list \<Rightarrow> chat_request" where
  "chat_request_new model messages =
     \<lparr>chat_model = model, chat_messages = map chat_message_to_json messages, chat_models = [],
      chat_tools = [], chat_provider = None, chat_metadata = None, chat_depth = None,
      chat_extra = fmempty, chat_call_options = default_call_options\<rparr>"

definition chat_request_user :: "string \<Rightarrow> string \<Rightarrow> chat_request" where
  "chat_request_user model prompt = chat_request_new model [chat_message_user prompt]"

definition with_field :: "string \<Rightarrow> json \<Rightarrow> chat_request \<Rightarrow> chat_request" where
  "with_field name v request = request\<lparr>chat_extra := fmupd name v (chat_extra request)\<rparr>"

record chat_usage =
  usage_prompt_tokens :: "64 word"
  usage_completion_tokens :: "64 word"
  usage_total_tokens :: "64 word"
  usage_cost_microdollars :: "(64 word) option"
  usage_provider_usage :: "json option"
  usage_extra :: jobject

definition chat_usage_to_json :: "chat_usage \<Rightarrow> json" where
  "chat_usage_to_json c = struct
     [always ''prompt_tokens'' (enc_uint (usage_prompt_tokens c)),
      always ''completion_tokens'' (enc_uint (usage_completion_tokens c)),
      always ''total_tokens'' (enc_uint (usage_total_tokens c)),
      always ''cost_microdollars'' (enc_opt enc_i64 (usage_cost_microdollars c)),
      always ''provider_usage'' (enc_opt (\<lambda>v. v) (usage_provider_usage c))]
     (usage_extra c)"

definition CHAT_USAGE :: "string list" where
  "CHAT_USAGE = [''prompt_tokens'', ''completion_tokens'', ''total_tokens'', ''cost_microdollars'',
      ''provider_usage'']"

definition chat_usage_of_json :: "json \<Rightarrow> chat_usage option" where
  "chat_usage_of_json v =
     Option.bind (as_object v) (\<lambda>m.
     Option.bind (defaulted 0 dec_uint ''prompt_tokens'' m) (\<lambda>prompt_tokens.
     Option.bind (defaulted 0 dec_uint ''completion_tokens'' m) (\<lambda>completion_tokens.
     Option.bind (defaulted 0 dec_uint ''total_tokens'' m) (\<lambda>total_tokens.
     Option.bind (optional dec_i64 ''cost_microdollars'' m) (\<lambda>cost_microdollars.
     Option.bind (optional Some ''provider_usage'' m) (\<lambda>provider_usage.
     Some \<lparr>usage_prompt_tokens = prompt_tokens, usage_completion_tokens = completion_tokens,
      usage_total_tokens = total_tokens, usage_cost_microdollars = cost_microdollars,
      usage_provider_usage = provider_usage, usage_extra = unclaimed CHAT_USAGE m\<rparr>))))))"

definition chat_usage_ok :: "chat_usage \<Rightarrow> bool" where
  "chat_usage_ok c \<longleftrightarrow>
     free_of CHAT_USAGE (usage_extra c) \<and>
     usage_provider_usage c \<noteq> Some JNull"

interpretation chat_usage_codec: struct_codec chat_usage_to_json chat_usage_of_json chat_usage_ok CHAT_USAGE
proof
  show "chat_usage_of_json (chat_usage_to_json c) = Some c" if "chat_usage_ok c" for c
    using that by (simp add: chat_usage_to_json_def chat_usage_of_json_def chat_usage_ok_def CHAT_USAGE_def serde_simps
      del: case_map_option split del: if_split)
  show decoded: "chat_usage_ok c" if "chat_usage_of_json v = Some c" for v c
    using that by (auto simp: chat_usage_of_json_def chat_usage_ok_def bind_eq_Some_conv)
  show "jget k (chat_usage_to_json c) = jget k v" if "chat_usage_of_json v = Some c" "k \<notin> set CHAT_USAGE" for v c k
    using that by (auto simp: chat_usage_of_json_def chat_usage_to_json_def bind_eq_Some_conv struct_kept CHAT_USAGE_def)
qed (simp add: chat_usage_to_json_def)

record chat_choice =
  choice_index :: "32 word"
  choice_message :: chat_message
  choice_finish_reason :: "string option"
  choice_logprobs :: "json option"
  choice_extra :: jobject

definition chat_choice_to_json :: "chat_choice \<Rightarrow> json" where
  "chat_choice_to_json c = struct
     [always ''index'' (enc_uint (choice_index c)),
      always ''message'' (chat_message_to_json (choice_message c)),
      always ''finish_reason'' (enc_opt JString (choice_finish_reason c)),
      always ''logprobs'' (enc_opt (\<lambda>v. v) (choice_logprobs c))]
     (choice_extra c)"

definition CHAT_CHOICE :: "string list" where
  "CHAT_CHOICE = [''index'', ''message'', ''finish_reason'', ''logprobs'']"

definition chat_choice_of_json :: "json \<Rightarrow> chat_choice option" where
  "chat_choice_of_json v =
     Option.bind (as_object v) (\<lambda>m.
     Option.bind (defaulted 0 dec_uint ''index'' m) (\<lambda>index.
     Option.bind (required chat_message_of_json ''message'' m) (\<lambda>message.
     Option.bind (optional as_str ''finish_reason'' m) (\<lambda>finish_reason.
     Option.bind (optional Some ''logprobs'' m) (\<lambda>logprobs.
     Some \<lparr>choice_index = index, choice_message = message, choice_finish_reason = finish_reason,
      choice_logprobs = logprobs, choice_extra = unclaimed CHAT_CHOICE m\<rparr>)))))"

definition chat_choice_ok :: "chat_choice \<Rightarrow> bool" where
  "chat_choice_ok c \<longleftrightarrow>
     free_of CHAT_CHOICE (choice_extra c) \<and>
     chat_message_ok (choice_message c) \<and>
     choice_logprobs c \<noteq> Some JNull"

interpretation chat_choice_codec: struct_codec chat_choice_to_json chat_choice_of_json chat_choice_ok CHAT_CHOICE
proof
  show "chat_choice_of_json (chat_choice_to_json c) = Some c" if "chat_choice_ok c" for c
    using that by (simp add: chat_choice_to_json_def chat_choice_of_json_def chat_choice_ok_def CHAT_CHOICE_def serde_simps
      del: case_map_option split del: if_split)
  show decoded: "chat_choice_ok c" if "chat_choice_of_json v = Some c" for v c
    using that by (auto simp: chat_choice_of_json_def chat_choice_ok_def bind_eq_Some_conv)
  show "jget k (chat_choice_to_json c) = jget k v" if "chat_choice_of_json v = Some c" "k \<notin> set CHAT_CHOICE" for v c k
    using that by (auto simp: chat_choice_of_json_def chat_choice_to_json_def bind_eq_Some_conv struct_kept CHAT_CHOICE_def)
qed (simp add: chat_choice_to_json_def)

record chat_completion =
  comp_id :: string
  comp_object :: string
  comp_created :: "64 word"
  comp_model :: string
  comp_choices :: "chat_choice list"
  comp_usage :: "chat_usage option"
  comp_extra :: jobject

definition chat_completion_to_json :: "chat_completion \<Rightarrow> json" where
  "chat_completion_to_json c = struct
     [always ''id'' (JString (comp_id c)), always ''object'' (JString (comp_object c)),
      always ''created'' (enc_i64 (comp_created c)), always ''model'' (JString (comp_model c)),
      always ''choices'' (enc_vec chat_choice_to_json (comp_choices c)),
      always ''usage'' (enc_opt chat_usage_to_json (comp_usage c))]
     (comp_extra c)"

definition CHAT_COMPLETION :: "string list" where
  "CHAT_COMPLETION = [''id'', ''object'', ''created'', ''model'', ''choices'', ''usage'']"

definition chat_completion_of_json :: "json \<Rightarrow> chat_completion option" where
  "chat_completion_of_json v =
     Option.bind (as_object v) (\<lambda>m.
     Option.bind (defaulted [] as_str ''id'' m) (\<lambda>ident.
     Option.bind (defaulted [] as_str ''object'' m) (\<lambda>object.
     Option.bind (defaulted 0 dec_i64 ''created'' m) (\<lambda>created.
     Option.bind (defaulted [] as_str ''model'' m) (\<lambda>model.
     Option.bind (defaulted [] (dec_vec chat_choice_of_json) ''choices'' m) (\<lambda>choices.
     Option.bind (optional chat_usage_of_json ''usage'' m) (\<lambda>usage.
     Some \<lparr>comp_id = ident, comp_object = object, comp_created = created, comp_model = model,
      comp_choices = choices, comp_usage = usage, comp_extra = unclaimed CHAT_COMPLETION m\<rparr>)))))))"

definition chat_completion_ok :: "chat_completion \<Rightarrow> bool" where
  "chat_completion_ok c \<longleftrightarrow>
     free_of CHAT_COMPLETION (comp_extra c) \<and>
     list_all chat_choice_ok (comp_choices c) \<and>
     pred_option chat_usage_ok (comp_usage c)"

interpretation chat_completion_codec: struct_codec chat_completion_to_json chat_completion_of_json chat_completion_ok CHAT_COMPLETION
proof
  show "chat_completion_of_json (chat_completion_to_json c) = Some c" if "chat_completion_ok c" for c
    using that by (simp add: chat_completion_to_json_def chat_completion_of_json_def chat_completion_ok_def CHAT_COMPLETION_def serde_simps
      del: case_map_option split del: if_split)
  show decoded: "chat_completion_ok c" if "chat_completion_of_json v = Some c" for v c
    using that by (auto simp: chat_completion_of_json_def chat_completion_ok_def bind_eq_Some_conv)
  show "jget k (chat_completion_to_json c) = jget k v" if "chat_completion_of_json v = Some c" "k \<notin> set CHAT_COMPLETION" for v c k
    using that by (auto simp: chat_completion_of_json_def chat_completion_to_json_def bind_eq_Some_conv struct_kept CHAT_COMPLETION_def)
qed (simp add: chat_completion_to_json_def)

record chat_delta =
  delta_role :: "string option"
  delta_content :: "string option"
  delta_tool_calls :: "json list"
  delta_extra :: jobject

definition chat_delta_to_json :: "chat_delta \<Rightarrow> json" where
  "chat_delta_to_json c = struct
     [always ''role'' (enc_opt JString (delta_role c)),
      always ''content'' (enc_opt JString (delta_content c)),
      always ''tool_calls'' (enc_vec (\<lambda>v. v) (delta_tool_calls c))]
     (delta_extra c)"

definition CHAT_DELTA :: "string list" where
  "CHAT_DELTA = [''role'', ''content'', ''tool_calls'']"

definition chat_delta_of_json :: "json \<Rightarrow> chat_delta option" where
  "chat_delta_of_json v =
     Option.bind (as_object v) (\<lambda>m.
     Option.bind (optional as_str ''role'' m) (\<lambda>role.
     Option.bind (optional as_str ''content'' m) (\<lambda>content.
     Option.bind (defaulted [] (dec_vec Some) ''tool_calls'' m) (\<lambda>tool_calls.
     Some \<lparr>delta_role = role, delta_content = content, delta_tool_calls = tool_calls,
      delta_extra = unclaimed CHAT_DELTA m\<rparr>))))"

definition chat_delta_ok :: "chat_delta \<Rightarrow> bool" where
  "chat_delta_ok c \<longleftrightarrow>
     free_of CHAT_DELTA (delta_extra c)"

interpretation chat_delta_codec: struct_codec chat_delta_to_json chat_delta_of_json chat_delta_ok CHAT_DELTA
proof
  show "chat_delta_of_json (chat_delta_to_json c) = Some c" if "chat_delta_ok c" for c
    using that by (simp add: chat_delta_to_json_def chat_delta_of_json_def chat_delta_ok_def CHAT_DELTA_def serde_simps
      del: case_map_option split del: if_split)
  show decoded: "chat_delta_ok c" if "chat_delta_of_json v = Some c" for v c
    using that by (auto simp: chat_delta_of_json_def chat_delta_ok_def bind_eq_Some_conv)
  show "jget k (chat_delta_to_json c) = jget k v" if "chat_delta_of_json v = Some c" "k \<notin> set CHAT_DELTA" for v c k
    using that by (auto simp: chat_delta_of_json_def chat_delta_to_json_def bind_eq_Some_conv struct_kept CHAT_DELTA_def)
qed (simp add: chat_delta_to_json_def)

declare chat_delta_codec.round_trip [serde_simps]

definition default_chat_delta :: chat_delta where
  "default_chat_delta =
     \<lparr>delta_role = None, delta_content = None, delta_tool_calls = [], delta_extra = fmempty\<rparr>"

lemma defaulted_delta_ok [dest]:
  "defaulted default_chat_delta chat_delta_of_json k m = Some d \<Longrightarrow> chat_delta_ok d"
  by (auto simp: defaulted_def default_chat_delta_def chat_delta_ok_def free_of_def list_all_iff
      split: option.splits dest: chat_delta_codec.decoded_ok)

record chat_chunk_choice =
  part_index :: "32 word"
  part_delta :: chat_delta
  part_finish_reason :: "string option"
  part_extra :: jobject

definition chat_chunk_choice_to_json :: "chat_chunk_choice \<Rightarrow> json" where
  "chat_chunk_choice_to_json c = struct
     [always ''index'' (enc_uint (part_index c)), always ''delta'' (chat_delta_to_json (part_delta c)),
      always ''finish_reason'' (enc_opt JString (part_finish_reason c))]
     (part_extra c)"

definition CHAT_CHUNK_CHOICE :: "string list" where
  "CHAT_CHUNK_CHOICE = [''index'', ''delta'', ''finish_reason'']"

definition chat_chunk_choice_of_json :: "json \<Rightarrow> chat_chunk_choice option" where
  "chat_chunk_choice_of_json v =
     Option.bind (as_object v) (\<lambda>m.
     Option.bind (defaulted 0 dec_uint ''index'' m) (\<lambda>index.
     Option.bind (defaulted default_chat_delta chat_delta_of_json ''delta'' m) (\<lambda>delta.
     Option.bind (optional as_str ''finish_reason'' m) (\<lambda>finish_reason.
     Some \<lparr>part_index = index, part_delta = delta, part_finish_reason = finish_reason,
      part_extra = unclaimed CHAT_CHUNK_CHOICE m\<rparr>))))"

definition chat_chunk_choice_ok :: "chat_chunk_choice \<Rightarrow> bool" where
  "chat_chunk_choice_ok c \<longleftrightarrow>
     free_of CHAT_CHUNK_CHOICE (part_extra c) \<and>
     chat_delta_ok (part_delta c)"

interpretation chat_chunk_choice_codec: struct_codec chat_chunk_choice_to_json chat_chunk_choice_of_json chat_chunk_choice_ok CHAT_CHUNK_CHOICE
proof
  show "chat_chunk_choice_of_json (chat_chunk_choice_to_json c) = Some c" if "chat_chunk_choice_ok c" for c
    using that by (simp add: chat_chunk_choice_to_json_def chat_chunk_choice_of_json_def chat_chunk_choice_ok_def CHAT_CHUNK_CHOICE_def serde_simps
      del: case_map_option split del: if_split)
  show decoded: "chat_chunk_choice_ok c" if "chat_chunk_choice_of_json v = Some c" for v c
    using that by (auto simp: chat_chunk_choice_of_json_def chat_chunk_choice_ok_def bind_eq_Some_conv)
  show "jget k (chat_chunk_choice_to_json c) = jget k v" if "chat_chunk_choice_of_json v = Some c" "k \<notin> set CHAT_CHUNK_CHOICE" for v c k
    using that by (auto simp: chat_chunk_choice_of_json_def chat_chunk_choice_to_json_def bind_eq_Some_conv struct_kept CHAT_CHUNK_CHOICE_def)
qed (simp add: chat_chunk_choice_to_json_def)

record chat_completion_chunk =
  chunk_id :: string
  chunk_object :: string
  chunk_created :: "64 word"
  chunk_model :: string
  chunk_choices :: "chat_chunk_choice list"
  chunk_usage :: "chat_usage option"
  chunk_extra :: jobject

definition chat_completion_chunk_to_json :: "chat_completion_chunk \<Rightarrow> json" where
  "chat_completion_chunk_to_json c = struct
     [always ''id'' (JString (chunk_id c)), always ''object'' (JString (chunk_object c)),
      always ''created'' (enc_i64 (chunk_created c)), always ''model'' (JString (chunk_model c)),
      always ''choices'' (enc_vec chat_chunk_choice_to_json (chunk_choices c)),
      always ''usage'' (enc_opt chat_usage_to_json (chunk_usage c))]
     (chunk_extra c)"

definition CHAT_COMPLETION_CHUNK :: "string list" where
  "CHAT_COMPLETION_CHUNK = [''id'', ''object'', ''created'', ''model'', ''choices'', ''usage'']"

definition chat_completion_chunk_of_json :: "json \<Rightarrow> chat_completion_chunk option" where
  "chat_completion_chunk_of_json v =
     Option.bind (as_object v) (\<lambda>m.
     Option.bind (defaulted [] as_str ''id'' m) (\<lambda>ident.
     Option.bind (defaulted [] as_str ''object'' m) (\<lambda>object.
     Option.bind (defaulted 0 dec_i64 ''created'' m) (\<lambda>created.
     Option.bind (defaulted [] as_str ''model'' m) (\<lambda>model.
     Option.bind (defaulted [] (dec_vec chat_chunk_choice_of_json) ''choices'' m) (\<lambda>choices.
     Option.bind (optional chat_usage_of_json ''usage'' m) (\<lambda>usage.
     Some \<lparr>chunk_id = ident, chunk_object = object, chunk_created = created, chunk_model = model,
      chunk_choices = choices, chunk_usage = usage, chunk_extra = unclaimed CHAT_COMPLETION_CHUNK m\<rparr>)))))))"

definition chat_completion_chunk_ok :: "chat_completion_chunk \<Rightarrow> bool" where
  "chat_completion_chunk_ok c \<longleftrightarrow>
     free_of CHAT_COMPLETION_CHUNK (chunk_extra c) \<and>
     list_all chat_chunk_choice_ok (chunk_choices c) \<and>
     pred_option chat_usage_ok (chunk_usage c)"

interpretation chat_completion_chunk_codec: struct_codec chat_completion_chunk_to_json chat_completion_chunk_of_json chat_completion_chunk_ok CHAT_COMPLETION_CHUNK
proof
  show "chat_completion_chunk_of_json (chat_completion_chunk_to_json c) = Some c" if "chat_completion_chunk_ok c" for c
    using that by (simp add: chat_completion_chunk_to_json_def chat_completion_chunk_of_json_def chat_completion_chunk_ok_def CHAT_COMPLETION_CHUNK_def serde_simps
      del: case_map_option split del: if_split)
  show decoded: "chat_completion_chunk_ok c" if "chat_completion_chunk_of_json v = Some c" for v c
    using that by (auto simp: chat_completion_chunk_of_json_def chat_completion_chunk_ok_def bind_eq_Some_conv)
  show "jget k (chat_completion_chunk_to_json c) = jget k v" if "chat_completion_chunk_of_json v = Some c" "k \<notin> set CHAT_COMPLETION_CHUNK" for v c k
    using that by (auto simp: chat_completion_chunk_of_json_def chat_completion_chunk_to_json_def bind_eq_Some_conv struct_kept CHAT_COMPLETION_CHUNK_def)
qed (simp add: chat_completion_chunk_to_json_def)

section \<open>Responses\<close>

record responses_request =
  rreq_model :: string
  rreq_input :: json
  rreq_instructions :: "string option"
  rreq_models :: "string list"
  rreq_tools :: "json list"
  rreq_provider :: "provider_preferences option"
  rreq_metadata :: "json option"
  rreq_store :: bool
  rreq_extra :: jobject
  rreq_call_options :: call_options

definition responses_request_to_json :: "responses_request \<Rightarrow> json" where
  "responses_request_to_json c = struct
     [always ''model'' (JString (rreq_model c)), always ''input'' (rreq_input c),
      unless_none ''instructions'' JString (rreq_instructions c),
      unless_empty ''models'' JString (rreq_models c),
      unless_empty ''tools'' (\<lambda>v. v) (rreq_tools c),
      unless_none ''provider'' provider_preferences_to_json (rreq_provider c),
      unless_none ''metadata'' (\<lambda>v. v) (rreq_metadata c),
      always ''store'' (JBool (rreq_store c))]
     (rreq_extra c)"

definition responses_request_text :: "string \<Rightarrow> string \<Rightarrow> responses_request" where
  "responses_request_text model input =
     \<lparr>rreq_model = model, rreq_input = JString input, rreq_instructions = None, rreq_models = [],
      rreq_tools = [], rreq_provider = None, rreq_metadata = None, rreq_store = False,
      rreq_extra = fmempty, rreq_call_options = default_call_options\<rparr>"

record response_object =
  robj_id :: string
  robj_object :: string
  robj_created_at :: "64 word"
  robj_status :: string
  robj_model :: string
  robj_output :: "json list"
  robj_usage :: "json option"
  robj_extra :: jobject

definition response_object_to_json :: "response_object \<Rightarrow> json" where
  "response_object_to_json c = struct
     [always ''id'' (JString (robj_id c)), always ''object'' (JString (robj_object c)),
      always ''created_at'' (enc_i64 (robj_created_at c)), always ''status'' (JString (robj_status c)),
      always ''model'' (JString (robj_model c)),
      always ''output'' (enc_vec (\<lambda>v. v) (robj_output c)),
      always ''usage'' (enc_opt (\<lambda>v. v) (robj_usage c))]
     (robj_extra c)"

definition RESPONSE_OBJECT :: "string list" where
  "RESPONSE_OBJECT = [''id'', ''object'', ''created_at'', ''status'', ''model'', ''output'', ''usage'']"

definition response_object_of_json :: "json \<Rightarrow> response_object option" where
  "response_object_of_json v =
     Option.bind (as_object v) (\<lambda>m.
     Option.bind (required as_str ''id'' m) (\<lambda>ident.
     Option.bind (defaulted [] as_str ''object'' m) (\<lambda>object.
     Option.bind (defaulted 0 dec_i64 ''created_at'' m) (\<lambda>created_at.
     Option.bind (defaulted [] as_str ''status'' m) (\<lambda>status.
     Option.bind (defaulted [] as_str ''model'' m) (\<lambda>model.
     Option.bind (defaulted [] (dec_vec Some) ''output'' m) (\<lambda>output.
     Option.bind (optional Some ''usage'' m) (\<lambda>usage.
     Some \<lparr>robj_id = ident, robj_object = object, robj_created_at = created_at, robj_status = status,
      robj_model = model, robj_output = output, robj_usage = usage,
      robj_extra = unclaimed RESPONSE_OBJECT m\<rparr>))))))))"

definition response_object_ok :: "response_object \<Rightarrow> bool" where
  "response_object_ok c \<longleftrightarrow>
     free_of RESPONSE_OBJECT (robj_extra c) \<and>
     robj_usage c \<noteq> Some JNull"

interpretation response_object_codec: struct_codec response_object_to_json response_object_of_json response_object_ok RESPONSE_OBJECT
proof
  show "response_object_of_json (response_object_to_json c) = Some c" if "response_object_ok c" for c
    using that by (simp add: response_object_to_json_def response_object_of_json_def response_object_ok_def RESPONSE_OBJECT_def serde_simps
      del: case_map_option split del: if_split)
  show decoded: "response_object_ok c" if "response_object_of_json v = Some c" for v c
    using that by (auto simp: response_object_of_json_def response_object_ok_def bind_eq_Some_conv)
  show "jget k (response_object_to_json c) = jget k v" if "response_object_of_json v = Some c" "k \<notin> set RESPONSE_OBJECT" for v c k
    using that by (auto simp: response_object_of_json_def response_object_to_json_def bind_eq_Some_conv struct_kept RESPONSE_OBJECT_def)
qed (simp add: response_object_to_json_def)

record response_input_tokens =
  rtok_input_tokens :: "64 word"
  rtok_extra :: jobject

definition response_input_tokens_to_json :: "response_input_tokens \<Rightarrow> json" where
  "response_input_tokens_to_json c = struct
     [always ''input_tokens'' (enc_uint (rtok_input_tokens c))]
     (rtok_extra c)"

definition RESPONSE_INPUT_TOKENS :: "string list" where
  "RESPONSE_INPUT_TOKENS = [''input_tokens'']"

definition response_input_tokens_of_json :: "json \<Rightarrow> response_input_tokens option" where
  "response_input_tokens_of_json v =
     Option.bind (as_object v) (\<lambda>m.
     Option.bind (required dec_uint ''input_tokens'' m) (\<lambda>input_tokens.
     Some \<lparr>rtok_input_tokens = input_tokens, rtok_extra = unclaimed RESPONSE_INPUT_TOKENS m\<rparr>))"

definition response_input_tokens_ok :: "response_input_tokens \<Rightarrow> bool" where
  "response_input_tokens_ok c \<longleftrightarrow>
     free_of RESPONSE_INPUT_TOKENS (rtok_extra c)"

interpretation response_input_tokens_codec: struct_codec response_input_tokens_to_json response_input_tokens_of_json response_input_tokens_ok RESPONSE_INPUT_TOKENS
proof
  show "response_input_tokens_of_json (response_input_tokens_to_json c) = Some c" if "response_input_tokens_ok c" for c
    using that by (simp add: response_input_tokens_to_json_def response_input_tokens_of_json_def response_input_tokens_ok_def RESPONSE_INPUT_TOKENS_def serde_simps
      del: case_map_option split del: if_split)
  show decoded: "response_input_tokens_ok c" if "response_input_tokens_of_json v = Some c" for v c
    using that by (auto simp: response_input_tokens_of_json_def response_input_tokens_ok_def bind_eq_Some_conv)
  show "jget k (response_input_tokens_to_json c) = jget k v" if "response_input_tokens_of_json v = Some c" "k \<notin> set RESPONSE_INPUT_TOKENS" for v c k
    using that by (auto simp: response_input_tokens_of_json_def response_input_tokens_to_json_def bind_eq_Some_conv struct_kept RESPONSE_INPUT_TOKENS_def)
qed (simp add: response_input_tokens_to_json_def)

section \<open>Messages and embeddings\<close>

record messages_request =
  mreq_model :: string
  mreq_messages :: "json list"
  mreq_max_tokens :: "32 word"
  mreq_system :: "json option"
  mreq_provider :: "provider_preferences option"
  mreq_extra :: jobject
  mreq_call_options :: call_options

definition messages_request_to_json :: "messages_request \<Rightarrow> json" where
  "messages_request_to_json c = struct
     [always ''model'' (JString (mreq_model c)),
      always ''messages'' (enc_vec (\<lambda>v. v) (mreq_messages c)),
      always ''max_tokens'' (enc_uint (mreq_max_tokens c)),
      unless_none ''system'' (\<lambda>v. v) (mreq_system c),
      unless_none ''provider'' provider_preferences_to_json (mreq_provider c)]
     (mreq_extra c)"

record messages_response =
  mresp_id :: string
  mresp_model :: string
  mresp_content :: "json list"
  mresp_stop_reason :: "string option"
  mresp_usage :: "json option"
  mresp_extra :: jobject

definition messages_response_to_json :: "messages_response \<Rightarrow> json" where
  "messages_response_to_json c = struct
     [always ''id'' (JString (mresp_id c)), always ''model'' (JString (mresp_model c)),
      always ''content'' (enc_vec (\<lambda>v. v) (mresp_content c)),
      always ''stop_reason'' (enc_opt JString (mresp_stop_reason c)),
      always ''usage'' (enc_opt (\<lambda>v. v) (mresp_usage c))]
     (mresp_extra c)"

definition MESSAGES_RESPONSE :: "string list" where
  "MESSAGES_RESPONSE = [''id'', ''model'', ''content'', ''stop_reason'', ''usage'']"

definition messages_response_of_json :: "json \<Rightarrow> messages_response option" where
  "messages_response_of_json v =
     Option.bind (as_object v) (\<lambda>m.
     Option.bind (required as_str ''id'' m) (\<lambda>ident.
     Option.bind (defaulted [] as_str ''model'' m) (\<lambda>model.
     Option.bind (defaulted [] (dec_vec Some) ''content'' m) (\<lambda>content.
     Option.bind (optional as_str ''stop_reason'' m) (\<lambda>stop_reason.
     Option.bind (optional Some ''usage'' m) (\<lambda>usage.
     Some \<lparr>mresp_id = ident, mresp_model = model, mresp_content = content, mresp_stop_reason = stop_reason,
      mresp_usage = usage, mresp_extra = unclaimed MESSAGES_RESPONSE m\<rparr>))))))"

definition messages_response_ok :: "messages_response \<Rightarrow> bool" where
  "messages_response_ok c \<longleftrightarrow>
     free_of MESSAGES_RESPONSE (mresp_extra c) \<and>
     mresp_usage c \<noteq> Some JNull"

interpretation messages_response_codec: struct_codec messages_response_to_json messages_response_of_json messages_response_ok MESSAGES_RESPONSE
proof
  show "messages_response_of_json (messages_response_to_json c) = Some c" if "messages_response_ok c" for c
    using that by (simp add: messages_response_to_json_def messages_response_of_json_def messages_response_ok_def MESSAGES_RESPONSE_def serde_simps
      del: case_map_option split del: if_split)
  show decoded: "messages_response_ok c" if "messages_response_of_json v = Some c" for v c
    using that by (auto simp: messages_response_of_json_def messages_response_ok_def bind_eq_Some_conv)
  show "jget k (messages_response_to_json c) = jget k v" if "messages_response_of_json v = Some c" "k \<notin> set MESSAGES_RESPONSE" for v c k
    using that by (auto simp: messages_response_of_json_def messages_response_to_json_def bind_eq_Some_conv struct_kept MESSAGES_RESPONSE_def)
qed (simp add: messages_response_to_json_def)

record embeddings_request =
  emb_model :: string
  emb_input :: json
  emb_provider :: "provider_preferences option"
  emb_extra :: jobject
  emb_call_options :: call_options

definition embeddings_request_to_json :: "embeddings_request \<Rightarrow> json" where
  "embeddings_request_to_json c = struct
     [always ''model'' (JString (emb_model c)), always ''input'' (emb_input c),
      unless_none ''provider'' provider_preferences_to_json (emb_provider c)]
     (emb_extra c)"

record embedding_response =
  eresp_data :: "json list"
  eresp_model :: string
  eresp_usage :: "json option"
  eresp_extra :: jobject

definition embedding_response_to_json :: "embedding_response \<Rightarrow> json" where
  "embedding_response_to_json c = struct
     [always ''data'' (enc_vec (\<lambda>v. v) (eresp_data c)),
      always ''model'' (JString (eresp_model c)),
      always ''usage'' (enc_opt (\<lambda>v. v) (eresp_usage c))]
     (eresp_extra c)"

definition EMBEDDING_RESPONSE :: "string list" where
  "EMBEDDING_RESPONSE = [''data'', ''model'', ''usage'']"

definition embedding_response_of_json :: "json \<Rightarrow> embedding_response option" where
  "embedding_response_of_json v =
     Option.bind (as_object v) (\<lambda>m.
     Option.bind (defaulted [] (dec_vec Some) ''data'' m) (\<lambda>items.
     Option.bind (defaulted [] as_str ''model'' m) (\<lambda>model.
     Option.bind (optional Some ''usage'' m) (\<lambda>usage.
     Some \<lparr>eresp_data = items, eresp_model = model, eresp_usage = usage,
      eresp_extra = unclaimed EMBEDDING_RESPONSE m\<rparr>))))"

definition embedding_response_ok :: "embedding_response \<Rightarrow> bool" where
  "embedding_response_ok c \<longleftrightarrow>
     free_of EMBEDDING_RESPONSE (eresp_extra c) \<and>
     eresp_usage c \<noteq> Some JNull"

interpretation embedding_response_codec: struct_codec embedding_response_to_json embedding_response_of_json embedding_response_ok EMBEDDING_RESPONSE
proof
  show "embedding_response_of_json (embedding_response_to_json c) = Some c" if "embedding_response_ok c" for c
    using that by (simp add: embedding_response_to_json_def embedding_response_of_json_def embedding_response_ok_def EMBEDDING_RESPONSE_def serde_simps
      del: case_map_option split del: if_split)
  show decoded: "embedding_response_ok c" if "embedding_response_of_json v = Some c" for v c
    using that by (auto simp: embedding_response_of_json_def embedding_response_ok_def bind_eq_Some_conv)
  show "jget k (embedding_response_to_json c) = jget k v" if "embedding_response_of_json v = Some c" "k \<notin> set EMBEDDING_RESPONSE" for v c k
    using that by (auto simp: embedding_response_of_json_def embedding_response_to_json_def bind_eq_Some_conv struct_kept EMBEDDING_RESPONSE_def)
qed (simp add: embedding_response_to_json_def)

end
