(* ===== verification/TR_Catalogue.thy ===== *)
theory TR_Catalogue
  imports TR_Models
begin

text \<open>
  The structs of the control plane (\<open>types.rs\<close>): catalogues, account data, broadcast destinations,
  checkout and session answers, with the identity check of \<open>oauth.rs\<close> that guards the deserialiser
  of key-bound user information.
\<close>

section \<open>Catalogues\<close>

record model_info =
  minfo_id :: string
  minfo_name :: string
  minfo_description :: string
  minfo_context_length :: "(64 word) option"
  minfo_pricing :: "json option"
  minfo_architecture :: "json option"
  minfo_trustedrouter :: "json option"
  minfo_extra :: jobject

definition model_info_to_json :: "model_info \<Rightarrow> json" where
  "model_info_to_json c = struct
     [always ''id'' (JString (minfo_id c)), always ''name'' (JString (minfo_name c)),
      always ''description'' (JString (minfo_description c)),
      always ''context_length'' (enc_opt enc_uint (minfo_context_length c)),
      always ''pricing'' (enc_opt (\<lambda>v. v) (minfo_pricing c)),
      always ''architecture'' (enc_opt (\<lambda>v. v) (minfo_architecture c)),
      always ''trustedrouter'' (enc_opt (\<lambda>v. v) (minfo_trustedrouter c))]
     (minfo_extra c)"

definition MODEL_INFO :: "string list" where
  "MODEL_INFO = [''id'', ''name'', ''description'', ''context_length'', ''pricing'', ''architecture'',
      ''trustedrouter'']"

definition model_info_of_json :: "json \<Rightarrow> model_info option" where
  "model_info_of_json v =
     Option.bind (as_object v) (\<lambda>m.
     Option.bind (required as_str ''id'' m) (\<lambda>ident.
     Option.bind (defaulted [] as_str ''name'' m) (\<lambda>name.
     Option.bind (defaulted [] as_str ''description'' m) (\<lambda>description.
     Option.bind (optional dec_uint ''context_length'' m) (\<lambda>context_length.
     Option.bind (optional Some ''pricing'' m) (\<lambda>pricing.
     Option.bind (optional Some ''architecture'' m) (\<lambda>architecture.
     Option.bind (optional Some ''trustedrouter'' m) (\<lambda>trustedrouter.
     Some \<lparr>minfo_id = ident, minfo_name = name, minfo_description = description,
      minfo_context_length = context_length, minfo_pricing = pricing, minfo_architecture = architecture,
      minfo_trustedrouter = trustedrouter, minfo_extra = unclaimed MODEL_INFO m\<rparr>))))))))"

definition model_info_ok :: "model_info \<Rightarrow> bool" where
  "model_info_ok c \<longleftrightarrow>
     free_of MODEL_INFO (minfo_extra c) \<and>
     minfo_pricing c \<noteq> Some JNull \<and>
     minfo_architecture c \<noteq> Some JNull \<and>
     minfo_trustedrouter c \<noteq> Some JNull"

interpretation model_info_codec: struct_codec model_info_to_json model_info_of_json model_info_ok MODEL_INFO
proof
  show "model_info_of_json (model_info_to_json c) = Some c" if "model_info_ok c" for c
    using that by (simp add: model_info_to_json_def model_info_of_json_def model_info_ok_def MODEL_INFO_def serde_simps
      del: case_map_option split del: if_split)
  show decoded: "model_info_ok c" if "model_info_of_json v = Some c" for v c
    using that by (auto simp: model_info_of_json_def model_info_ok_def bind_eq_Some_conv)
  show "jget k (model_info_to_json c) = jget k v" if "model_info_of_json v = Some c" "k \<notin> set MODEL_INFO" for v c k
    using that by (auto simp: model_info_of_json_def model_info_to_json_def bind_eq_Some_conv struct_kept MODEL_INFO_def)
qed (simp add: model_info_to_json_def)

record model_list =
  mlist_data :: "model_info list"
  mlist_extra :: jobject

definition model_list_to_json :: "model_list \<Rightarrow> json" where
  "model_list_to_json c = struct
     [always ''data'' (enc_vec model_info_to_json (mlist_data c))]
     (mlist_extra c)"

definition MODEL_LIST :: "string list" where
  "MODEL_LIST = [''data'']"

definition model_list_of_json :: "json \<Rightarrow> model_list option" where
  "model_list_of_json v =
     Option.bind (as_object v) (\<lambda>m.
     Option.bind (defaulted [] (dec_vec model_info_of_json) ''data'' m) (\<lambda>items.
     Some \<lparr>mlist_data = items, mlist_extra = unclaimed MODEL_LIST m\<rparr>))"

definition model_list_ok :: "model_list \<Rightarrow> bool" where
  "model_list_ok c \<longleftrightarrow>
     free_of MODEL_LIST (mlist_extra c) \<and>
     list_all model_info_ok (mlist_data c)"

interpretation model_list_codec: struct_codec model_list_to_json model_list_of_json model_list_ok MODEL_LIST
proof
  show "model_list_of_json (model_list_to_json c) = Some c" if "model_list_ok c" for c
    using that by (simp add: model_list_to_json_def model_list_of_json_def model_list_ok_def MODEL_LIST_def serde_simps
      del: case_map_option split del: if_split)
  show decoded: "model_list_ok c" if "model_list_of_json v = Some c" for v c
    using that by (auto simp: model_list_of_json_def model_list_ok_def bind_eq_Some_conv)
  show "jget k (model_list_to_json c) = jget k v" if "model_list_of_json v = Some c" "k \<notin> set MODEL_LIST" for v c k
    using that by (auto simp: model_list_of_json_def model_list_to_json_def bind_eq_Some_conv struct_kept MODEL_LIST_def)
qed (simp add: model_list_to_json_def)

definition by_id :: "string \<Rightarrow> model_list \<Rightarrow> model_info option" where
  "by_id model_id models = find (\<lambda>model. minfo_id model = model_id) (mlist_data models)"

record provider_info =
  pinfo_id :: string
  pinfo_name :: string
  pinfo_extra :: jobject

definition provider_info_to_json :: "provider_info \<Rightarrow> json" where
  "provider_info_to_json c = struct
     [always ''id'' (JString (pinfo_id c)), always ''name'' (JString (pinfo_name c))]
     (pinfo_extra c)"

definition PROVIDER_INFO :: "string list" where
  "PROVIDER_INFO = [''id'', ''name'']"

definition provider_info_of_json :: "json \<Rightarrow> provider_info option" where
  "provider_info_of_json v =
     Option.bind (as_object v) (\<lambda>m.
     Option.bind (required as_str ''id'' m) (\<lambda>ident.
     Option.bind (defaulted [] as_str ''name'' m) (\<lambda>name.
     Some \<lparr>pinfo_id = ident, pinfo_name = name, pinfo_extra = unclaimed PROVIDER_INFO m\<rparr>)))"

definition provider_info_ok :: "provider_info \<Rightarrow> bool" where
  "provider_info_ok c \<longleftrightarrow>
     free_of PROVIDER_INFO (pinfo_extra c)"

interpretation provider_info_codec: struct_codec provider_info_to_json provider_info_of_json provider_info_ok PROVIDER_INFO
proof
  show "provider_info_of_json (provider_info_to_json c) = Some c" if "provider_info_ok c" for c
    using that by (simp add: provider_info_to_json_def provider_info_of_json_def provider_info_ok_def PROVIDER_INFO_def serde_simps
      del: case_map_option split del: if_split)
  show decoded: "provider_info_ok c" if "provider_info_of_json v = Some c" for v c
    using that by (auto simp: provider_info_of_json_def provider_info_ok_def bind_eq_Some_conv)
  show "jget k (provider_info_to_json c) = jget k v" if "provider_info_of_json v = Some c" "k \<notin> set PROVIDER_INFO" for v c k
    using that by (auto simp: provider_info_of_json_def provider_info_to_json_def bind_eq_Some_conv struct_kept PROVIDER_INFO_def)
qed (simp add: provider_info_to_json_def)

record provider_list =
  plist_data :: "provider_info list"
  plist_extra :: jobject

definition provider_list_to_json :: "provider_list \<Rightarrow> json" where
  "provider_list_to_json c = struct
     [always ''data'' (enc_vec provider_info_to_json (plist_data c))]
     (plist_extra c)"

definition PROVIDER_LIST :: "string list" where
  "PROVIDER_LIST = [''data'']"

definition provider_list_of_json :: "json \<Rightarrow> provider_list option" where
  "provider_list_of_json v =
     Option.bind (as_object v) (\<lambda>m.
     Option.bind (defaulted [] (dec_vec provider_info_of_json) ''data'' m) (\<lambda>items.
     Some \<lparr>plist_data = items, plist_extra = unclaimed PROVIDER_LIST m\<rparr>))"

definition provider_list_ok :: "provider_list \<Rightarrow> bool" where
  "provider_list_ok c \<longleftrightarrow>
     free_of PROVIDER_LIST (plist_extra c) \<and>
     list_all provider_info_ok (plist_data c)"

interpretation provider_list_codec: struct_codec provider_list_to_json provider_list_of_json provider_list_ok PROVIDER_LIST
proof
  show "provider_list_of_json (provider_list_to_json c) = Some c" if "provider_list_ok c" for c
    using that by (simp add: provider_list_to_json_def provider_list_of_json_def provider_list_ok_def PROVIDER_LIST_def serde_simps
      del: case_map_option split del: if_split)
  show decoded: "provider_list_ok c" if "provider_list_of_json v = Some c" for v c
    using that by (auto simp: provider_list_of_json_def provider_list_ok_def bind_eq_Some_conv)
  show "jget k (provider_list_to_json c) = jget k v" if "provider_list_of_json v = Some c" "k \<notin> set PROVIDER_LIST" for v c k
    using that by (auto simp: provider_list_of_json_def provider_list_to_json_def bind_eq_Some_conv struct_kept PROVIDER_LIST_def)
qed (simp add: provider_list_to_json_def)

record region_info =
  rinfo_id :: string
  rinfo_name :: string
  rinfo_extra :: jobject

definition region_info_to_json :: "region_info \<Rightarrow> json" where
  "region_info_to_json c = struct
     [always ''id'' (JString (rinfo_id c)), always ''name'' (JString (rinfo_name c))]
     (rinfo_extra c)"

definition REGION_INFO :: "string list" where
  "REGION_INFO = [''id'', ''name'']"

definition region_info_of_json :: "json \<Rightarrow> region_info option" where
  "region_info_of_json v =
     Option.bind (as_object v) (\<lambda>m.
     Option.bind (required as_str ''id'' m) (\<lambda>ident.
     Option.bind (defaulted [] as_str ''name'' m) (\<lambda>name.
     Some \<lparr>rinfo_id = ident, rinfo_name = name, rinfo_extra = unclaimed REGION_INFO m\<rparr>)))"

definition region_info_ok :: "region_info \<Rightarrow> bool" where
  "region_info_ok c \<longleftrightarrow>
     free_of REGION_INFO (rinfo_extra c)"

interpretation region_info_codec: struct_codec region_info_to_json region_info_of_json region_info_ok REGION_INFO
proof
  show "region_info_of_json (region_info_to_json c) = Some c" if "region_info_ok c" for c
    using that by (simp add: region_info_to_json_def region_info_of_json_def region_info_ok_def REGION_INFO_def serde_simps
      del: case_map_option split del: if_split)
  show decoded: "region_info_ok c" if "region_info_of_json v = Some c" for v c
    using that by (auto simp: region_info_of_json_def region_info_ok_def bind_eq_Some_conv)
  show "jget k (region_info_to_json c) = jget k v" if "region_info_of_json v = Some c" "k \<notin> set REGION_INFO" for v c k
    using that by (auto simp: region_info_of_json_def region_info_to_json_def bind_eq_Some_conv struct_kept REGION_INFO_def)
qed (simp add: region_info_to_json_def)

record region_list =
  rlist_data :: "region_info list"
  rlist_extra :: jobject

definition region_list_to_json :: "region_list \<Rightarrow> json" where
  "region_list_to_json c = struct
     [always ''data'' (enc_vec region_info_to_json (rlist_data c))]
     (rlist_extra c)"

definition REGION_LIST :: "string list" where
  "REGION_LIST = [''data'']"

definition region_list_of_json :: "json \<Rightarrow> region_list option" where
  "region_list_of_json v =
     Option.bind (as_object v) (\<lambda>m.
     Option.bind (defaulted [] (dec_vec region_info_of_json) ''data'' m) (\<lambda>items.
     Some \<lparr>rlist_data = items, rlist_extra = unclaimed REGION_LIST m\<rparr>))"

definition region_list_ok :: "region_list \<Rightarrow> bool" where
  "region_list_ok c \<longleftrightarrow>
     free_of REGION_LIST (rlist_extra c) \<and>
     list_all region_info_ok (rlist_data c)"

interpretation region_list_codec: struct_codec region_list_to_json region_list_of_json region_list_ok REGION_LIST
proof
  show "region_list_of_json (region_list_to_json c) = Some c" if "region_list_ok c" for c
    using that by (simp add: region_list_to_json_def region_list_of_json_def region_list_ok_def REGION_LIST_def serde_simps
      del: case_map_option split del: if_split)
  show decoded: "region_list_ok c" if "region_list_of_json v = Some c" for v c
    using that by (auto simp: region_list_of_json_def region_list_ok_def bind_eq_Some_conv)
  show "jget k (region_list_to_json c) = jget k v" if "region_list_of_json v = Some c" "k \<notin> set REGION_LIST" for v c k
    using that by (auto simp: region_list_of_json_def region_list_to_json_def bind_eq_Some_conv struct_kept REGION_LIST_def)
qed (simp add: region_list_to_json_def)

section \<open>Account\<close>

record credits_balance =
  cred_data :: json
  cred_extra :: jobject

definition credits_balance_to_json :: "credits_balance \<Rightarrow> json" where
  "credits_balance_to_json c = struct
     [always ''data'' (cred_data c)]
     (cred_extra c)"

definition CREDITS_BALANCE :: "string list" where
  "CREDITS_BALANCE = [''data'']"

definition credits_balance_of_json :: "json \<Rightarrow> credits_balance option" where
  "credits_balance_of_json v =
     Option.bind (as_object v) (\<lambda>m.
     Option.bind (required Some ''data'' m) (\<lambda>items.
     Some \<lparr>cred_data = items, cred_extra = unclaimed CREDITS_BALANCE m\<rparr>))"

definition credits_balance_ok :: "credits_balance \<Rightarrow> bool" where
  "credits_balance_ok c \<longleftrightarrow>
     free_of CREDITS_BALANCE (cred_extra c)"

interpretation credits_balance_codec: struct_codec credits_balance_to_json credits_balance_of_json credits_balance_ok CREDITS_BALANCE
proof
  show "credits_balance_of_json (credits_balance_to_json c) = Some c" if "credits_balance_ok c" for c
    using that by (simp add: credits_balance_to_json_def credits_balance_of_json_def credits_balance_ok_def CREDITS_BALANCE_def serde_simps
      del: case_map_option split del: if_split)
  show decoded: "credits_balance_ok c" if "credits_balance_of_json v = Some c" for v c
    using that by (auto simp: credits_balance_of_json_def credits_balance_ok_def bind_eq_Some_conv)
  show "jget k (credits_balance_to_json c) = jget k v" if "credits_balance_of_json v = Some c" "k \<notin> set CREDITS_BALANCE" for v c k
    using that by (auto simp: credits_balance_of_json_def credits_balance_to_json_def bind_eq_Some_conv struct_kept CREDITS_BALANCE_def)
qed (simp add: credits_balance_to_json_def)

record activity_response =
  act_activities :: "json list"
  act_extra :: jobject

definition activity_response_to_json :: "activity_response \<Rightarrow> json" where
  "activity_response_to_json c = struct
     [always ''activities'' (enc_vec (\<lambda>v. v) (act_activities c))]
     (act_extra c)"

definition ACTIVITY_RESPONSE :: "string list" where
  "ACTIVITY_RESPONSE = [''activities'']"

definition activity_response_of_json :: "json \<Rightarrow> activity_response option" where
  "activity_response_of_json v =
     Option.bind (as_object v) (\<lambda>m.
     Option.bind (defaulted [] (dec_vec Some) ''activities'' m) (\<lambda>activities.
     Some \<lparr>act_activities = activities, act_extra = unclaimed ACTIVITY_RESPONSE m\<rparr>))"

definition activity_response_ok :: "activity_response \<Rightarrow> bool" where
  "activity_response_ok c \<longleftrightarrow>
     free_of ACTIVITY_RESPONSE (act_extra c)"

interpretation activity_response_codec: struct_codec activity_response_to_json activity_response_of_json activity_response_ok ACTIVITY_RESPONSE
proof
  show "activity_response_of_json (activity_response_to_json c) = Some c" if "activity_response_ok c" for c
    using that by (simp add: activity_response_to_json_def activity_response_of_json_def activity_response_ok_def ACTIVITY_RESPONSE_def serde_simps
      del: case_map_option split del: if_split)
  show decoded: "activity_response_ok c" if "activity_response_of_json v = Some c" for v c
    using that by (auto simp: activity_response_of_json_def activity_response_ok_def bind_eq_Some_conv)
  show "jget k (activity_response_to_json c) = jget k v" if "activity_response_of_json v = Some c" "k \<notin> set ACTIVITY_RESPONSE" for v c k
    using that by (auto simp: activity_response_of_json_def activity_response_to_json_def bind_eq_Some_conv struct_kept ACTIVITY_RESPONSE_def)
qed (simp add: activity_response_to_json_def)

record broadcast_destination =
  dest_id :: string
  dest_destination_type :: string
  dest_name :: "string option"
  dest_endpoint :: "string option"
  dest_enabled :: "bool option"
  dest_include_content :: "bool option"
  dest_method :: "string option"
  dest_extra :: jobject

definition broadcast_destination_to_json :: "broadcast_destination \<Rightarrow> json" where
  "broadcast_destination_to_json c = struct
     [always ''id'' (JString (dest_id c)), always ''type'' (JString (dest_destination_type c)),
      always ''name'' (enc_opt JString (dest_name c)),
      always ''endpoint'' (enc_opt JString (dest_endpoint c)),
      always ''enabled'' (enc_opt JBool (dest_enabled c)),
      always ''include_content'' (enc_opt JBool (dest_include_content c)),
      always ''method'' (enc_opt JString (dest_method c))]
     (dest_extra c)"

definition BROADCAST_DESTINATION :: "string list" where
  "BROADCAST_DESTINATION = [''id'', ''type'', ''name'', ''endpoint'', ''enabled'', ''include_content'', ''method'']"

definition broadcast_destination_of_json :: "json \<Rightarrow> broadcast_destination option" where
  "broadcast_destination_of_json v =
     Option.bind (as_object v) (\<lambda>m.
     Option.bind (required as_str ''id'' m) (\<lambda>ident.
     Option.bind (required as_str ''type'' m) (\<lambda>destination_type.
     Option.bind (optional as_str ''name'' m) (\<lambda>name.
     Option.bind (optional as_str ''endpoint'' m) (\<lambda>endpoint.
     Option.bind (optional as_bool ''enabled'' m) (\<lambda>enabled.
     Option.bind (optional as_bool ''include_content'' m) (\<lambda>include_content.
     Option.bind (optional as_str ''method'' m) (\<lambda>method.
     Some \<lparr>dest_id = ident, dest_destination_type = destination_type, dest_name = name,
      dest_endpoint = endpoint, dest_enabled = enabled, dest_include_content = include_content,
      dest_method = method, dest_extra = unclaimed BROADCAST_DESTINATION m\<rparr>))))))))"

definition broadcast_destination_ok :: "broadcast_destination \<Rightarrow> bool" where
  "broadcast_destination_ok c \<longleftrightarrow>
     free_of BROADCAST_DESTINATION (dest_extra c)"

interpretation broadcast_destination_codec: struct_codec broadcast_destination_to_json broadcast_destination_of_json broadcast_destination_ok BROADCAST_DESTINATION
proof
  show "broadcast_destination_of_json (broadcast_destination_to_json c) = Some c" if "broadcast_destination_ok c" for c
    using that by (simp add: broadcast_destination_to_json_def broadcast_destination_of_json_def broadcast_destination_ok_def BROADCAST_DESTINATION_def serde_simps
      del: case_map_option split del: if_split)
  show decoded: "broadcast_destination_ok c" if "broadcast_destination_of_json v = Some c" for v c
    using that by (auto simp: broadcast_destination_of_json_def broadcast_destination_ok_def bind_eq_Some_conv)
  show "jget k (broadcast_destination_to_json c) = jget k v" if "broadcast_destination_of_json v = Some c" "k \<notin> set BROADCAST_DESTINATION" for v c k
    using that by (auto simp: broadcast_destination_of_json_def broadcast_destination_to_json_def bind_eq_Some_conv struct_kept BROADCAST_DESTINATION_def)
qed (simp add: broadcast_destination_to_json_def)

record broadcast_destination_list =
  dlist_data :: "broadcast_destination list"
  dlist_extra :: jobject

definition broadcast_destination_list_to_json :: "broadcast_destination_list \<Rightarrow> json" where
  "broadcast_destination_list_to_json c = struct
     [always ''data'' (enc_vec broadcast_destination_to_json (dlist_data c))]
     (dlist_extra c)"

definition BROADCAST_DESTINATION_LIST :: "string list" where
  "BROADCAST_DESTINATION_LIST = [''data'']"

definition broadcast_destination_list_of_json :: "json \<Rightarrow> broadcast_destination_list option" where
  "broadcast_destination_list_of_json v =
     Option.bind (as_object v) (\<lambda>m.
     Option.bind (defaulted [] (dec_vec broadcast_destination_of_json) ''data'' m) (\<lambda>items.
     Some \<lparr>dlist_data = items, dlist_extra = unclaimed BROADCAST_DESTINATION_LIST m\<rparr>))"

definition broadcast_destination_list_ok :: "broadcast_destination_list \<Rightarrow> bool" where
  "broadcast_destination_list_ok c \<longleftrightarrow>
     free_of BROADCAST_DESTINATION_LIST (dlist_extra c) \<and>
     list_all broadcast_destination_ok (dlist_data c)"

interpretation broadcast_destination_list_codec: struct_codec broadcast_destination_list_to_json broadcast_destination_list_of_json broadcast_destination_list_ok BROADCAST_DESTINATION_LIST
proof
  show "broadcast_destination_list_of_json (broadcast_destination_list_to_json c) = Some c" if "broadcast_destination_list_ok c" for c
    using that by (simp add: broadcast_destination_list_to_json_def broadcast_destination_list_of_json_def broadcast_destination_list_ok_def BROADCAST_DESTINATION_LIST_def serde_simps
      del: case_map_option split del: if_split)
  show decoded: "broadcast_destination_list_ok c" if "broadcast_destination_list_of_json v = Some c" for v c
    using that by (auto simp: broadcast_destination_list_of_json_def broadcast_destination_list_ok_def bind_eq_Some_conv)
  show "jget k (broadcast_destination_list_to_json c) = jget k v" if "broadcast_destination_list_of_json v = Some c" "k \<notin> set BROADCAST_DESTINATION_LIST" for v c k
    using that by (auto simp: broadcast_destination_list_of_json_def broadcast_destination_list_to_json_def bind_eq_Some_conv struct_kept BROADCAST_DESTINATION_LIST_def)
qed (simp add: broadcast_destination_list_to_json_def)

record checkout_response =
  chk_url :: "string option"
  chk_status :: "string option"
  chk_extra :: jobject

definition checkout_response_to_json :: "checkout_response \<Rightarrow> json" where
  "checkout_response_to_json c = struct
     [always ''url'' (enc_opt JString (chk_url c)), always ''status'' (enc_opt JString (chk_status c))]
     (chk_extra c)"

definition CHECKOUT_RESPONSE :: "string list" where
  "CHECKOUT_RESPONSE = [''url'', ''status'']"

definition checkout_response_of_json :: "json \<Rightarrow> checkout_response option" where
  "checkout_response_of_json v =
     Option.bind (as_object v) (\<lambda>m.
     Option.bind (optional as_str ''url'' m) (\<lambda>url.
     Option.bind (optional as_str ''status'' m) (\<lambda>status.
     Some \<lparr>chk_url = url, chk_status = status, chk_extra = unclaimed CHECKOUT_RESPONSE m\<rparr>)))"

definition checkout_response_ok :: "checkout_response \<Rightarrow> bool" where
  "checkout_response_ok c \<longleftrightarrow>
     free_of CHECKOUT_RESPONSE (chk_extra c)"

interpretation checkout_response_codec: struct_codec checkout_response_to_json checkout_response_of_json checkout_response_ok CHECKOUT_RESPONSE
proof
  show "checkout_response_of_json (checkout_response_to_json c) = Some c" if "checkout_response_ok c" for c
    using that by (simp add: checkout_response_to_json_def checkout_response_of_json_def checkout_response_ok_def CHECKOUT_RESPONSE_def serde_simps
      del: case_map_option split del: if_split)
  show decoded: "checkout_response_ok c" if "checkout_response_of_json v = Some c" for v c
    using that by (auto simp: checkout_response_of_json_def checkout_response_ok_def bind_eq_Some_conv)
  show "jget k (checkout_response_to_json c) = jget k v" if "checkout_response_of_json v = Some c" "k \<notin> set CHECKOUT_RESPONSE" for v c k
    using that by (auto simp: checkout_response_of_json_def checkout_response_to_json_def bind_eq_Some_conv struct_kept CHECKOUT_RESPONSE_def)
qed (simp add: checkout_response_to_json_def)

record auth_session_response =
  sess_authenticated :: bool
  sess_user :: "json option"
  sess_extra :: jobject

definition auth_session_response_to_json :: "auth_session_response \<Rightarrow> json" where
  "auth_session_response_to_json c = struct
     [always ''authenticated'' (JBool (sess_authenticated c)),
      always ''user'' (enc_opt (\<lambda>v. v) (sess_user c))]
     (sess_extra c)"

definition AUTH_SESSION_RESPONSE :: "string list" where
  "AUTH_SESSION_RESPONSE = [''authenticated'', ''user'']"

definition auth_session_response_of_json :: "json \<Rightarrow> auth_session_response option" where
  "auth_session_response_of_json v =
     Option.bind (as_object v) (\<lambda>m.
     Option.bind (required as_bool ''authenticated'' m) (\<lambda>authenticated.
     Option.bind (optional Some ''user'' m) (\<lambda>user.
     Some \<lparr>sess_authenticated = authenticated, sess_user = user,
      sess_extra = unclaimed AUTH_SESSION_RESPONSE m\<rparr>)))"

definition auth_session_response_ok :: "auth_session_response \<Rightarrow> bool" where
  "auth_session_response_ok c \<longleftrightarrow>
     free_of AUTH_SESSION_RESPONSE (sess_extra c) \<and>
     sess_user c \<noteq> Some JNull"

interpretation auth_session_response_codec: struct_codec auth_session_response_to_json auth_session_response_of_json auth_session_response_ok AUTH_SESSION_RESPONSE
proof
  show "auth_session_response_of_json (auth_session_response_to_json c) = Some c" if "auth_session_response_ok c" for c
    using that by (simp add: auth_session_response_to_json_def auth_session_response_of_json_def auth_session_response_ok_def AUTH_SESSION_RESPONSE_def serde_simps
      del: case_map_option split del: if_split)
  show decoded: "auth_session_response_ok c" if "auth_session_response_of_json v = Some c" for v c
    using that by (auto simp: auth_session_response_of_json_def auth_session_response_ok_def bind_eq_Some_conv)
  show "jget k (auth_session_response_to_json c) = jget k v" if "auth_session_response_of_json v = Some c" "k \<notin> set AUTH_SESSION_RESPONSE" for v c k
    using that by (auto simp: auth_session_response_of_json_def auth_session_response_to_json_def bind_eq_Some_conv struct_kept AUTH_SESSION_RESPONSE_def)
qed (simp add: auth_session_response_to_json_def)

section \<open>Identities\<close>

text \<open>\<open>validate_identity\<close>: an object whose \<open>sub\<close> and \<open>email\<close>, when there, are strings or null.\<close>

definition sound_claim :: "string \<Rightarrow> json \<Rightarrow> bool" where
  "sound_claim k v \<longleftrightarrow> \<not> is_some_and (\<lambda>w. \<not> is_null w \<and> \<not> is_string w) (jget k v)"

definition validate_identity :: "json \<Rightarrow> string + unit" where
  "validate_identity v =
     and_then (ensure (is_object v) ''identity must be an object'') (\<lambda>_.
     and_then (ensure (sound_claim ''sub'' v) ''identity sub/email must be a string or null'') (\<lambda>_.
     ensure (sound_claim ''email'' v) ''identity sub/email must be a string or null''))"

definition identity_record :: "json \<Rightarrow> json option" where
  "identity_record v = (if is_ok (validate_identity v) then Some v else None)"

lemma identity_record_ok [serde_simps]: "is_ok (validate_identity v) \<Longrightarrow> identity_record v = Some v"
  by (simp add: identity_record_def)

lemma required_identity [dest]: "required identity_record k m = Some v \<Longrightarrow> is_ok (validate_identity v)"
  by (auto simp: required_def identity_record_def bind_eq_Some_conv split: if_splits)

record user_info_response =
  uinfo_data :: json
  uinfo_extra :: jobject

definition user_info_response_to_json :: "user_info_response \<Rightarrow> json" where
  "user_info_response_to_json c = struct
     [always ''data'' (uinfo_data c)]
     (uinfo_extra c)"

definition USER_INFO_RESPONSE :: "string list" where
  "USER_INFO_RESPONSE = [''data'']"

definition user_info_response_of_json :: "json \<Rightarrow> user_info_response option" where
  "user_info_response_of_json v =
     Option.bind (as_object v) (\<lambda>m.
     Option.bind (required identity_record ''data'' m) (\<lambda>items.
     Some \<lparr>uinfo_data = items, uinfo_extra = unclaimed USER_INFO_RESPONSE m\<rparr>))"

definition user_info_response_ok :: "user_info_response \<Rightarrow> bool" where
  "user_info_response_ok c \<longleftrightarrow>
     free_of USER_INFO_RESPONSE (uinfo_extra c) \<and>
     is_ok (validate_identity (uinfo_data c))"

interpretation user_info_response_codec: struct_codec user_info_response_to_json user_info_response_of_json user_info_response_ok USER_INFO_RESPONSE
proof
  show "user_info_response_of_json (user_info_response_to_json c) = Some c" if "user_info_response_ok c" for c
    using that by (simp add: user_info_response_to_json_def user_info_response_of_json_def user_info_response_ok_def USER_INFO_RESPONSE_def serde_simps
      del: case_map_option split del: if_split)
  show decoded: "user_info_response_ok c" if "user_info_response_of_json v = Some c" for v c
    using that by (auto simp: user_info_response_of_json_def user_info_response_ok_def bind_eq_Some_conv)
  show "jget k (user_info_response_to_json c) = jget k v" if "user_info_response_of_json v = Some c" "k \<notin> set USER_INFO_RESPONSE" for v c k
    using that by (auto simp: user_info_response_of_json_def user_info_response_to_json_def bind_eq_Some_conv struct_kept USER_INFO_RESPONSE_def)
qed (simp add: user_info_response_to_json_def)

text \<open>The filters of the model catalogue.\<close>

record model_filters =
  filt_open_weights :: "bool option"
  filt_provider_jurisdiction :: "string option"
  filt_provider_region :: "string option"

section \<open>Nothing is lost\<close>

definition example_answer :: json where
  "example_answer = obj
     [(''id'', JString ''c-1''), (''created'', JNumber (NegInt (-5))), (''tier'', JString ''new''),
      (''choices'', JArray [obj [(''message'',
         obj [(''role'', JString ''user''), (''content'', JNull), (''mood'', JBool True)])]])]"

text \<open>C30: No answer loses data. Whatever value an answer of the service (a completion, a chunk, a
  response, a catalogue, an account answer, or any struct nested in them) is read from, writing it and
  reading it again gives the same struct, and every member the struct does not name is written back
  with its value, so that fields a newer service adds survive.\<close>

theorem answers_lossless:
  "lossless chat_message_to_json chat_message_of_json CHAT_MESSAGE \<and>
   lossless chat_choice_to_json chat_choice_of_json CHAT_CHOICE \<and>
   lossless chat_usage_to_json chat_usage_of_json CHAT_USAGE \<and>
   lossless chat_completion_to_json chat_completion_of_json CHAT_COMPLETION \<and>
   lossless chat_delta_to_json chat_delta_of_json CHAT_DELTA \<and>
   lossless chat_chunk_choice_to_json chat_chunk_choice_of_json CHAT_CHUNK_CHOICE \<and>
   lossless chat_completion_chunk_to_json chat_completion_chunk_of_json CHAT_COMPLETION_CHUNK \<and>
   lossless response_object_to_json response_object_of_json RESPONSE_OBJECT \<and>
   lossless response_input_tokens_to_json response_input_tokens_of_json RESPONSE_INPUT_TOKENS \<and>
   lossless messages_response_to_json messages_response_of_json MESSAGES_RESPONSE \<and>
   lossless embedding_response_to_json embedding_response_of_json EMBEDDING_RESPONSE \<and>
   lossless model_info_to_json model_info_of_json MODEL_INFO \<and>
   lossless model_list_to_json model_list_of_json MODEL_LIST \<and>
   lossless provider_info_to_json provider_info_of_json PROVIDER_INFO \<and>
   lossless provider_list_to_json provider_list_of_json PROVIDER_LIST \<and>
   lossless region_info_to_json region_info_of_json REGION_INFO \<and>
   lossless region_list_to_json region_list_of_json REGION_LIST \<and>
   lossless credits_balance_to_json credits_balance_of_json CREDITS_BALANCE \<and>
   lossless activity_response_to_json activity_response_of_json ACTIVITY_RESPONSE \<and>
   lossless broadcast_destination_to_json broadcast_destination_of_json BROADCAST_DESTINATION \<and>
   lossless broadcast_destination_list_to_json broadcast_destination_list_of_json BROADCAST_DESTINATION_LIST \<and>
   lossless checkout_response_to_json checkout_response_of_json CHECKOUT_RESPONSE \<and>
   lossless auth_session_response_to_json auth_session_response_of_json AUTH_SESSION_RESPONSE \<and>
   lossless user_info_response_to_json user_info_response_of_json USER_INFO_RESPONSE \<and>
   lossless provider_preferences_to_json provider_preferences_of_json PROVIDER_PREFERENCES"
  by (intro conjI)
    (rule chat_message_codec.nothing_lost chat_choice_codec.nothing_lost chat_usage_codec.nothing_lost
    chat_completion_codec.nothing_lost chat_delta_codec.nothing_lost
    chat_chunk_choice_codec.nothing_lost chat_completion_chunk_codec.nothing_lost
    response_object_codec.nothing_lost response_input_tokens_codec.nothing_lost
    messages_response_codec.nothing_lost embedding_response_codec.nothing_lost
    model_info_codec.nothing_lost model_list_codec.nothing_lost provider_info_codec.nothing_lost
    provider_list_codec.nothing_lost region_info_codec.nothing_lost region_list_codec.nothing_lost
    credits_balance_codec.nothing_lost activity_response_codec.nothing_lost
    broadcast_destination_codec.nothing_lost broadcast_destination_list_codec.nothing_lost
    checkout_response_codec.nothing_lost auth_session_response_codec.nothing_lost
    user_info_response_codec.nothing_lost provider_preferences_codec.nothing_lost)+

theorem answers_lossless_witness:
  "\<exists>c. chat_completion_of_json example_answer = Some c \<and> comp_created c = - 5 \<and>
     chat_completion_of_json (chat_completion_to_json c) = Some c \<and>
     jget ''tier'' (chat_completion_to_json c) = Some (JString ''new'')"
proof -
  have "map_option comp_created (chat_completion_of_json example_answer) = Some (- 5)" by code_simp
  then obtain c where c: "chat_completion_of_json example_answer = Some c" "comp_created c = - 5" by auto
  have "''tier'' \<notin> set CHAT_COMPLETION" by (simp add: CHAT_COMPLETION_def)
  with answers_lossless c show ?thesis
    unfolding lossless_def by (auto simp: example_answer_def)
qed

end
