(* ===== verification/TR_Wire.thy ===== *)
theory TR_Wire
  imports TR_Recorder TR_Identity
begin

text \<open>
  The wire shapes of the telemetry beacon (\<open>telemetry/wire.rs\<close>): what a finished call and a counter
  row become in a batch, and how counter increments are merged into a row. Every number is clamped to
  the bounds of the wire schema, and text that the schema cannot carry is left out. A floating-point
  sample rate is the rational it denotes.
\<close>

section \<open>Wire shapes\<close>

definition MAX_WIRE_DURATION_MS :: nat where "MAX_WIRE_DURATION_MS = 3600000"
definition MAX_AGE_MS :: nat where "MAX_AGE_MS = 86400000"
definition MAX_COUNT :: nat where "MAX_COUNT = 10000000"
definition MAX_WIRE_ATTEMPTS :: nat where "MAX_WIRE_ATTEMPTS = 16"
definition TELEMETRY_SCHEMA_VERSION :: nat where "TELEMETRY_SCHEMA_VERSION = 1"

datatype sample_reason = SampleFailure | SampleRetried | SampleSlow | SampleRandom

fun reason_as_str :: "sample_reason \<Rightarrow> string" where
  "reason_as_str SampleFailure = ''failure''"
| "reason_as_str SampleRetried = ''retried''"
| "reason_as_str SampleSlow = ''slow''"
| "reason_as_str SampleRandom = ''random''"

record wire_attempt =
  wa_index :: nat
  wa_host :: string
  wa_outcome :: string
  wa_http_status :: "nat option"
  wa_error_class :: "string option"
  wa_error_source :: "string option"
  wa_retry_after_ms :: "nat option"
  wa_elapsed_ms :: nat
  wa_ttfb_ms :: "nat option"
  wa_request_id :: "string option"
  wa_moved :: bool
  wa_should_retry :: "bool option"

definition bounded :: "nat \<Rightarrow> nat \<Rightarrow> nat \<Rightarrow> nat" where
  "bounded v minimum maximum = clamp minimum maximum v"

definition bounded_optional :: "nat option \<Rightarrow> nat \<Rightarrow> nat \<Rightarrow> nat option" where
  "bounded_optional v minimum maximum = opt_filter (\<lambda>n. minimum \<le> n \<and> n \<le> maximum) v"

definition should_retry_bool :: "should_retry \<Rightarrow> bool option" where
  "should_retry_bool s = (case s of SrTrue \<Rightarrow> Some True | SrFalse \<Rightarrow> Some False | SrAbsent \<Rightarrow> None)"

definition from_record :: "attempt_record \<Rightarrow> wire_attempt" where
  "from_record r =
     \<lparr>wa_index = bounded (at_index r) 0 99, wa_host = host_as_str (at_host r),
      wa_outcome = outcome_as_str (at_outcome r),
      wa_http_status = bounded_optional (at_http_status r) 100 599,
      wa_error_class = map_option class_as_str (at_error_class r),
      wa_error_source = map_option source_as_str (at_error_source r),
      wa_retry_after_ms = bounded_optional (at_retry_after_ms r) 0 MAX_WIRE_DURATION_MS,
      wa_elapsed_ms = bounded (at_elapsed_ms r) 0 MAX_WIRE_DURATION_MS,
      wa_ttfb_ms = bounded_optional (at_ttfb_ms r) 0 MAX_WIRE_DURATION_MS,
      wa_request_id = opt_filter valid_request_id (at_request_id r),
      wa_moved = at_moved r, wa_should_retry = should_retry_bool (at_should_retry r)\<rparr>"

record wire_event =
  we_age_ms :: nat
  we_plane :: string
  we_endpoint :: string
  we_method :: string
  we_streaming :: bool
  we_provider_pinned :: bool
  we_model :: "string option"
  we_attempts :: "wire_attempt list"
  we_final_outcome :: string
  we_final_http_status :: "nat option"
  we_total_ms :: nat
  we_ttft_ms :: "nat option"
  we_failover_used :: bool
  we_timeout_phase :: string
  we_configured_timeout_ms :: "nat option"
  we_sample_rate :: rat
  we_sample_reason :: string

definition wire_method :: "http_method \<Rightarrow> string option" where
  "wire_method m = (case m of GET \<Rightarrow> Some ''GET'' | POST \<Rightarrow> Some ''POST'' | _ \<Rightarrow> None)"

definition from_event :: "request_event \<Rightarrow> sample_reason \<Rightarrow> rat \<Rightarrow> wire_event option" where
  "from_event ev reason rate =
     (let attempts = map from_record (take MAX_WIRE_ATTEMPTS (ev_attempts ev))
      in if attempts = [] \<or> \<not> (0 < rate \<and> rate \<le> 1) then None
         else
           map_option
             (\<lambda>wmethod.
                \<lparr>we_age_ms = 0, we_plane = ''inference'', we_endpoint = endpoint_as_str (ev_endpoint ev),
                 we_method = wmethod, we_streaming = ev_streaming ev,
                 we_provider_pinned = ev_provider_pinned ev,
                 we_model = opt_filter valid_model (ev_model ev), we_attempts = attempts,
                 we_final_outcome = final_as_str (ev_final_outcome ev),
                 we_final_http_status = bounded_optional (ev_final_http_status ev) 100 599,
                 we_total_ms = bounded (ev_total_ms ev) 0 MAX_WIRE_DURATION_MS,
                 we_ttft_ms = bounded_optional (ev_ttft_ms ev) 0 MAX_WIRE_DURATION_MS,
                 we_failover_used = ev_failover_used ev,
                 we_timeout_phase = phase_as_str (ev_timeout_phase ev),
                 we_configured_timeout_ms =
                   bounded_optional (ev_configured_timeout_ms ev) 1 MAX_WIRE_DURATION_MS,
                 we_sample_rate = rate, we_sample_reason = reason_as_str reason\<rparr>)
             (wire_method (ev_method ev)))"

definition aged :: "nat \<Rightarrow> wire_event \<Rightarrow> wire_event" where
  "aged age_ms w = w\<lparr>we_age_ms := bounded age_ms 0 MAX_AGE_MS\<rparr>"

text \<open>A histogram on the wire is keyed by the names of the buckets.\<close>

definition all_buckets :: "lat_bucket list" where
  "all_buckets = [Lt100, Lt200, Lt400, Lt800, Lt1600, Lt3200, Lt6400, Lt12800, Lt25600, Lt51200, Lt102400, Ge102400]"

definition wire_histogram :: "histogram \<Rightarrow> (string \<times> nat) list" where
  "wire_histogram h =
     List.map_filter (\<lambda>b. map_option (\<lambda>n. (bucket_as_str b, bounded n 0 MAX_COUNT)) (h b)) all_buckets"

record wire_counter =
  wc_window_start_age_ms :: nat
  wc_level :: string
  wc_endpoint :: string
  wc_streaming :: bool
  wc_host :: string
  wc_outcome :: string
  wc_error_class :: "string option"
  wc_http_status_class :: string
  wc_timeout_phase :: string
  wc_timeout_floor_met :: bool
  wc_provider_pinned :: bool
  wc_requests :: nat
  wc_attempts :: nat
  wc_failover_used :: nat
  wc_first_attempt_success :: nat
  wc_total_ms_hist :: "(string \<times> nat) list"
  wc_first_event_ms_hist :: "(string \<times> nat) list"

definition from_row :: "counter_key \<Rightarrow> counter_row \<Rightarrow> nat \<Rightarrow> wire_counter" where
  "from_row key row window_age_ms =
     \<lparr>wc_window_start_age_ms = bounded window_age_ms 0 MAX_AGE_MS, wc_level = level_as_str (ck_level key),
      wc_endpoint = endpoint_as_str (ck_endpoint key), wc_streaming = ck_streaming key,
      wc_host = host_as_str (ck_host key), wc_outcome = outcome_as_str (ck_outcome key),
      wc_error_class = map_option class_as_str (ck_error_class key),
      wc_http_status_class = status_class_as_str (ck_http_status_class key),
      wc_timeout_phase = phase_as_str (ck_timeout_phase key),
      wc_timeout_floor_met = ck_timeout_floor_met key, wc_provider_pinned = ck_provider_pinned key,
      wc_requests = bounded (cr_requests row) 1 MAX_COUNT,
      wc_attempts = bounded (cr_attempts row) 0 MAX_COUNT,
      wc_failover_used = bounded (cr_failover_used row) 0 MAX_COUNT,
      wc_first_attempt_success = bounded (cr_first_attempt_success row) 0 MAX_COUNT,
      wc_total_ms_hist = wire_histogram (cr_total_ms_hist row),
      wc_first_event_ms_hist = wire_histogram (cr_first_event_ms_hist row)\<rparr>"

record wire_batch =
  wb_schema_version :: nat
  wb_batch_id :: string
  wb_instance_id :: string
  wb_seq :: nat
  wb_sent_at_ms :: nat
  wb_sdk :: sdk_identity_t
  wb_synthetic :: bool
  wb_dropped_since_last :: nat
  wb_events :: "wire_event list"
  wb_counters :: "wire_counter list"

definition batch_new :: "nat \<Rightarrow> string \<Rightarrow> string \<Rightarrow> nat \<Rightarrow> sdk_identity_t \<Rightarrow> wire_batch" where
  "batch_new sent_at_ms batch_id instance_id seq sdk =
     \<lparr>wb_schema_version = TELEMETRY_SCHEMA_VERSION, wb_batch_id = batch_id, wb_instance_id = instance_id,
      wb_seq = seq, wb_sent_at_ms = sent_at_ms, wb_sdk = sdk, wb_synthetic = False,
      wb_dropped_since_last = 0, wb_events = [], wb_counters = []\<rparr>"

section \<open>Merging counters\<close>

definition default_row :: counter_row where
  "default_row =
     \<lparr>cr_requests = 0, cr_attempts = 0, cr_failover_used = 0, cr_first_attempt_success = 0,
      cr_total_ms_hist = Map.empty, cr_first_event_ms_hist = Map.empty\<rparr>"

definition merge_histogram :: "histogram \<Rightarrow> histogram \<Rightarrow> histogram" where
  "merge_histogram target source =
     (\<lambda>b. case source b of
            None \<Rightarrow> target b
          | Some n \<Rightarrow> Some (saturating_add (unwrap_or 0 (target b)) (bounded n 0 MAX_COUNT)))"

definition merge_counter_increment :: "counter_row \<Rightarrow> counter_row \<Rightarrow> counter_row" where
  "merge_counter_increment target increment =
     \<lparr>cr_requests = saturating_add (cr_requests target) (bounded (cr_requests increment) 0 MAX_COUNT),
      cr_attempts = saturating_add (cr_attempts target) (bounded (cr_attempts increment) 0 MAX_COUNT),
      cr_failover_used = saturating_add (cr_failover_used target) (bounded (cr_failover_used increment) 0 MAX_COUNT),
      cr_first_attempt_success =
        saturating_add (cr_first_attempt_success target) (bounded (cr_first_attempt_success increment) 0 MAX_COUNT),
      cr_total_ms_hist = merge_histogram (cr_total_ms_hist target) (cr_total_ms_hist increment),
      cr_first_event_ms_hist = merge_histogram (cr_first_event_ms_hist target) (cr_first_event_ms_hist increment)\<rparr>"


section \<open>The closed schema\<close>

text \<open>The vocabularies of the contract, as \<open>constants.rs\<close> publishes them.\<close>

definition TELEMETRY_HOSTS :: "string list" where
  "TELEMETRY_HOSTS =
     [''apex'', ''ally'', ''uptime'', ''us_central1'', ''us_east4'', ''europe_west4'', ''control'', ''custom'']"

definition TELEMETRY_ENDPOINTS :: "string list" where
  "TELEMETRY_ENDPOINTS =
     [''chat_completions'', ''messages'', ''responses'', ''embeddings'', ''images'', ''videos'', ''models'',
      ''fusion'', ''control_other'', ''inference_other'']"

definition TELEMETRY_OUTCOMES :: "string list" where
  "TELEMETRY_OUTCOMES = [''ok'', ''http_error'', ''transport_error'', ''timeout'', ''stream_broken'', ''aborted'']"

definition TELEMETRY_FINAL_OUTCOMES :: "string list" where
  "TELEMETRY_FINAL_OUTCOMES =
     [''ok'', ''http_error'', ''transport_error'', ''timeout'', ''stream_broken'', ''aborted'', ''exhausted'']"

definition TELEMETRY_ERROR_CLASSES :: "string list" where
  "TELEMETRY_ERROR_CLASSES =
     [''dns'', ''tls'', ''connect_refused'', ''connect_timeout'', ''connect_error'', ''read_timeout'',
      ''write_timeout'', ''pool_timeout'', ''protocol_error'', ''reset'', ''io_error'', ''proxy_error'',
      ''stream_stalled'', ''unknown'']"

definition TELEMETRY_TIMEOUT_PHASES :: "string list" where
  "TELEMETRY_TIMEOUT_PHASES = [''none'', ''connect'', ''first_byte'', ''idle'', ''total'']"

definition TELEMETRY_LATENCY_BUCKETS :: "string list" where
  "TELEMETRY_LATENCY_BUCKETS =
     [''lt100'', ''lt200'', ''lt400'', ''lt800'', ''lt1600'', ''lt3200'', ''lt6400'', ''lt12800'', ''lt25600'',
      ''lt51200'', ''lt102400'', ''ge102400'']"

text \<open>Every printed name of an enumeration is a word of its vocabulary.\<close>

lemma vocabulary [simp]:
  "host_as_str h \<in> set TELEMETRY_HOSTS" "endpoint_as_str ep \<in> set TELEMETRY_ENDPOINTS"
  "outcome_as_str out \<in> set TELEMETRY_OUTCOMES" "final_as_str fin \<in> set TELEMETRY_FINAL_OUTCOMES"
  "class_as_str cls \<in> set TELEMETRY_ERROR_CLASSES" "phase_as_str ph \<in> set TELEMETRY_TIMEOUT_PHASES"
  "bucket_as_str bu \<in> set TELEMETRY_LATENCY_BUCKETS"
proof -
  show "host_as_str h \<in> set TELEMETRY_HOSTS" by (cases h) (simp_all add: TELEMETRY_HOSTS_def)
  show "endpoint_as_str ep \<in> set TELEMETRY_ENDPOINTS" by (cases ep) (simp_all add: TELEMETRY_ENDPOINTS_def)
  show out: "outcome_as_str out \<in> set TELEMETRY_OUTCOMES" for out by (cases out) (simp_all add: TELEMETRY_OUTCOMES_def)
  have "set TELEMETRY_FINAL_OUTCOMES = insert ''exhausted'' (set TELEMETRY_OUTCOMES)"
    by (auto simp: TELEMETRY_FINAL_OUTCOMES_def TELEMETRY_OUTCOMES_def)
  with out show "final_as_str fin \<in> set TELEMETRY_FINAL_OUTCOMES" by (cases fin) simp_all
  show "class_as_str cls \<in> set TELEMETRY_ERROR_CLASSES" by (cases cls) (simp_all add: TELEMETRY_ERROR_CLASSES_def)
  show "phase_as_str ph \<in> set TELEMETRY_TIMEOUT_PHASES" by (cases ph) (simp_all add: TELEMETRY_TIMEOUT_PHASES_def)
  show "bucket_as_str bu \<in> set TELEMETRY_LATENCY_BUCKETS" by (cases bu) (simp_all add: TELEMETRY_LATENCY_BUCKETS_def)
qed

definition opt_all :: "('a \<Rightarrow> bool) \<Rightarrow> 'a option \<Rightarrow> bool" where
  "opt_all P x \<longleftrightarrow> (case x of None \<Rightarrow> True | Some v \<Rightarrow> P v)"

lemma opt_all_filter [simp]: "opt_all P (opt_filter P x)"
  by (simp add: opt_all_def opt_filter_def split: option.split)

lemma opt_all_map: "(\<And>v. P (f v)) \<Longrightarrow> opt_all P (map_option f x)"
  by (simp add: opt_all_def split: option.split)

definition between :: "nat \<Rightarrow> nat \<Rightarrow> nat \<Rightarrow> bool" where
  "between lo hi n \<longleftrightarrow> lo \<le> n \<and> n \<le> hi"

lemma between_bounded [simp]: "lo \<le> hi \<Longrightarrow> between lo hi (bounded n lo hi)"
  by (auto simp: between_def bounded_def clamp_def)

lemma between_bounded_optional [simp]: "opt_all (between lo hi) (bounded_optional x lo hi)"
  by (simp add: opt_all_def bounded_optional_def opt_filter_def between_def split: option.split)

definition wire_attempt_ok :: "wire_attempt \<Rightarrow> bool" where
  "wire_attempt_ok a \<longleftrightarrow>
     between 0 99 (wa_index a) \<and> wa_host a \<in> set TELEMETRY_HOSTS \<and> wa_outcome a \<in> set TELEMETRY_OUTCOMES \<and>
     opt_all (between 100 599) (wa_http_status a) \<and>
     opt_all (\<lambda>s. s \<in> set TELEMETRY_ERROR_CLASSES) (wa_error_class a) \<and>
     opt_all (\<lambda>s. s \<in> {''router'', ''provider'', ''unknown''}) (wa_error_source a) \<and>
     opt_all (between 0 3600000) (wa_retry_after_ms a) \<and> between 0 3600000 (wa_elapsed_ms a) \<and>
     opt_all (between 0 3600000) (wa_ttfb_ms a) \<and> opt_all valid_request_id (wa_request_id a)"

definition wire_event_ok :: "wire_event \<Rightarrow> bool" where
  "wire_event_ok w \<longleftrightarrow>
     between 0 86400000 (we_age_ms w) \<and> we_plane w = ''inference'' \<and> we_endpoint w \<in> set TELEMETRY_ENDPOINTS \<and>
     we_method w \<in> {''GET'', ''POST''} \<and> opt_all valid_model (we_model w) \<and>
     between 1 16 (length (we_attempts w)) \<and> list_all wire_attempt_ok (we_attempts w) \<and>
     we_final_outcome w \<in> set TELEMETRY_FINAL_OUTCOMES \<and> opt_all (between 100 599) (we_final_http_status w) \<and>
     between 0 3600000 (we_total_ms w) \<and> opt_all (between 0 3600000) (we_ttft_ms w) \<and>
     we_timeout_phase w \<in> set TELEMETRY_TIMEOUT_PHASES \<and>
     opt_all (between 1 3600000) (we_configured_timeout_ms w) \<and>
     0 < we_sample_rate w \<and> we_sample_rate w \<le> 1 \<and>
     we_sample_reason w \<in> {''failure'', ''retried'', ''slow'', ''random''}"

definition wire_histogram_ok :: "(string \<times> nat) list \<Rightarrow> bool" where
  "wire_histogram_ok h \<longleftrightarrow>
     distinct (map fst h) \<and> list_all (\<lambda>(b, n). b \<in> set TELEMETRY_LATENCY_BUCKETS \<and> n \<le> 10000000) h"

definition wire_counter_ok :: "wire_counter \<Rightarrow> bool" where
  "wire_counter_ok c \<longleftrightarrow>
     between 0 86400000 (wc_window_start_age_ms c) \<and> wc_level c \<in> {''attempt'', ''request''} \<and>
     wc_endpoint c \<in> set TELEMETRY_ENDPOINTS \<and> wc_host c \<in> set TELEMETRY_HOSTS \<and>
     wc_outcome c \<in> set TELEMETRY_OUTCOMES \<and>
     opt_all (\<lambda>s. s \<in> set TELEMETRY_ERROR_CLASSES) (wc_error_class c) \<and>
     wc_http_status_class c \<in> {''none'', ''2xx'', ''4xx'', ''429'', ''5xx''} \<and>
     wc_timeout_phase c \<in> set TELEMETRY_TIMEOUT_PHASES \<and> between 1 10000000 (wc_requests c) \<and>
     wc_attempts c \<le> 10000000 \<and> wc_failover_used c \<le> 10000000 \<and> wc_first_attempt_success c \<le> 10000000 \<and>
     wire_histogram_ok (wc_total_ms_hist c) \<and> wire_histogram_ok (wc_first_event_ms_hist c)"

lemma from_record_ok: "wire_attempt_ok (from_record r)"
proof -
  have "source_as_str s \<in> {''router'', ''provider'', ''unknown''}" for s by (cases s) simp_all
  then show ?thesis
    by (simp add: wire_attempt_ok_def from_record_def MAX_WIRE_DURATION_MS_def opt_all_map)
qed

lemma wire_method_cases: "wire_method m = Some s \<Longrightarrow> s = ''GET'' \<or> s = ''POST''"
  by (auto simp: wire_method_def split: http_method.splits)

lemma from_event_ok: "from_event ev reason rate = Some w \<Longrightarrow> wire_event_ok w"
proof -
  assume "from_event ev reason rate = Some w"
  then obtain s where m: "wire_method (ev_method ev) = Some s" and a: "ev_attempts ev \<noteq> []"
    and rate: "0 < rate" "rate \<le> 1"
    and w: "w = \<lparr>we_age_ms = 0, we_plane = ''inference'', we_endpoint = endpoint_as_str (ev_endpoint ev),
      we_method = s, we_streaming = ev_streaming ev, we_provider_pinned = ev_provider_pinned ev,
      we_model = opt_filter valid_model (ev_model ev),
      we_attempts = map from_record (take MAX_WIRE_ATTEMPTS (ev_attempts ev)),
      we_final_outcome = final_as_str (ev_final_outcome ev),
      we_final_http_status = bounded_optional (ev_final_http_status ev) 100 599,
      we_total_ms = bounded (ev_total_ms ev) 0 MAX_WIRE_DURATION_MS,
      we_ttft_ms = bounded_optional (ev_ttft_ms ev) 0 MAX_WIRE_DURATION_MS,
      we_failover_used = ev_failover_used ev, we_timeout_phase = phase_as_str (ev_timeout_phase ev),
      we_configured_timeout_ms = bounded_optional (ev_configured_timeout_ms ev) 1 MAX_WIRE_DURATION_MS,
      we_sample_rate = rate, we_sample_reason = reason_as_str reason\<rparr>"
    unfolding from_event_def Let_def by (auto simp del: One_nat_def split: if_splits)
  have "between 1 16 (length (take MAX_WIRE_ATTEMPTS (ev_attempts ev)))"
    using a by (cases "ev_attempts ev") (auto simp: between_def MAX_WIRE_ATTEMPTS_def)
  moreover have "reason_as_str reason \<in> {''failure'', ''retried'', ''slow'', ''random''}" by (cases reason) simp_all
  ultimately show ?thesis
    using rate wire_method_cases [OF m] unfolding w wire_event_ok_def
    by (simp add: MAX_WIRE_DURATION_MS_def list_all_iff from_record_ok between_def [of 0 86400000]
        del: One_nat_def)
qed

lemma aged_ok: "wire_event_ok w \<Longrightarrow> wire_event_ok (aged age_ms w)"
  by (simp add: wire_event_ok_def aged_def MAX_AGE_MS_def)


lemma wire_histogram_ok: "wire_histogram_ok (wire_histogram h)"
proof -
  have inj: "bucket_as_str x = bucket_as_str y \<Longrightarrow> x = y" for x y
    by (cases x; cases y) simp_all
  have "map fst (List.map_filter (\<lambda>b. map_option (\<lambda>n. (bucket_as_str b, bounded n 0 MAX_COUNT)) (h b)) bs) =
      map bucket_as_str (filter (\<lambda>b. h b \<noteq> None) bs)" for bs
    by (induction bs) (auto simp: map_filter_simps split: option.split)
  then have "map fst (wire_histogram h) = map bucket_as_str (filter (\<lambda>b. h b \<noteq> None) all_buckets)"
    by (simp add: wire_histogram_def)
  moreover have "distinct all_buckets" by (simp add: all_buckets_def)
  ultimately have "distinct (map fst (wire_histogram h))"
    by (simp add: distinct_map inj_on_def inj)
  moreover have "list_all (\<lambda>(b, n). b \<in> set TELEMETRY_LATENCY_BUCKETS \<and> n \<le> 10000000)
      (List.map_filter (\<lambda>b. map_option (\<lambda>n. (bucket_as_str b, bounded n 0 MAX_COUNT)) (h b)) bs)" for bs
    by (induction bs) (auto simp: map_filter_simps bounded_def clamp_def MAX_COUNT_def split: option.split)
  ultimately show ?thesis by (simp add: wire_histogram_ok_def) (simp add: wire_histogram_def)
qed

lemma from_row_ok: "wire_counter_ok (from_row key row age_ms)"
proof -
  have "level_as_str l \<in> {''attempt'', ''request''}" for l by (cases l) simp_all
  moreover have "status_class_as_str c \<in> {''none'', ''2xx'', ''4xx'', ''429'', ''5xx''}" for c by (cases c) simp_all
  moreover have "bounded n 0 MAX_COUNT \<le> 10000000" for n by (simp add: bounded_def clamp_def MAX_COUNT_def)
  ultimately show ?thesis
    by (simp add: wire_counter_ok_def from_row_def MAX_AGE_MS_def opt_all_map wire_histogram_ok MAX_COUNT_def
        del: One_nat_def)
qed

end
