(* ===== verification/TR_Window.thy ===== *)
theory TR_Window
  imports TR_Wire
begin

text \<open>
  The bounded state of the beacon reporter (first half of \<open>telemetry/reporter.rs\<close>): buffered events,
  the open minute window of counters with its fold ladder, and the retained closed windows. The state
  is a record; every method of \<open>State\<close> is a function on it. JSON printing belongs to \<open>serde_json\<close>: the
  printers of one event, one counter and one batch are fields of \<open>reporter_libs\<close>, and an array is
  printed as its elements between brackets, separated by commas. Positions in a vector are indices.
\<close>

section \<open>State\<close>

record reporter_libs =
  rp_event_json :: "wire_event \<Rightarrow> string option"
  rp_counter_json :: "wire_counter \<Rightarrow> string option"
  rp_batch_json :: "wire_batch \<Rightarrow> string option"
  rp_parse_f64 :: "string \<Rightarrow> rat option"
  rp_parse_json :: "string \<Rightarrow> json option"

record buffered_event =
  bf_id :: nat
  bf_wire :: wire_event
  bf_completed_at :: duration
  bf_estimated_bytes :: nat
  bf_ok :: bool

type_synonym counter_rows = "(counter_key \<times> counter_row) list"

record counter_window =
  cw_id :: nat
  cw_window_start :: duration
  cw_rows :: counter_rows
  cw_size_bytes :: nat

record rep_state =
  st_success_sample_rate :: rat
  st_flush_interval :: duration
  st_events :: "buffered_event list"
  st_events_size_bytes :: nat
  st_next_event_id :: nat
  st_current_window_start :: "duration option"
  st_current_counters :: counter_rows
  st_closed_windows :: "counter_window list"
  st_next_window_id :: nat
  st_retained_window_bytes :: nat
  st_dropped_since_last :: nat
  st_instance_id :: string
  st_seq :: nat
  st_backoff :: duration
  st_backoff_until :: duration
  st_paused_until :: duration
  st_next_flush_at :: duration
  st_urgent_not_before :: duration
  st_urgent_flush :: bool
  st_disabled :: bool
  st_closed :: bool
  st_worker_started :: bool

definition TELEMETRY_MAX_EVENTS :: nat where "TELEMETRY_MAX_EVENTS = 1000"
definition TELEMETRY_MAX_BATCH_EVENTS :: nat where "TELEMETRY_MAX_BATCH_EVENTS = 100"
definition TELEMETRY_MAX_BATCH_COUNTERS :: nat where "TELEMETRY_MAX_BATCH_COUNTERS = 200"
definition TELEMETRY_MAX_WINDOW_KEYS :: nat where "TELEMETRY_MAX_WINDOW_KEYS = 256"
definition TELEMETRY_RETENTION_SECONDS :: nat where "TELEMETRY_RETENTION_SECONDS = 86400"
definition TELEMETRY_RETENTION_BYTES :: nat where "TELEMETRY_RETENTION_BYTES = 524288"
definition BATCH_TRIGGER_BYTES :: nat where "BATCH_TRIGGER_BYTES = 60 * 1024"
definition MAX_BATCH_BYTES :: nat where "MAX_BATCH_BYTES = 65536"
definition URGENT_EVENT_COUNT :: nat where "URGENT_EVENT_COUNT = 50"
definition OPEN_COUNTER_ESTIMATE_BYTES :: nat where "OPEN_COUNTER_ESTIMATE_BYTES = 400"
definition FALLBACK_EVENT_BYTES :: nat where "FALLBACK_EVENT_BYTES = 600"

section \<open>Windows\<close>

definition json_array :: "string list \<Rightarrow> string" where
  "json_array bodies = ''['' @ join_with '','' bodies @ '']''"

definition window_size :: "reporter_libs \<Rightarrow> counter_rows \<Rightarrow> nat" where
  "window_size L rows =
     (case those (map (\<lambda>(key, row). rp_counter_json L (from_row key row 0)) rows) of
        None \<Rightarrow> 0
      | Some bodies \<Rightarrow> length (json_array bodies))"

definition minute_start :: "duration \<Rightarrow> duration" where
  "minute_start now = from_secs (as_secs now div 60 * 60)"

definition drop_window :: "counter_window \<Rightarrow> rep_state \<Rightarrow> rep_state" where
  "drop_window w st =
     st\<lparr>st_retained_window_bytes := st_retained_window_bytes st - cw_size_bytes w,
        st_dropped_since_last := saturating_add (st_dropped_since_last st) (length (cw_rows w))\<rparr>"

fun drop_aged :: "duration \<Rightarrow> counter_window list \<Rightarrow> rep_state \<Rightarrow> rep_state" where
  "drop_aged now [] st = st\<lparr>st_closed_windows := []\<rparr>"
| "drop_aged now (w # ws) st =
     (if from_secs TELEMETRY_RETENTION_SECONDS < now - cw_window_start w
      then drop_aged now ws (drop_window w st) else st\<lparr>st_closed_windows := w # ws\<rparr>)"

fun drop_excess :: "nat \<Rightarrow> counter_window list \<Rightarrow> rep_state \<Rightarrow> rep_state" where
  "drop_excess retention_bytes [] st = st\<lparr>st_closed_windows := []\<rparr>"
| "drop_excess retention_bytes (w # ws) st =
     (if retention_bytes < st_retained_window_bytes st
      then drop_excess retention_bytes ws (drop_window w st) else st\<lparr>st_closed_windows := w # ws\<rparr>)"

definition prune_windows :: "duration \<Rightarrow> nat \<Rightarrow> rep_state \<Rightarrow> rep_state" where
  "prune_windows now retention_bytes st =
     (let st = drop_aged now (st_closed_windows st) st
      in drop_excess retention_bytes (st_closed_windows st) st)"

definition close_current_window :: "reporter_libs \<Rightarrow> duration \<Rightarrow> nat \<Rightarrow> rep_state \<Rightarrow> rep_state" where
  "close_current_window L now retention_bytes st =
     (case st_current_window_start st of
        None \<Rightarrow> st
      | Some window_start \<Rightarrow>
          if st_current_counters st = [] then st
          else
            (let rows = st_current_counters st; size_bytes = window_size L rows
             in prune_windows now retention_bytes
                  (st\<lparr>st_current_counters := [],
                      st_closed_windows := st_closed_windows st @
                        [\<lparr>cw_id = st_next_window_id st, cw_window_start = window_start, cw_rows = rows,
                          cw_size_bytes = size_bytes\<rparr>],
                      st_next_window_id := st_next_window_id st + 1,
                      st_retained_window_bytes := st_retained_window_bytes st + size_bytes,
                      st_current_window_start := Some (minute_start now)\<rparr>)))"

definition roll_window :: "reporter_libs \<Rightarrow> duration \<Rightarrow> nat \<Rightarrow> rep_state \<Rightarrow> rep_state" where
  "roll_window L now retention_bytes st =
     (case st_current_window_start st of
        None \<Rightarrow> st\<lparr>st_current_window_start := Some (minute_start now)\<rparr>
      | Some current \<Rightarrow>
          if current < minute_start now
          then (close_current_window L now retention_bytes st)\<lparr>st_current_window_start := Some (minute_start now)\<rparr>
          else st)"

section \<open>The fold ladder\<close>

definition folded_key :: "counter_key \<Rightarrow> bool \<Rightarrow> counter_key" where
  "folded_key key fold_endpoint =
     key\<lparr>ck_endpoint := (if fold_endpoint then EpInferenceOther else ck_endpoint key),
         ck_error_class := Some EcUnknown\<rparr>"

definition same_but_error_class_and_endpoint :: "counter_key \<Rightarrow> counter_key \<Rightarrow> bool" where
  "same_but_error_class_and_endpoint a b \<longleftrightarrow>
     ck_level a = ck_level b \<and> ck_streaming a = ck_streaming b \<and> ck_host a = ck_host b \<and>
     ck_outcome a = ck_outcome b \<and> ck_http_status_class a = ck_http_status_class b \<and>
     ck_timeout_phase a = ck_timeout_phase b \<and> ck_timeout_floor_met a = ck_timeout_floor_met b \<and>
     ck_provider_pinned a = ck_provider_pinned b"

definition same_but_error_class :: "counter_key \<Rightarrow> counter_key \<Rightarrow> bool" where
  "same_but_error_class a b \<longleftrightarrow>
     ck_level a = ck_level b \<and> ck_endpoint a = ck_endpoint b \<and> ck_streaming a = ck_streaming b \<and>
     ck_host a = ck_host b \<and> ck_outcome a = ck_outcome b \<and>
     ck_http_status_class a = ck_http_status_class b \<and> ck_timeout_phase a = ck_timeout_phase b \<and>
     ck_timeout_floor_met a = ck_timeout_floor_met b \<and> ck_provider_pinned a = ck_provider_pinned b"

definition has_key :: "counter_key \<Rightarrow> counter_rows \<Rightarrow> bool" where
  "has_key key rows \<longleftrightarrow> list_ex (\<lambda>(existing, _). existing = key) rows"

fun position :: "('a \<Rightarrow> bool) \<Rightarrow> 'a list \<Rightarrow> nat option" where
  "position P [] = None"
| "position P (x # xs) = (if P x then Some 0 else map_option Suc (position P xs))"

definition remove_at :: "nat \<Rightarrow> 'a list \<Rightarrow> 'a list" where
  "remove_at i xs = take i xs @ drop (Suc i) xs"

definition refold :: "nat \<Rightarrow> bool \<Rightarrow> counter_rows \<Rightarrow> counter_key \<times> counter_rows" where
  "refold i fold_endpoint rows =
     (let (existing, previous) = rows ! i; target = folded_key existing fold_endpoint
      in (target, remove_at i rows @ [(target, merge_counter_increment default_row previous)]))"

definition counter_target :: "counter_key \<Rightarrow> counter_rows \<Rightarrow> counter_key \<times> counter_rows" where
  "counter_target key rows =
     (if has_key key rows \<or> length rows < TELEMETRY_MAX_WINDOW_KEYS then (key, rows)
      else if has_key (folded_key key False) rows then (folded_key key False, rows)
      else
        (case position (\<lambda>(existing, _). same_but_error_class existing key) rows of
           Some i \<Rightarrow> refold i False rows
         | None \<Rightarrow>
             if has_key (folded_key key True) rows then (folded_key key True, rows)
             else
               (case position (\<lambda>(existing, _). same_but_error_class_and_endpoint existing key) rows of
                  Some i \<Rightarrow> refold i True rows
                | None \<Rightarrow> (case rows of [] \<Rightarrow> (key, rows) | (existing, _) # _ \<Rightarrow> (existing, rows)))))"

fun add_to_row :: "counter_key \<Rightarrow> counter_row \<Rightarrow> counter_rows \<Rightarrow> counter_rows" where
  "add_to_row key increment [] = [(key, merge_counter_increment default_row increment)]"
| "add_to_row key increment ((existing, row) # rows) =
     (if existing = key then (existing, merge_counter_increment row increment) # rows
      else (existing, row) # add_to_row key increment rows)"

definition merge_counter :: "counter_key \<times> counter_row \<Rightarrow> counter_rows \<Rightarrow> counter_rows" where
  "merge_counter kr rows =
     (let (key, increment) = kr; (target, rows) = counter_target key rows in add_to_row target increment rows)"

definition merge_counters :: "counter_rows \<Rightarrow> rep_state \<Rightarrow> rep_state" where
  "merge_counters counters st =
     st\<lparr>st_current_counters := fold merge_counter counters (st_current_counters st)\<rparr>"

section \<open>Events\<close>

definition drop_buffered_event :: "rep_state \<Rightarrow> rep_state" where
  "drop_buffered_event st =
     (let i = unwrap_or 0 (position bf_ok (st_events st))
      in if i < length (st_events st)
         then st\<lparr>st_events := remove_at i (st_events st),
                 st_events_size_bytes := st_events_size_bytes st - bf_estimated_bytes (st_events st ! i),
                 st_dropped_since_last := saturating_add (st_dropped_since_last st) 1\<rparr>
         else st)"

definition append_event :: "reporter_libs \<Rightarrow> wire_event \<Rightarrow> duration \<Rightarrow> rep_state \<Rightarrow> rep_state" where
  "append_event L wire now st =
     (let st = (if TELEMETRY_MAX_EVENTS \<le> length (st_events st) then drop_buffered_event st else st);
          estimated_bytes = (case rp_event_json L wire of None \<Rightarrow> FALLBACK_EVENT_BYTES | Some body \<Rightarrow> length body)
      in st\<lparr>st_events := st_events st @
              [\<lparr>bf_id = st_next_event_id st, bf_wire = wire, bf_completed_at = now,
                bf_estimated_bytes = estimated_bytes, bf_ok = (we_final_outcome wire = ''ok'')\<rparr>],
            st_next_event_id := st_next_event_id st + 1,
            st_events_size_bytes := st_events_size_bytes st + estimated_bytes\<rparr>)"

definition urgent :: "rep_state \<Rightarrow> bool" where
  "urgent st \<longleftrightarrow>
     URGENT_EVENT_COUNT \<le> length (st_events st) \<or>
     BATCH_TRIGGER_BYTES \<le>
       st_events_size_bytes st + st_retained_window_bytes st +
       length (st_current_counters st) * OPEN_COUNTER_ESTIMATE_BYTES"

definition gate :: "rep_state \<Rightarrow> duration" where
  "gate st = max (st_paused_until st) (st_backoff_until st)"

section \<open>Vectors\<close>

lemma position_SomeD: "position P xs = Some i \<Longrightarrow> i < length xs \<and> P (xs ! i)"
  by (induction xs arbitrary: i) (auto split: if_splits)

lemma position_None_iff: "position P xs = None \<longleftrightarrow> (\<forall>x \<in> set xs. \<not> P x)"
  by (induction xs) auto

lemma length_remove_at [simp]: "i < length xs \<Longrightarrow> length (remove_at i xs) = length xs - 1"
  by (simp add: remove_at_def)

lemma map_remove_at: "map f (remove_at i xs) = remove_at i (map f xs)"
  by (simp add: remove_at_def take_map drop_map)

lemma split_at_index: "i < length xs \<Longrightarrow> xs = take i xs @ xs ! i # drop (Suc i) xs"
  by (simp add: id_take_nth_drop)

lemma set_split_at: "i < length xs \<Longrightarrow> set xs = insert (xs ! i) (set (remove_at i xs))"
proof -
  assume "i < length xs"
  from arg_cong [OF split_at_index [OF this], of set]
  have "set xs = set (take i xs @ xs ! i # drop (Suc i) xs)" .
  then show ?thesis unfolding remove_at_def set_append list.set by blast
qed

lemma set_remove_at: "set (remove_at i xs) \<subseteq> set xs"
  by (auto simp: remove_at_def dest: in_set_takeD in_set_dropD)

lemma distinct_remove_at [simp]: "distinct xs \<Longrightarrow> distinct (remove_at i xs)"
  by (auto simp: remove_at_def dest: set_take_disj_set_drop_if_distinct [of _ i "Suc i"])

lemma set_remove_at_distinct: "distinct xs \<Longrightarrow> i < length xs \<Longrightarrow> set (remove_at i xs) = set xs - {xs ! i}"
proof -
  assume d: "distinct xs" and i: "i < length xs"
  from d have "distinct (take i xs @ xs ! i # drop (Suc i) xs)"
    using split_at_index [OF i] by simp
  then have "xs ! i \<notin> set (remove_at i xs)" by (simp add: remove_at_def)
  with set_split_at [OF i] show ?thesis by auto
qed

lemma sum_list_remove_at:
  "i < length xs \<Longrightarrow> sum_list (map f (remove_at i xs)) + f (xs ! i) = (sum_list (map f xs) :: nat)"
  using arg_cong [OF split_at_index [of i xs], of "\<lambda>ys. sum_list (map f ys)"] by (simp add: remove_at_def)

section \<open>The open window\<close>

lemma has_key_iff: "has_key key rows \<longleftrightarrow> key \<in> fst ` set rows"
  by (force simp: has_key_def list_ex_iff)

lemma keys_add_to_row:
  "map fst (add_to_row key increment rows) =
     (if key \<in> fst ` set rows then map fst rows else map fst rows @ [key])"
  by (induction key increment rows rule: add_to_row.induct) auto

lemma folded_key_same: "same_but_error_class a b \<Longrightarrow> folded_key a False = folded_key b False"
  by (simp add: same_but_error_class_def folded_key_def)

lemma folded_key_same_endpoint:
  "same_but_error_class_and_endpoint a b \<Longrightarrow> folded_key a True = folded_key b True"
  by (simp add: same_but_error_class_and_endpoint_def folded_key_def)

definition open_rows_ok :: "counter_rows \<Rightarrow> bool" where
  "open_rows_ok rows \<longleftrightarrow> distinct (map fst rows) \<and> length rows \<le> TELEMETRY_MAX_WINDOW_KEYS"

lemma refold_ok:
  assumes ok: "open_rows_ok rows" and i: "i < length rows" and new: "folded_key (fst (rows ! i)) e \<notin> fst ` set rows"
    and r: "refold i e rows = (target, rows')"
  shows "open_rows_ok rows' \<and> target \<in> fst ` set rows'"
proof -
  obtain existing previous where p: "rows ! i = (existing, previous)" by (cases "rows ! i") auto
  have sub: "set (map fst (remove_at i rows)) \<subseteq> fst ` set rows" using set_remove_at [of i rows] by auto
  from ok i have "distinct (map fst (remove_at i rows))" by (simp add: open_rows_ok_def map_remove_at)
  with r p new sub i ok show ?thesis
    by (auto simp: refold_def open_rows_ok_def Let_def)
qed

lemma counter_target_ok:
  assumes ok: "open_rows_ok rows" and t: "counter_target key rows = (target, rows')"
  shows "open_rows_ok rows' \<and> (target \<in> fst ` set rows' \<or> length rows' < TELEMETRY_MAX_WINDOW_KEYS)"
proof (cases "has_key key rows \<or> length rows < TELEMETRY_MAX_WINDOW_KEYS \<or> has_key (folded_key key False) rows")
  case True
  with ok t show ?thesis by (auto simp: counter_target_def has_key_iff split: if_splits)
next
  case False
  then have e: "folded_key key False \<notin> fst ` set rows" by (simp add: has_key_iff)
  show ?thesis
  proof (cases "position (\<lambda>(existing, _). same_but_error_class existing key) rows")
    case (Some i)
    then have i: "i < length rows" and s: "same_but_error_class (fst (rows ! i)) key"
      using position_SomeD [OF Some] by (auto simp: split_beta)
    from False Some t have r: "refold i False rows = (target, rows')" by (simp add: counter_target_def)
    from e folded_key_same [OF s] have "folded_key (fst (rows ! i)) False \<notin> fst ` set rows" by simp
    from refold_ok [OF ok i this r] show ?thesis by blast
  next
    case none: None
    show ?thesis
    proof (cases "has_key (folded_key key True) rows")
      case True
      with False none ok t show ?thesis by (auto simp: counter_target_def has_key_iff)
    next
      case absent: False
      show ?thesis
      proof (cases "position (\<lambda>(existing, _). same_but_error_class_and_endpoint existing key) rows")
        case (Some i)
        then have i: "i < length rows" and s: "same_but_error_class_and_endpoint (fst (rows ! i)) key"
          using position_SomeD [OF Some] by (auto simp: split_beta)
        from False none absent Some t have r: "refold i True rows = (target, rows')"
          by (simp add: counter_target_def)
        from absent folded_key_same_endpoint [OF s] have "folded_key (fst (rows ! i)) True \<notin> fst ` set rows"
          by (simp add: has_key_iff)
        from refold_ok [OF ok i this r] show ?thesis by blast
      next
        case None
        with False none absent ok t show ?thesis
          by (cases rows) (auto simp: counter_target_def TELEMETRY_MAX_WINDOW_KEYS_def split: prod.splits)
      qed
    qed
  qed
qed

lemma merge_counter_ok: "open_rows_ok rows \<Longrightarrow> open_rows_ok (merge_counter kr rows)"
proof -
  assume ok: "open_rows_ok rows"
  obtain key increment where k: "kr = (key, increment)" by (cases kr)
  obtain target rows' where t: "counter_target key rows = (target, rows')" by (cases "counter_target key rows")
  have keys: "map fst (merge_counter kr rows) =
      (if target \<in> fst ` set rows' then map fst rows' else map fst rows' @ [target])"
    by (simp add: merge_counter_def k t keys_add_to_row)
  then have "length (merge_counter kr rows) = (if target \<in> fst ` set rows' then length rows' else Suc (length rows'))"
    by (metis length_map length_append_singleton)
  with keys counter_target_ok [OF ok t] show ?thesis by (auto simp: open_rows_ok_def)
qed

lemma merge_all_ok: "open_rows_ok rows \<Longrightarrow> open_rows_ok (fold merge_counter counters rows)"
  by (induction counters arbitrary: rows) (auto intro: merge_counter_ok)

section \<open>Conservation of counts\<close>

text \<open>A measure of a row that merging adds up, as long as the sum stays within \<open>MAX_COUNT\<close>: every count
  of a row and every bucket of its histograms is one. Folding then only moves counts between rows.\<close>

definition window_total :: "(counter_row \<Rightarrow> nat) \<Rightarrow> counter_rows \<Rightarrow> nat" where
  "window_total f rows = sum_list (map (\<lambda>kr. f (snd kr)) rows)"

lemma window_total_Cons [simp]: "window_total f (kr # rows) = f (snd kr) + window_total f rows"
  by (simp add: window_total_def)

locale row_measure =
  fixes measure_of :: "counter_row \<Rightarrow> nat"
  assumes measure_default: "measure_of default_row = 0"
    and measure_merge:
      "measure_of a + measure_of b \<le> MAX_COUNT \<Longrightarrow>
       measure_of (merge_counter_increment a b) = measure_of a + measure_of b"
begin

lemma measure_fresh: "measure_of b \<le> MAX_COUNT \<Longrightarrow> measure_of (merge_counter_increment default_row b) = measure_of b"
  by (simp add: measure_merge measure_default)

lemma total_add_to_row:
  "window_total measure_of rows + measure_of increment \<le> MAX_COUNT \<Longrightarrow>
   window_total measure_of (add_to_row key increment rows) = window_total measure_of rows + measure_of increment"
proof (induction key increment rows rule: add_to_row.induct)
  case (1 key increment)
  then show ?case by (simp add: window_total_def measure_fresh)
next
  case (2 key increment existing row rows)
  then show ?case by (simp add: measure_merge)
qed

lemma total_refold:
  assumes i: "i < length rows" and bound: "window_total measure_of rows \<le> MAX_COUNT"
  shows "window_total measure_of (snd (refold i e rows)) = window_total measure_of rows"
proof -
  obtain existing previous where p: "rows ! i = (existing, previous)" by (cases "rows ! i") auto
  have s: "window_total measure_of (remove_at i rows) + measure_of previous = window_total measure_of rows"
    using sum_list_remove_at [OF i, of "\<lambda>kr. measure_of (snd kr)"] by (simp add: window_total_def p)
  with bound have "measure_of previous \<le> MAX_COUNT" by linarith
  with s show ?thesis
    by (simp add: refold_def p Let_def window_total_def measure_fresh)
qed

lemma total_counter_target:
  assumes bound: "window_total measure_of rows \<le> MAX_COUNT"
  shows "window_total measure_of (snd (counter_target key rows)) = window_total measure_of rows"
  using total_refold [OF _ bound]
  by (auto simp: counter_target_def dest: position_SomeD split: option.split list.split)

lemma total_merge_counter:
  assumes bound: "window_total measure_of rows + measure_of increment \<le> MAX_COUNT"
  shows "window_total measure_of (merge_counter (key, increment) rows) = window_total measure_of rows + measure_of increment"
proof -
  have "window_total measure_of (snd (counter_target key rows)) = window_total measure_of rows"
    using bound by (intro total_counter_target) linarith
  with bound show ?thesis by (simp add: merge_counter_def split_beta total_add_to_row)
qed

lemma total_merge_all:
  "window_total measure_of rows + window_total measure_of counters \<le> MAX_COUNT \<Longrightarrow>
   window_total measure_of (fold merge_counter counters rows) = window_total measure_of rows + window_total measure_of counters"
proof (induction counters arbitrary: rows)
  case (Cons kr counters)
  obtain key increment where k: "kr = (key, increment)" by (cases kr)
  from Cons.prems have "window_total measure_of (merge_counter kr rows) = window_total measure_of rows + measure_of increment"
    unfolding k by (intro total_merge_counter) (simp add: k)
  with Cons show ?case by (simp add: k)
qed (simp add: window_total_def)

end

lemma exact_count: "a + b \<le> MAX_COUNT \<Longrightarrow> saturating_add a (bounded b 0 MAX_COUNT) = a + b"
  by (simp add: saturating_add_def bounded_def clamp_def MAX_COUNT_def u64_max_def)

interpretation requests_of: row_measure cr_requests
  by unfold_locales (simp_all add: default_row_def merge_counter_increment_def exact_count)

interpretation attempts_of: row_measure cr_attempts
  by unfold_locales (simp_all add: default_row_def merge_counter_increment_def exact_count)

interpretation failovers_of: row_measure cr_failover_used
  by unfold_locales (simp_all add: default_row_def merge_counter_increment_def exact_count)

interpretation first_successes_of: row_measure cr_first_attempt_success
  by unfold_locales (simp_all add: default_row_def merge_counter_increment_def exact_count)

interpretation total_bucket_of: row_measure "\<lambda>row. unwrap_or 0 (cr_total_ms_hist row b)" for b
  by unfold_locales
    (auto simp: default_row_def merge_counter_increment_def merge_histogram_def exact_count split: option.split)

interpretation first_bucket_of: row_measure "\<lambda>row. unwrap_or 0 (cr_first_event_ms_hist row b)" for b
  by unfold_locales
    (auto simp: default_row_def merge_counter_increment_def merge_histogram_def exact_count split: option.split)

definition row_counts :: "(counter_row \<Rightarrow> nat) set" where
  "row_counts =
     {cr_requests, cr_attempts, cr_failover_used, cr_first_attempt_success} \<union>
     range (\<lambda>b row. unwrap_or 0 (cr_total_ms_hist row b)) \<union>
     range (\<lambda>b row. unwrap_or 0 (cr_first_event_ms_hist row b))"

text \<open>A full window of distinct keys, for evaluating the fold ladder.\<close>

definition plain_key :: counter_key where
  "plain_key =
     \<lparr>ck_level = LvAttempt, ck_endpoint = EpChatCompletions, ck_streaming = False, ck_host = HostApex,
      ck_outcome = OutTransportError, ck_error_class = Some EcDns, ck_http_status_class = ScNone,
      ck_timeout_phase = TpNone, ck_timeout_floor_met = False, ck_provider_pinned = False\<rparr>"

definition rows_over :: "bool list \<Rightarrow> host list \<Rightarrow> attempt_outcome list \<Rightarrow> http_status_class list \<Rightarrow> counter_rows" where
  "rows_over ss hs as cs =
     map (\<lambda>(s, h, a, c).
         (plain_key\<lparr>ck_streaming := s, ck_host := h, ck_outcome := a, ck_http_status_class := c\<rparr>,
          default_row\<lparr>cr_requests := 3\<rparr>))
       (take TELEMETRY_MAX_WINDOW_KEYS (List.product ss (List.product hs (List.product as cs))))"

lemma rows_over_ok:
  assumes "distinct ss" "distinct hs" "distinct as" "distinct cs"
  shows "open_rows_ok (rows_over ss hs as cs)"
proof -
  have "inj (\<lambda>(s, h, a, c).
      plain_key\<lparr>ck_streaming := s, ck_host := h, ck_outcome := a, ck_http_status_class := c\<rparr>)"
    by (rule injI) (auto simp: plain_key_def)
  moreover have "distinct (take TELEMETRY_MAX_WINDOW_KEYS (List.product ss (List.product hs (List.product as cs))))"
    using assms by (simp add: distinct_product)
  moreover have "map fst (rows_over ss hs as cs) =
      map (\<lambda>(s, h, a, c). plain_key\<lparr>ck_streaming := s, ck_host := h, ck_outcome := a, ck_http_status_class := c\<rparr>)
        (take TELEMETRY_MAX_WINDOW_KEYS (List.product ss (List.product hs (List.product as cs))))"
    by (simp add: rows_over_def o_def split_beta)
  ultimately have "distinct (map fst (rows_over ss hs as cs))"
    by (simp add: distinct_map inj_on_subset [of _ UNIV])
  then show ?thesis by (simp add: open_rows_ok_def rows_over_def)
qed

definition full_window :: counter_rows where
  "full_window =
     rows_over [False, True]
       [HostApex, HostAlly, HostUptime, HostUsCentral1, HostUsEast4, HostEuropeWest4, HostControl, HostCustom]
       [OutTransportError, OutOk, OutHttpError, OutTimeout, OutStreamBroken, OutAborted]
       [ScNone, ScSuccess, ScClientError, ScRateLimited, ScServerError]"

lemma full_window_ok: "open_rows_ok full_window"
  unfolding full_window_def by (rule rows_over_ok) simp_all

lemma full_window_total: "window_total cr_requests full_window = 768"
  by code_simp

lemma full_window_length: "length full_window = 256"
  by code_simp

definition full_state :: rep_state where
  "full_state =
     \<lparr>st_success_sample_rate = 1 / 100, st_flush_interval = from_secs 30, st_events = [],
      st_events_size_bytes = 0, st_next_event_id = 0, st_current_window_start = Some 0,
      st_current_counters = full_window, st_closed_windows = [], st_next_window_id = 0,
      st_retained_window_bytes = 0, st_dropped_since_last = 0, st_instance_id = ''example'', st_seq = 0,
      st_backoff = from_secs 60, st_backoff_until = 0, st_paused_until = 0, st_next_flush_at = 0,
      st_urgent_not_before = 0, st_urgent_flush = False, st_disabled = False, st_closed = False,
      st_worker_started = False\<rparr>"

text \<open>C31: Merging counters into the open window keeps at most 256 rows with distinct keys, and every
  count is conserved: the total of each count over the window (requests, attempts, failovers, first
  attempt successes, and every bucket of the two histograms) is the old total plus that of the
  increments, also when the ladder folds keys together. This holds while the new total is at most ten
  million, the bound at which a single count is clamped.\<close>

theorem counters_conserved:
  assumes f: "f \<in> row_counts" and ok: "open_rows_ok (st_current_counters st)"
    and bound: "window_total f (st_current_counters st) + window_total f counters \<le> MAX_COUNT"
  shows "open_rows_ok (st_current_counters (merge_counters counters st)) \<and>
    window_total f (st_current_counters (merge_counters counters st)) =
      window_total f (st_current_counters st) + window_total f counters"
  using f bound merge_all_ok [OF ok]
  by (auto simp: row_counts_def merge_counters_def
      requests_of.total_merge_all attempts_of.total_merge_all failovers_of.total_merge_all
      first_successes_of.total_merge_all total_bucket_of.total_merge_all first_bucket_of.total_merge_all)



theorem counters_conserved_witness:
  "length full_window = 256 \<and>
   open_rows_ok (st_current_counters (merge_counters
     [(plain_key\<lparr>ck_error_class := Some EcTls\<rparr>, default_row\<lparr>cr_requests := 5\<rparr>)] full_state)) \<and>
   window_total cr_requests (st_current_counters (merge_counters
     [(plain_key\<lparr>ck_error_class := Some EcTls\<rparr>, default_row\<lparr>cr_requests := 5\<rparr>)] full_state)) = 773"
proof -
  have "cr_requests \<in> row_counts" by (simp add: row_counts_def)
  moreover have "st_current_counters full_state = full_window" by (simp add: full_state_def)
  moreover have "window_total cr_requests
      [(plain_key\<lparr>ck_error_class := Some EcTls\<rparr>, default_row\<lparr>cr_requests := 5\<rparr>)] = 5"
    by (simp add: window_total_def)
  ultimately show ?thesis
    using counters_conserved
        [of cr_requests full_state "[(plain_key\<lparr>ck_error_class := Some EcTls\<rparr>, default_row\<lparr>cr_requests := 5\<rparr>)]"]
      full_window_ok full_window_total full_window_length
    by (simp add: MAX_COUNT_def)
qed

end
