(* ===== verification/TR_Reporter.thy ===== *)
theory TR_Reporter
  imports TR_Window TR_Routing TR_Machines
begin

text \<open>
  Delivery of the beacon (second half of \<open>telemetry/reporter.rs\<close>): selecting a batch, posting it once,
  applying the answer, backing off, and the record path. A flush takes the state lock twice, once to
  select and once to apply the answer, and other calls run in between: the reporter is a state machine
  whose operations are these critical sections, with the selection in flight as part of its state. The
  flush lock is the condition that no selection is in flight. Clock readings, random draws and tokens
  are arguments of the operations. Finite floating-point numbers are the rationals they denote, and a
  duration in seconds is rounded to nanoseconds.
\<close>

section \<open>Numbers\<close>

definition from_secs_f64 :: "rat \<Rightarrow> duration" where
  "from_secs_f64 s = nat (round (s * 1000000000))"

definition as_secs_f64 :: "duration \<Rightarrow> rat" where
  "as_secs_f64 d = of_nat d / 1000000000"

definition TELEMETRY_FLUSH_SECONDS :: rat where "TELEMETRY_FLUSH_SECONDS = 30"
definition TELEMETRY_BACKOFF_MIN_SECONDS :: rat where "TELEMETRY_BACKOFF_MIN_SECONDS = 60"
definition TELEMETRY_BACKOFF_MAX_SECONDS :: rat where "TELEMETRY_BACKOFF_MAX_SECONDS = 600"
definition MAX_RETRY_AFTER_SECONDS :: rat where "MAX_RETRY_AFTER_SECONDS = 600"
definition MAX_PAUSE_SECONDS :: rat where "MAX_PAUSE_SECONDS = 86400"
definition SLOW_MS :: nat where "SLOW_MS = 30000"
definition DEFAULT_TELEMETRY_PATH :: string where "DEFAULT_TELEMETRY_PATH = ''/client-events''"

definition normalise_sample_rate :: "rat option \<Rightarrow> rat" where
  "normalise_sample_rate v = (case v of None \<Rightarrow> 1 / 100 | Some r \<Rightarrow> max 0 (min 1 r))"

definition normalise_flush_interval :: "duration \<Rightarrow> duration" where
  "normalise_flush_interval d =
     (if 0 < as_secs_f64 d then from_secs_f64 (min (as_secs_f64 d) TELEMETRY_BACKOFF_MAX_SECONDS)
      else from_secs_f64 TELEMETRY_FLUSH_SECONDS)"

definition millis :: "duration \<Rightarrow> nat" where
  "millis d = min (as_millis d) u64_max"

fun number_as_f64 :: "jnumber \<Rightarrow> rat" where
  "number_as_f64 (PosInt n) = of_nat n"
| "number_as_f64 (NegInt i) = of_int i"
| "number_as_f64 (JFloat q) = q"

fun float_value :: "reporter_libs \<Rightarrow> json \<Rightarrow> rat option" where
  "float_value L (JNumber n) = Some (number_as_f64 n)"
| "float_value L (JString text) = rp_parse_f64 L (trim text)"
| "float_value L _ = None"

section \<open>Selecting and retiring a batch\<close>

record selected =
  sl_body :: string
  sl_event_ids :: "nat list"
  sl_counter_refs :: "(nat \<times> counter_key) list"
  sl_dropped :: nat

text \<open>The waiting rows of the closed windows, oldest first, with the reference and the wire form.\<close>

definition waiting_rows :: "duration \<Rightarrow> counter_window list \<Rightarrow> ((nat \<times> counter_key) \<times> wire_counter) list" where
  "waiting_rows now ws =
     concat (map (\<lambda>w. map (\<lambda>(key, row). ((cw_id w, key), from_row key row (millis (now - cw_window_start w))))
       (cw_rows w)) ws)"

text \<open>Trimming from the tail, events first, until the body fits.\<close>

function trim_batch ::
    "reporter_libs \<Rightarrow> wire_batch \<Rightarrow> nat list \<Rightarrow> (nat \<times> counter_key) list \<Rightarrow> nat \<Rightarrow> selected option" where
  "trim_batch L batch event_ids counter_refs dropped =
     (case rp_batch_json L batch of
        None \<Rightarrow> None
      | Some body \<Rightarrow>
          if length body \<le> MAX_BATCH_BYTES
          then Some \<lparr>sl_body = body, sl_event_ids = event_ids, sl_counter_refs = counter_refs, sl_dropped = dropped\<rparr>
          else if wb_events batch \<noteq> []
          then trim_batch L (batch\<lparr>wb_events := butlast (wb_events batch)\<rparr>) (butlast event_ids) counter_refs dropped
          else if wb_counters batch \<noteq> []
          then trim_batch L (batch\<lparr>wb_counters := butlast (wb_counters batch)\<rparr>) event_ids (butlast counter_refs) dropped
          else None)"
  by pat_completeness auto
termination
  by (relation "measure (\<lambda>(L, batch, ids, refs, d). length (wb_events batch) + length (wb_counters batch))")
    auto

declare trim_batch.simps [simp del]

definition select_batch ::
    "reporter_libs \<Rightarrow> duration \<Rightarrow> nat \<Rightarrow> sdk_identity_t \<Rightarrow> string \<Rightarrow> nat \<Rightarrow> rep_state \<Rightarrow>
     selected option \<times> rep_state" where
  "select_batch L now retention_bytes sdk token sent_at_ms st =
     (let st = prune_windows now retention_bytes
            (close_current_window L now retention_bytes (roll_window L now retention_bytes st));
          taken = take TELEMETRY_MAX_BATCH_EVENTS (st_events st);
          rows = take TELEMETRY_MAX_BATCH_COUNTERS (waiting_rows now (st_closed_windows st))
      in if taken = [] \<and> rows = [] then (None, st)
         else
           (let batch = (batch_new sent_at_ms token (st_instance_id st) (st_seq st) sdk)
                  \<lparr>wb_dropped_since_last := st_dropped_since_last st,
                   wb_events := map (\<lambda>b. aged (millis (now - bf_completed_at b)) (bf_wire b)) taken,
                   wb_counters := map snd rows\<rparr>
            in (trim_batch L batch (map bf_id taken) (map fst rows) (st_dropped_since_last st),
                st\<lparr>st_seq := st_seq st + 1\<rparr>)))"

text \<open>Removing one referenced row: from the first window with the identifier, the first row with the
  key.\<close>

fun remove_row :: "nat \<times> counter_key \<Rightarrow> counter_window list \<Rightarrow> counter_window list \<times> bool" where
  "remove_row r [] = ([], False)"
| "remove_row (wid, key) (w # ws) =
     (if cw_id w = wid
      then (case position (\<lambda>(existing, _). existing = key) (cw_rows w) of
              None \<Rightarrow> (w # ws, False)
            | Some i \<Rightarrow> (w\<lparr>cw_rows := remove_at i (cw_rows w)\<rparr> # ws, True))
      else (let (ws', b) = remove_row (wid, key) ws in (w # ws', b)))"

definition retire_row ::
    "nat \<times> counter_key \<Rightarrow> counter_window list \<times> nat list \<Rightarrow> counter_window list \<times> nat list" where
  "retire_row r s =
     (let (ws, changed) = s; (ws', b) = remove_row r ws in (ws', if b then fst r # changed else changed))"

fun resize_windows ::
    "reporter_libs \<Rightarrow> nat list \<Rightarrow> counter_window list \<Rightarrow> nat \<Rightarrow> counter_window list \<times> nat" where
  "resize_windows L changed [] retained = ([], retained)"
| "resize_windows L changed (w # ws) retained =
     (if cw_id w \<in> set changed then
        (let size_bytes = (if cw_rows w = [] then 0 else window_size L (cw_rows w));
             (ws', retained') = resize_windows L changed ws (retained - cw_size_bytes w + size_bytes)
         in (w\<lparr>cw_size_bytes := size_bytes\<rparr> # ws', retained'))
      else (let (ws', retained') = resize_windows L changed ws retained in (w # ws', retained')))"

definition remove_selected ::
    "reporter_libs \<Rightarrow> nat list \<Rightarrow> (nat \<times> counter_key) list \<Rightarrow> rep_state \<Rightarrow> rep_state" where
  "remove_selected L event_ids counter_refs st =
     (let events = filter (\<lambda>b. bf_id b \<notin> set event_ids) (st_events st);
          (ws, changed) = fold retire_row counter_refs (st_closed_windows st, []);
          (ws', retained) = resize_windows L changed ws (st_retained_window_bytes st)
      in st\<lparr>st_events := events, st_events_size_bytes := sum_list (map bf_estimated_bytes events),
            st_closed_windows := filter (\<lambda>w. cw_rows w \<noteq> []) ws', st_retained_window_bytes := retained\<rparr>)"

section \<open>Backoff, policy and answers\<close>

definition set_backoff :: "duration \<Rightarrow> duration option \<Rightarrow> rep_state \<Rightarrow> rep_state" where
  "set_backoff now retry_after st =
     (let delay = (case retry_after of None \<Rightarrow> st_backoff st | Some r \<Rightarrow> max (st_backoff st) r);
          ceiling = from_secs_f64 TELEMETRY_BACKOFF_MAX_SECONDS
      in st\<lparr>st_backoff_until := now + min delay ceiling,
            st_backoff := min (max (st_backoff st * 2) (from_secs_f64 TELEMETRY_BACKOFF_MIN_SECONDS)) ceiling\<rparr>)"

definition disable :: "rep_state \<Rightarrow> rep_state" where
  "disable st =
     st\<lparr>st_disabled := True, st_events := [], st_events_size_bytes := 0, st_current_counters := [],
        st_closed_windows := [], st_retained_window_bytes := 0, st_dropped_since_last := 0\<rparr>"

definition policy_value :: "reporter_libs \<Rightarrow> string \<Rightarrow> json \<Rightarrow> rat option" where
  "policy_value L name policy = Option.bind (jget name policy) (float_value L)"

definition apply_policy :: "reporter_libs \<Rightarrow> json \<Rightarrow> duration \<Rightarrow> rep_state \<Rightarrow> rep_state" where
  "apply_policy L policy now st =
     (let st = (case policy_value L ''success_sample_rate'' policy of
                  Some rate \<Rightarrow>
                    if 0 \<le> rate \<and> rate < st_success_sample_rate st then st\<lparr>st_success_sample_rate := rate\<rparr> else st
                | None \<Rightarrow> st);
          st = (case policy_value L ''flush_seconds'' policy of
                  Some seconds \<Rightarrow>
                    if as_secs_f64 (st_flush_interval st) < seconds
                    then st\<lparr>st_flush_interval := from_secs_f64 (min seconds TELEMETRY_BACKOFF_MAX_SECONDS)\<rparr> else st
                | None \<Rightarrow> st)
      in case policy_value L ''pause_seconds'' policy of
           Some seconds \<Rightarrow>
             if 0 \<le> seconds \<and> seconds \<le> MAX_PAUSE_SECONDS
             then st\<lparr>st_paused_until := max (st_paused_until st) (now + from_secs_f64 seconds)\<rparr> else st
         | None \<Rightarrow> st)"

definition retry_after :: "reporter_libs \<Rightarrow> http_api \<Rightarrow> header_map \<Rightarrow> duration option" where
  "retry_after L H headers =
     Option.bind (header_text H ''retry-after'' headers) (\<lambda>text.
       map_option from_secs_f64
         (opt_filter (\<lambda>s. 0 \<le> s \<and> s \<le> MAX_RETRY_AFTER_SECONDS) (rp_parse_f64 L (trim text))))"

definition handle_response ::
    "reporter_libs \<Rightarrow> http_api \<Rightarrow> nat \<Rightarrow> header_map \<Rightarrow> string \<Rightarrow> duration \<Rightarrow> selected \<Rightarrow> rep_state \<Rightarrow> rep_state" where
  "handle_response L H status headers body now sel st =
     (if is_some_and (\<lambda>v. eq_ignore_ascii_case (trim v) ''off'') (header_text H ''x-tr-telemetry'' headers)
      then disable st
      else if status = 202 then
        (let st = remove_selected L (sl_event_ids sel) (sl_counter_refs sel) st;
             st = st\<lparr>st_dropped_since_last := st_dropped_since_last st - sl_dropped sel,
                     st_backoff := from_secs_f64 TELEMETRY_BACKOFF_MIN_SECONDS, st_backoff_until := 0\<rparr>
         in case opt_filter is_object (Option.bind (rp_parse_json L body) (jget ''policy'')) of
              Some policy \<Rightarrow> apply_policy L policy now st
            | None \<Rightarrow> st)
      else if status \<in> set [400, 401, 403, 404, 410] then disable st
      else if status = 413 then
        (let st = remove_selected L (sl_event_ids sel) (sl_counter_refs sel) st
         in st\<lparr>st_dropped_since_last := saturating_add (st_dropped_since_last st)
                 (length (sl_event_ids sel) + length (sl_counter_refs sel))\<rparr>)
      else set_backoff now (retry_after L H headers) st)"

section \<open>The reporter\<close>

text \<open>\<open>ReporterConfig\<close> and \<open>Inner\<close> without the clock, the sampler, the transport and the debug echo:
  readings and draws are arguments, the transport is what answers a request, and the echo prints the
  batch without changing anything.\<close>

record 'u reporter_config =
  rc_control_base_url :: 'u
  rc_api_key :: "string option"
  rc_workspace_id :: "string option"
  rc_sdk :: sdk_identity_t
  rc_success_sample_rate :: "rat option"
  rc_flush_interval :: duration
  rc_retention_bytes :: nat

record 'u reporter_inner =
  in_endpoint :: 'u
  in_api_key :: "string option"
  in_workspace_id :: "string option"
  in_sdk :: sdk_identity_t
  in_retention_bytes :: nat

definition config_new :: "'u \<Rightarrow> string option \<Rightarrow> sdk_identity_t \<Rightarrow> 'u reporter_config" where
  "config_new control_base_url api_key sdk =
     \<lparr>rc_control_base_url = control_base_url, rc_api_key = api_key, rc_workspace_id = None, rc_sdk = sdk,
      rc_success_sample_rate = Some (1 / 100), rc_flush_interval = from_secs_f64 TELEMETRY_FLUSH_SECONDS,
      rc_retention_bytes = TELEMETRY_RETENTION_BYTES\<rparr>"

definition reporter_new :: "'u url_api \<Rightarrow> 'u reporter_config \<Rightarrow> string \<Rightarrow> 'u reporter_inner \<times> rep_state" where
  "reporter_new U c token =
     (\<lparr>in_endpoint =
         (case url_join U (rc_control_base_url c) (trim_start_slashes DEFAULT_TELEMETRY_PATH) of
            Inr u \<Rightarrow> u | Inl _ \<Rightarrow> rc_control_base_url c),
       in_api_key = rc_api_key c, in_workspace_id = rc_workspace_id c, in_sdk = rc_sdk c,
       in_retention_bytes = rc_retention_bytes c\<rparr>,
      \<lparr>st_success_sample_rate = normalise_sample_rate (rc_success_sample_rate c),
       st_flush_interval = normalise_flush_interval (rc_flush_interval c), st_events = [],
       st_events_size_bytes = 0, st_next_event_id = 0, st_current_window_start = None,
       st_current_counters = [], st_closed_windows = [], st_next_window_id = 0,
       st_retained_window_bytes = 0, st_dropped_since_last = 0, st_instance_id = token, st_seq = 0,
       st_backoff = from_secs_f64 TELEMETRY_BACKOFF_MIN_SECONDS, st_backoff_until = 0, st_paused_until = 0,
       st_next_flush_at = 0, st_urgent_not_before = 0, st_urgent_flush = False, st_disabled = False,
       st_closed = False, st_worker_started = False\<rparr>)"

text \<open>\<open>sample_reason\<close> with the uniform draw as an argument.\<close>

definition choose_sample :: "rat \<Rightarrow> request_event \<Rightarrow> rat \<Rightarrow> (sample_reason \<times> rat) option" where
  "choose_sample draw ev rate =
     (if \<not> final_is_ok (ev_final_outcome ev) then Some (SampleFailure, 1)
      else if 1 < length (ev_attempts ev) \<or> ev_failover_used ev then Some (SampleRetried, 1)
      else if SLOW_MS < ev_total_ms ev then Some (SampleSlow, 1)
      else if rate \<le> 0 \<or> rate \<le> draw then None
      else Some (SampleRandom, rate))"

definition start_worker :: "duration \<Rightarrow> bool \<Rightarrow> rep_state \<Rightarrow> rep_state" where
  "start_worker now runtime st =
     (if st_worker_started st \<or> st_disabled st \<or> st_closed st \<or> \<not> runtime then st
      else st\<lparr>st_next_flush_at := now + st_flush_interval st, st_worker_started := True\<rparr>)"

definition on_request ::
    "reporter_libs \<Rightarrow> nat \<Rightarrow> duration \<Rightarrow> rat \<Rightarrow> bool \<Rightarrow> request_event \<Rightarrow> counter_rows \<Rightarrow> rep_state \<Rightarrow> rep_state" where
  "on_request L retention_bytes now draw runtime ev counters st =
     (let reason = choose_sample draw ev (st_success_sample_rate st);
          sampled = Option.bind reason (\<lambda>(reason, rate). from_event ev reason rate);
          invalid_sample = (reason \<noteq> None \<and> sampled = None)
      in if st_disabled st \<or> st_closed st then st
         else
           (let st = merge_counters counters (roll_window L now retention_bytes st);
                st = (if invalid_sample
                      then st\<lparr>st_dropped_since_last := saturating_add (st_dropped_since_last st) 1\<rparr> else st);
                st = (case sampled of None \<Rightarrow> st | Some wire \<Rightarrow> append_event L wire now st);
                st = start_worker now runtime st
            in if urgent st then st\<lparr>st_urgent_flush := True\<rparr> else st))"

record 'u beacon_request =
  bq_url :: 'u
  bq_headers :: header_layer
  bq_timeout :: "duration option"
  bq_body :: string

definition beacon_request ::
    "build_env \<Rightarrow> 'u reporter_inner \<Rightarrow> string \<Rightarrow> duration option \<Rightarrow> selected \<Rightarrow> 'u beacon_request" where
  "beacon_request B I api_key timeout sel =
     \<lparr>bq_url = in_endpoint I,
      bq_headers =
        [(''authorization'', ''Bearer '' @ api_key), (''user-agent'', sdk_user_agent B),
         (''content-type'', ''application/json'')] @
        (case opt_filter (\<lambda>w. w \<noteq> []) (in_workspace_id I) of
           None \<Rightarrow> [] | Some w \<Rightarrow> [(''x-trustedrouter-workspace'', w)]),
      bq_timeout = map_option (\<lambda>t. max t 1000000) timeout,
      bq_body = sl_body sel\<rparr>"

text \<open>The part of \<open>flush_with\<close> before the request is sent: the gate, the key, the selection.\<close>

definition flush_begin ::
    "reporter_libs \<Rightarrow> build_env \<Rightarrow> 'u reporter_inner \<Rightarrow> duration \<Rightarrow> string \<Rightarrow> nat \<Rightarrow> duration option \<Rightarrow> rep_state \<Rightarrow>
     ('u beacon_request \<times> selected) option \<times> rep_state" where
  "flush_begin L B I now token sent_at_ms timeout st =
     (if st_disabled st \<or> now < gate st then (None, st)
      else
        (case opt_filter (\<lambda>k. k \<noteq> []) (in_api_key I) of
           None \<Rightarrow> (None, st)
         | Some api_key \<Rightarrow>
             (let (sel, st) = select_batch L now (in_retention_bytes I) (in_sdk I) token sent_at_ms st
              in (map_option (\<lambda>s. (beacon_request B I api_key timeout s, s)) sel, st))))"

text \<open>One turn of the worker: stop, wait until the deadline, or flush.\<close>

datatype worker_turn = TurnStop | TurnWait duration | TurnFlush

definition worker_decide :: "duration \<Rightarrow> rep_state \<Rightarrow> worker_turn \<times> rep_state" where
  "worker_decide now st =
     (if st_closed st \<or> st_disabled st then (TurnStop, st)
      else
        (let deadline = max (st_next_flush_at st) (gate st)
         in if st_urgent_flush st \<and> gate st \<le> now \<and> st_urgent_not_before st \<le> now
            then (TurnFlush, st\<lparr>st_urgent_flush := False\<rparr>)
            else if now < deadline then (TurnWait (deadline - now), st)
            else (TurnFlush, st)))"

definition worker_settle :: "duration \<Rightarrow> rep_state \<Rightarrow> rep_state" where
  "worker_settle now st =
     st\<lparr>st_next_flush_at := now + st_flush_interval st, st_urgent_not_before := now + st_flush_interval st\<rparr>"


text \<open>\<open>close\<close> marks the state closed, once; only then is the final flush spawned.\<close>

definition close_begin :: "rep_state \<Rightarrow> rep_state option" where
  "close_begin st = (if st_closed st then None else Some (st\<lparr>st_closed := True\<rparr>))"

end
