(* ===== verification/TR_Client.thy ===== *)
theory TR_Client
  imports TR_Sse TR_ReceiptKey TR_Catalogue TR_Reporter
begin

text \<open>
  The client (\<open>client.rs\<close>): the builder and what it constructs, the generic typed request, and every
  endpoint method as the call it hands to the request engine. \<open>reqwest\<close> is the record \<open>http_maker\<close>:
  reading a PEM certificate and building a transport from a configuration. The query part of a URL
  (\<open>Url::query\<close>, \<open>query_pairs\<close>, \<open>query_pairs_mut().append_pair\<close>, \<open>as_str\<close>) is the record
  \<open>query_api\<close>. The environment is a function from names to values. A reporter that a client holds
  is returned beside it; its debug echo and its own transport are not part of the reporter's model.
\<close>

section \<open>The builder\<close>

record ('a, 'c) client_builder =
  cb_api_key :: "string option"
  cb_api_base_url :: string
  cb_control_base_url :: string
  cb_workspace_id :: "string option"
  cb_timeout :: "duration option"
  cb_max_retries :: nat
  cb_regional_failover :: bool
  cb_telemetry :: "bool option"
  cb_telemetry_sample_rate :: "rat option"
  cb_headers :: header_layer
  cb_http_client :: "'c option"
  cb_root_certificate_pems :: "string list"
  cb_host_resolutions :: "(string \<times> 'a) list"

definition DEFAULT_REQUEST_TIMEOUT :: duration where "DEFAULT_REQUEST_TIMEOUT = from_secs 120"
definition DEFAULT_MAX_RETRIES :: nat where "DEFAULT_MAX_RETRIES = 2"
definition DEFAULT_TELEMETRY_SAMPLE_RATE :: rat where "DEFAULT_TELEMETRY_SAMPLE_RATE = 1 / 100"
definition DEFAULT_STATUS_URL :: string where
  "DEFAULT_STATUS_URL = ''https://status.trustedrouter.com/status.json''"

definition default_builder :: "(string \<Rightarrow> string option) \<Rightarrow> ('a, 'c) client_builder" where
  "default_builder env =
     \<lparr>cb_api_key = env ''TRUSTEDROUTER_API_KEY'', cb_api_base_url = DEFAULT_API_BASE_URL,
      cb_control_base_url = DEFAULT_CONTROL_BASE_URL, cb_workspace_id = None,
      cb_timeout = Some DEFAULT_REQUEST_TIMEOUT, cb_max_retries = DEFAULT_MAX_RETRIES,
      cb_regional_failover = True, cb_telemetry = None,
      cb_telemetry_sample_rate = Some DEFAULT_TELEMETRY_SAMPLE_RATE, cb_headers = [],
      cb_http_client = None, cb_root_certificate_pems = [], cb_host_resolutions = []\<rparr>"

text \<open>\<open>BTreeMap::insert\<close> on the sequence of entries in key order.\<close>

definition str_less :: "string \<Rightarrow> string \<Rightarrow> bool" where
  "str_less s t \<longleftrightarrow> ord.lexordp (\<lambda>a b. byte a < byte b) s t"

fun btree_insert :: "string \<Rightarrow> 'v \<Rightarrow> (string \<times> 'v) list \<Rightarrow> (string \<times> 'v) list" where
  "btree_insert k v [] = [(k, v)]"
| "btree_insert k v ((k', v') # m) =
     (if k = k' then (k, v) # m
      else if str_less k k' then (k, v) # (k', v') # m
      else (k', v') # btree_insert k v m)"

text \<open>The setters.\<close>

datatype 'c setting =
    SetApiKey string
  | SetApiBaseUrl string
  | SetControlBaseUrl string
  | SetWorkspaceId string
  | SetTimeout "duration option"
  | SetMaxRetries nat
  | SetRegionalFailover bool
  | SetTelemetry bool
  | SetTelemetrySampleRate "rat option"
  | AddHeader string string
  | SetHttpClient 'c
  | AddRootCertificatePem string

fun configure :: "'c setting \<Rightarrow> ('a, 'c) client_builder \<Rightarrow> ('a, 'c) client_builder" where
  "configure (SetApiKey v) b = b\<lparr>cb_api_key := Some v\<rparr>"
| "configure (SetApiBaseUrl v) b = b\<lparr>cb_api_base_url := v\<rparr>"
| "configure (SetControlBaseUrl v) b = b\<lparr>cb_control_base_url := v\<rparr>"
| "configure (SetWorkspaceId v) b = b\<lparr>cb_workspace_id := Some v\<rparr>"
| "configure (SetTimeout v) b = b\<lparr>cb_timeout := v\<rparr>"
| "configure (SetMaxRetries v) b = b\<lparr>cb_max_retries := v\<rparr>"
| "configure (SetRegionalFailover v) b = b\<lparr>cb_regional_failover := v\<rparr>"
| "configure (SetTelemetry v) b = b\<lparr>cb_telemetry := Some v\<rparr>"
| "configure (SetTelemetrySampleRate v) b = b\<lparr>cb_telemetry_sample_rate := v\<rparr>"
| "configure (AddHeader name v) b = b\<lparr>cb_headers := btree_insert name v (cb_headers b)\<rparr>"
| "configure (SetHttpClient v) b = b\<lparr>cb_http_client := Some v\<rparr>"
| "configure (AddRootCertificatePem v) b =
     b\<lparr>cb_root_certificate_pems := cb_root_certificate_pems b @ [v]\<rparr>"

definition resolve_hostname :: "string \<Rightarrow> 'a \<Rightarrow> ('a, 'c) client_builder \<Rightarrow> ('a, 'c) client_builder" where
  "resolve_hostname host address b =
     b\<lparr>cb_host_resolutions := btree_insert host address (cb_host_resolutions b)\<rparr>"

section \<open>SDK-owned transports\<close>

record 'a http_config =
  hc_user_agent :: string
  hc_follow_redirects :: bool
  hc_roots :: "string list"
  hc_resolve :: "(string \<times> 'a) list"

record ('a, 'c) http_maker =
  hm_from_pem :: "string \<Rightarrow> string + string"
  hm_build :: "'a http_config \<Rightarrow> string + 'c"

fun add_roots :: "('a, 'c) http_maker \<Rightarrow> string list \<Rightarrow> 'a http_config \<Rightarrow> error + 'a http_config" where
  "add_roots R [] c = Inr c"
| "add_roots R (pem # pems) c =
     and_then
       (map_err (\<lambda>e. ErrInvalidConfiguration (''invalid root certificate PEM: '' @ e)) (hm_from_pem R pem))
       (\<lambda>certificate. add_roots R pems (c\<lparr>hc_roots := hc_roots c @ [certificate]\<rparr>))"

definition owned_http_builder ::
    "('a, 'c) http_maker \<Rightarrow> build_env \<Rightarrow> string list \<Rightarrow> (string \<times> 'a) list \<Rightarrow> error + 'a http_config" where
  "owned_http_builder R B root_certificate_pems host_resolutions =
     and_then
       (add_roots R root_certificate_pems
         \<lparr>hc_user_agent = sdk_user_agent B, hc_follow_redirects = False, hc_roots = [], hc_resolve = []\<rparr>)
       (\<lambda>c. Inr (c\<lparr>hc_resolve := hc_resolve c @ host_resolutions\<rparr>))"

definition build_owned_http ::
    "('a, 'c) http_maker \<Rightarrow> build_env \<Rightarrow> string list \<Rightarrow> (string \<times> 'a) list \<Rightarrow> error + 'c" where
  "build_owned_http R B root_certificate_pems host_resolutions =
     and_then (owned_http_builder R B root_certificate_pems host_resolutions) (\<lambda>c.
       map_err ErrInvalidConfiguration (hm_build R c))"

section \<open>Building a client\<close>

text \<open>\<open>token\<close> is the random instance identifier the reporter draws.\<close>

definition client_reporter ::
    "'u libs \<Rightarrow> string \<Rightarrow> ('a, 'c) client_builder \<Rightarrow> 'u \<Rightarrow> 'u reporter_inner \<times> rep_state" where
  "client_reporter L token b control_base_url =
     reporter_new (lib_url L)
       ((config_new control_base_url (cb_api_key b) (sdk_identity (lib_build L)))
          \<lparr>rc_workspace_id := cb_workspace_id b, rc_success_sample_rate := cb_telemetry_sample_rate b\<rparr>)
       token"

definition build ::
    "'u libs \<Rightarrow> ('a, 'c) http_maker \<Rightarrow> (string \<Rightarrow> string option) \<Rightarrow> string \<Rightarrow> ('a, 'c) client_builder \<Rightarrow>
     error + ('u, 'c) client \<times> ('u reporter_inner \<times> rep_state) option" where
  "build L R env token b =
     and_then (parse_base_url (lib_url L) (cb_api_base_url b) ''inference'') (\<lambda>api_base_url.
     and_then (parse_base_url (lib_url L) (cb_control_base_url b) ''control'') (\<lambda>control_base_url.
     let telemetry = resolve_telemetry_enabled (lib_url L) (cb_telemetry b) (cb_api_base_url b)
           (cb_control_base_url b) env
     in
     and_then (build_owned_http R (lib_build L) (cb_root_certificate_pems b) (cb_host_resolutions b))
       (\<lambda>credential_free_http.
     Inr (\<lparr>cl_api_key = cb_api_key b, cl_api_base_url = api_base_url,
           cl_api_base_urls =
             (if cb_regional_failover b then inference_base_urls (lib_url L) api_base_url
              else [api_base_url]),
           cl_control_base_url = control_base_url, cl_workspace_id = cb_workspace_id b,
           cl_timeout = cb_timeout b, cl_max_retries = cb_max_retries b, cl_telemetry = telemetry,
           cl_telemetry_sink = telemetry, cl_headers = cb_headers b,
           cl_http = unwrap_or credential_free_http (cb_http_client b),
           cl_credential_free_http = credential_free_http\<rparr>,
          if telemetry then Some (client_reporter L token b control_base_url) else None))))"

definition client_new ::
    "'u libs \<Rightarrow> ('a, 'c) http_maker \<Rightarrow> (string \<Rightarrow> string option) \<Rightarrow> string \<Rightarrow> string \<Rightarrow>
     error + ('u, 'c) client \<times> ('u reporter_inner \<times> rep_state) option" where
  "client_new L R env token api_key = build L R env token (configure (SetApiKey api_key) (default_builder env))"


section \<open>Paths\<close>

record 'u query_api =
  qa_append :: "string \<Rightarrow> string \<Rightarrow> 'u \<Rightarrow> 'u"
  qa_query :: "'u \<Rightarrow> string option"
  qa_pairs :: "'u \<Rightarrow> (string \<times> string) list"
  qa_as_str :: "'u \<Rightarrow> string"

definition resource_path :: "string \<Rightarrow> string \<Rightarrow> error + string" where
  "resource_path base_path ident =
     (if ident = [] \<or> CHR ''/'' \<in> set ident \<or> CHR ''?'' \<in> set ident \<or> CHR ''#'' \<in> set ident
      then Inl (ErrInvalidConfiguration ''invalid resource ID'')
      else Inr (base_path @ ''/'' @ ident))"

definition append_pairs :: "'u query_api \<Rightarrow> (string \<times> string) list \<Rightarrow> 'u \<Rightarrow> 'u" where
  "append_pairs Q pairs url = foldl (\<lambda>u (k, v). qa_append Q k v u) url pairs"

definition query_path ::
    "'u url_api \<Rightarrow> 'u query_api \<Rightarrow> string \<Rightarrow> (string \<times> string) list \<Rightarrow> error + string" where
  "query_path U Q path pairs =
     and_then (map_err ErrInvalidConfiguration (url_parse U ''https://sdk.invalid'')) (\<lambda>url.
       Inr (case qa_query Q (append_pairs Q pairs (url_set_path U path url)) of
              Some query \<Rightarrow> path @ ''?'' @ query
            | None \<Rightarrow> path))"

section \<open>Requests\<close>

text \<open>\<open>Client::request\<close>; the typed decoding of the body is the parameter \<open>decode\<close>.\<close>

definition client_request ::
    "'u libs \<Rightarrow> ('u, 'c) net_env \<Rightarrow> (string \<Rightarrow> string + 'r) \<Rightarrow> ('u, 'c) call \<Rightarrow>
     ('u, 'c) net_event list \<times> (error + 'r)" where
  "client_request L E decode c =
     (let (trace, bytes) = request_bytes L E c
      in (trace, and_then bytes (\<lambda>b. map_err ErrSerialization (decode b))))"

text \<open>The arguments of a request as the endpoint methods pass them.\<close>

definition api_call ::
    "('u, 'c) client \<Rightarrow> plane \<Rightarrow> http_method \<Rightarrow> string \<Rightarrow> json option \<Rightarrow> call_options \<Rightarrow> ('u, 'c) call" where
  "api_call cl plane method path body options =
     \<lparr>call_client = cl, call_plane = plane, call_method = method, call_path = path, call_body = body,
      call_options = options, call_streaming = False\<rparr>"

section \<open>Inference endpoints\<close>

text \<open>Each method is the call it makes, or the error it returns before one. \<open>uuid\<close> is the random
  identifier a fresh idempotency key is made of.\<close>

definition chat_completions :: "('u, 'c) client \<Rightarrow> string \<Rightarrow> chat_request \<Rightarrow> error + ('u, 'c) call" where
  "chat_completions cl uuid request =
     and_then (with_stream (chat_request_to_json request) False) (\<lambda>body.
       Inr (api_call cl Inference POST ''/chat/completions'' (Some body)
         (ensure_idempotency_key uuid (chat_call_options request))))"

definition responses :: "('u, 'c) client \<Rightarrow> string \<Rightarrow> responses_request \<Rightarrow> error + ('u, 'c) call" where
  "responses cl uuid request =
     and_then (with_stream (responses_request_to_json request) False) (\<lambda>body.
       Inr (api_call cl Inference POST ''/responses'' (Some body)
         (ensure_idempotency_key uuid (rreq_call_options request))))"

definition responses_input_tokens ::
    "('u, 'c) client \<Rightarrow> string \<Rightarrow> responses_request \<Rightarrow> error + ('u, 'c) call" where
  "responses_input_tokens cl uuid request =
     and_then (with_stream (responses_request_to_json request) False) (\<lambda>body.
       Inr (api_call cl Inference POST ''/responses/input_tokens'' (Some body)
         (ensure_idempotency_key uuid (rreq_call_options request))))"

definition messages :: "('u, 'c) client \<Rightarrow> string \<Rightarrow> messages_request \<Rightarrow> error + ('u, 'c) call" where
  "messages cl uuid request =
     Inr (api_call cl Inference POST ''/messages'' (Some (messages_request_to_json request))
       (ensure_idempotency_key uuid (mreq_call_options request)))"

definition embeddings :: "('u, 'c) client \<Rightarrow> string \<Rightarrow> embeddings_request \<Rightarrow> error + ('u, 'c) call" where
  "embeddings cl uuid request =
     Inr (api_call cl Inference POST ''/embeddings'' (Some (embeddings_request_to_json request))
       (ensure_idempotency_key uuid (emb_call_options request)))"

section \<open>Control endpoints\<close>

definition show_bool :: "bool \<Rightarrow> string" where
  "show_bool b = (if b then ''true'' else ''false'')"

definition models ::
    "'u url_api \<Rightarrow> 'u query_api \<Rightarrow> ('u, 'c) client \<Rightarrow> model_filters \<Rightarrow> error + ('u, 'c) call" where
  "models U Q cl filters =
     (let query =
        (case filt_open_weights filters of None \<Rightarrow> [] | Some v \<Rightarrow> [(''open_weights'', show_bool v)]) @
        (case filt_provider_jurisdiction filters of None \<Rightarrow> [] | Some v \<Rightarrow> [(''provider[jurisdiction]'', v)]) @
        (case filt_provider_region filters of None \<Rightarrow> [] | Some v \<Rightarrow> [(''provider[region]'', v)])
      in and_then (query_path U Q ''/models'' query) (\<lambda>path.
           Inr (api_call cl Control GET path None default_call_options)))"

definition providers :: "('u, 'c) client \<Rightarrow> error + ('u, 'c) call" where
  "providers cl = Inr (api_call cl Control GET ''/providers'' None default_call_options)"

definition regions :: "('u, 'c) client \<Rightarrow> error + ('u, 'c) call" where
  "regions cl = Inr (api_call cl Control GET ''/regions'' None default_call_options)"

definition credits :: "('u, 'c) client \<Rightarrow> call_options \<Rightarrow> error + ('u, 'c) call" where
  "credits cl options = Inr (api_call cl Control GET ''/credits'' None options)"

definition activity ::
    "'u url_api \<Rightarrow> 'u query_api \<Rightarrow> ('u, 'c) client \<Rightarrow> (string \<times> string) list \<Rightarrow> call_options \<Rightarrow>
     error + ('u, 'c) call" where
  "activity U Q cl query options =
     and_then (query_path U Q ''/activity'' query) (\<lambda>path.
       Inr (api_call cl Control GET path None options))"

definition auth_session :: "('u, 'c) client \<Rightarrow> error + ('u, 'c) call" where
  "auth_session cl = Inr (api_call cl Control GET ''/auth/session'' None default_call_options)"

definition user_info :: "('u, 'c) client \<Rightarrow> error + ('u, 'c) call" where
  "user_info cl = Inr (api_call cl Control GET ''/auth/userinfo'' None default_call_options)"

definition logout :: "('u, 'c) client \<Rightarrow> string \<Rightarrow> error + ('u, 'c) call" where
  "logout cl uuid =
     Inr (api_call cl Control POST ''/auth/logout'' None (ensure_idempotency_key uuid default_call_options))"

definition broadcast_destinations :: "('u, 'c) client \<Rightarrow> call_options \<Rightarrow> error + ('u, 'c) call" where
  "broadcast_destinations cl options =
     Inr (api_call cl Control GET ''/broadcast/destinations'' None options)"

definition create_broadcast_destination ::
    "('u, 'c) client \<Rightarrow> string \<Rightarrow> json \<Rightarrow> call_options \<Rightarrow> error + ('u, 'c) call" where
  "create_broadcast_destination cl uuid body options =
     Inr (api_call cl Control POST ''/broadcast/destinations'' (Some body)
       (ensure_idempotency_key uuid options))"

definition get_broadcast_destination ::
    "('u, 'c) client \<Rightarrow> string \<Rightarrow> call_options \<Rightarrow> error + ('u, 'c) call" where
  "get_broadcast_destination cl ident options =
     and_then (resource_path ''/broadcast/destinations'' ident) (\<lambda>path.
       Inr (api_call cl Control GET path None options))"

definition update_broadcast_destination ::
    "('u, 'c) client \<Rightarrow> string \<Rightarrow> string \<Rightarrow> json \<Rightarrow> call_options \<Rightarrow> error + ('u, 'c) call" where
  "update_broadcast_destination cl uuid ident patch options =
     and_then (resource_path ''/broadcast/destinations'' ident) (\<lambda>path.
       Inr (api_call cl Control PATCH path (Some patch) (ensure_idempotency_key uuid options)))"

definition delete_broadcast_destination ::
    "('u, 'c) client \<Rightarrow> string \<Rightarrow> string \<Rightarrow> call_options \<Rightarrow> error + ('u, 'c) call" where
  "delete_broadcast_destination cl uuid ident options =
     and_then (resource_path ''/broadcast/destinations'' ident) (\<lambda>path.
       Inr (api_call cl Control DELETE path None (ensure_idempotency_key uuid options)))"

definition test_broadcast_destination ::
    "('u, 'c) client \<Rightarrow> string \<Rightarrow> string \<Rightarrow> call_options \<Rightarrow> error + ('u, 'c) call" where
  "test_broadcast_destination cl uuid ident options =
     and_then (resource_path ''/broadcast/destinations'' ident) (\<lambda>path.
       Inr (api_call cl Control POST (path @ ''/test'') None (ensure_idempotency_key uuid options)))"

definition billing_checkout ::
    "('u, 'c) client \<Rightarrow> string \<Rightarrow> json \<Rightarrow> string option \<Rightarrow> call_options \<Rightarrow> error + ('u, 'c) call" where
  "billing_checkout cl uuid amount payment_method options =
     (let body = fmupd ''amount'' amount fmempty;
          body = (case payment_method of
              None \<Rightarrow> body | Some v \<Rightarrow> fmupd ''payment_method'' (JString v) body)
      in Inr (api_call cl Control POST ''/billing/checkout'' (Some (JObject body))
           (ensure_idempotency_key uuid options)))"

definition stablecoin_checkout ::
    "('u, 'c) client \<Rightarrow> string \<Rightarrow> json \<Rightarrow> call_options \<Rightarrow> error + ('u, 'c) call" where
  "stablecoin_checkout cl uuid amount options = billing_checkout cl uuid amount (Some ''stablecoin'') options"

section \<open>Credential-free endpoints\<close>

definition trust_release_call ::
    "'u libs \<Rightarrow> ('u, 'c) net_env \<Rightarrow> (string \<Rightarrow> string + 'r) \<Rightarrow> ('u, 'c) client \<Rightarrow> string option \<Rightarrow>
     ('u, 'c) net_event list \<times> (error + 'r)" where
  "trust_release_call L E decode cl url =
     credential_free_json L E decode cl (unwrap_or DEFAULT_TRUST_RELEASE_URL url)"

definition status_call ::
    "'u libs \<Rightarrow> ('u, 'c) net_env \<Rightarrow> (string \<Rightarrow> string + json) \<Rightarrow> ('u, 'c) client \<Rightarrow> string option \<Rightarrow>
     ('u, 'c) net_event list \<times> (error + json)" where
  "status_call L E decode cl url = credential_free_json L E decode cl (unwrap_or DEFAULT_STATUS_URL url)"

definition attestation_path ::
    "'u url_api \<Rightarrow> 'u query_api \<Rightarrow> ('u, 'c) client \<Rightarrow> string option \<Rightarrow> error + string" where
  "attestation_path U Q cl nonce_hex =
     (let api_root = (if ends_with ''/v1/'' (url_path U (cl_api_base_url cl)) then ''/../attestation''
            else ''/attestation'')
      in case opt_filter (\<lambda>n. n \<noteq> []) nonce_hex of
           Some nonce \<Rightarrow> query_path U Q api_root [(''nonce'', nonce)]
         | None \<Rightarrow> Inr api_root)"

definition attestation ::
    "'u libs \<Rightarrow> 'u query_api \<Rightarrow> ('u, 'c) net_env \<Rightarrow> ('u, 'c) client \<Rightarrow> string option \<Rightarrow>
     ('u, 'c) net_event list \<times> (error + string)" where
  "attestation L Q E cl nonce_hex =
     (case attestation_path (lib_url L) Q cl nonce_hex of
        Inl e \<Rightarrow> ([], Inl e)
      | Inr path \<Rightarrow>
          credential_free_plane_bytes L E
            (api_call cl Inference GET path None
              (default_call_options\<lparr>co_api_key := Some [], co_workspace_id := Some []\<rparr>)))"

definition provider_filter :: "string \<Rightarrow> json" where
  "provider_filter min_privacy =
     obj [(''provider'', obj [(''min_privacy'', JString min_privacy), (''data_collection'', JString ''deny'')])]"


section \<open>The surface of the client\<close>

text \<open>The calls the endpoint methods of one client can make.\<close>

inductive api_endpoint ::
    "'u url_api \<Rightarrow> 'u query_api \<Rightarrow> ('u, 'c) client \<Rightarrow> string \<Rightarrow> ('u, 'c) call \<Rightarrow> bool"
  for U :: "'u url_api" and Q :: "'u query_api" and cl :: "('u, 'c) client" and uuid :: string where
  chat: "chat_completions cl uuid r1 = Inr c \<Longrightarrow> api_endpoint U Q cl uuid c"
| responses: "responses cl uuid r2 = Inr c \<Longrightarrow> api_endpoint U Q cl uuid c"
| tokens: "responses_input_tokens cl uuid r2 = Inr c \<Longrightarrow> api_endpoint U Q cl uuid c"
| messages: "messages cl uuid r3 = Inr c \<Longrightarrow> api_endpoint U Q cl uuid c"
| embeddings: "embeddings cl uuid r4 = Inr c \<Longrightarrow> api_endpoint U Q cl uuid c"
| models: "models U Q cl filters = Inr c \<Longrightarrow> api_endpoint U Q cl uuid c"
| providers: "providers cl = Inr c \<Longrightarrow> api_endpoint U Q cl uuid c"
| regions: "regions cl = Inr c \<Longrightarrow> api_endpoint U Q cl uuid c"
| credits: "credits cl options = Inr c \<Longrightarrow> api_endpoint U Q cl uuid c"
| activity: "activity U Q cl query options = Inr c \<Longrightarrow> api_endpoint U Q cl uuid c"
| session: "auth_session cl = Inr c \<Longrightarrow> api_endpoint U Q cl uuid c"
| user: "user_info cl = Inr c \<Longrightarrow> api_endpoint U Q cl uuid c"
| logout: "logout cl uuid = Inr c \<Longrightarrow> api_endpoint U Q cl uuid c"
| destinations: "broadcast_destinations cl options = Inr c \<Longrightarrow> api_endpoint U Q cl uuid c"
| create: "create_broadcast_destination cl uuid body options = Inr c \<Longrightarrow> api_endpoint U Q cl uuid c"
| get: "get_broadcast_destination cl ident options = Inr c \<Longrightarrow> api_endpoint U Q cl uuid c"
| update: "update_broadcast_destination cl uuid ident body options = Inr c \<Longrightarrow> api_endpoint U Q cl uuid c"
| delete: "delete_broadcast_destination cl uuid ident options = Inr c \<Longrightarrow> api_endpoint U Q cl uuid c"
| test: "test_broadcast_destination cl uuid ident options = Inr c \<Longrightarrow> api_endpoint U Q cl uuid c"
| checkout: "billing_checkout cl uuid body payment options = Inr c \<Longrightarrow> api_endpoint U Q cl uuid c"
| stablecoin: "stablecoin_checkout cl uuid body options = Inr c \<Longrightarrow> api_endpoint U Q cl uuid c"

lemmas endpoint_defs = chat_completions_def responses_def responses_input_tokens_def messages_def
  embeddings_def models_def providers_def regions_def credits_def activity_def auth_session_def
  user_info_def logout_def broadcast_destinations_def create_broadcast_destination_def
  get_broadcast_destination_def update_broadcast_destination_def delete_broadcast_destination_def
  test_broadcast_destination_def billing_checkout_def stablecoin_checkout_def

lemma api_call_simps [simp]:
  "call_client (api_call cl pl me pa b os) = cl" "call_plane (api_call cl pl me pa b os) = pl"
  "call_method (api_call cl pl me pa b os) = me" "call_path (api_call cl pl me pa b os) = pa"
  "call_body (api_call cl pl me pa b os) = b" "call_options (api_call cl pl me pa b os) = os"
  "call_streaming (api_call cl pl me pa b os) = False"
  by (simp_all add: api_call_def)

lemma ensured_key: "\<exists>key. co_idempotency_key (ensure_idempotency_key uuid options) = Some key"
  by (cases "co_idempotency_key options") (simp_all add: ensure_idempotency_key_def)

lemma api_endpoint_shape:
  assumes "api_endpoint U Q cl uuid c"
  shows "call_client c = cl" and "call_streaming c = False"
    and "call_method c = GET \<and> call_body c = None \<or>
      call_method c \<in> {POST, PATCH, DELETE} \<and> (\<exists>key. co_idempotency_key (call_options c) = Some key)"
proof -
  from assms show "call_client c = cl"
    by (cases rule: api_endpoint.cases) (auto simp: endpoint_defs result_simps Let_def)
  from assms show "call_streaming c = False"
    by (cases rule: api_endpoint.cases) (auto simp: endpoint_defs result_simps Let_def)
  from assms show "call_method c = GET \<and> call_body c = None \<or>
      call_method c \<in> {POST, PATCH, DELETE} \<and> (\<exists>key. co_idempotency_key (call_options c) = Some key)"
    by (cases rule: api_endpoint.cases) (auto simp: endpoint_defs result_simps Let_def ensured_key)
qed

lemma client_request_execute:
  assumes "client_request L E decode c = (tr, res)" and "call_streaming c = False"
  obtains tr0 res0 where "execute L E c = (tr0, res0)" and "sends tr = sends tr0"
proof -
  have "c\<lparr>call_streaming := False\<rparr> = c" using assms(2) by (cases c) simp
  with assms(1) that show thesis
    by (cases "execute L E c") (auto simp: client_request_def request_bytes_def split: prod.splits sum.splits)
qed

lemma execute_once:
  assumes "execute L E c = (tr, res)" and "\<not> request_replay_safe (call_method c) (call_options c)"
  shows "length (sends tr) \<le> 1"
proof (cases "plane_urls (lib_url L) (call_client c) (call_plane c) (call_path c)")
  case (Inl e)
  with execute_unrouted [OF assms(1)] show ?thesis by simp
next
  case (Inr cands)
  with execute_loop [OF assms(1)] obtain rec where run: "loop_run (run_attempt L E c) E
      (cl_max_retries (call_client c)) (request_replay_safe (call_method c) (call_options c))
      cands 0 0 rec tr res" by blast
  from engine.loop_counts [OF run] assms(2) show ?thesis by simp
qed

lemma join_all_member:
  assumes "join_all U t bases = Inr us" and "u \<in> set us"
  shows "\<exists>base\<in>set bases. url_join U base t = Inr u"
  using assms(1) [unfolded join_all_Inr_iff] assms(2) by (induction rule: list_all2_induct) auto

lemma add_roots_Inr_iff:
  "add_roots R pems c = Inr c' \<longleftrightarrow>
     (\<exists>roots. list_all2 (\<lambda>pem root. hm_from_pem R pem = Inr root) pems roots \<and>
        c' = c\<lparr>hc_roots := hc_roots c @ roots\<rparr>)"
  by (induction pems arbitrary: c) (auto simp: result_simps list_all2_Cons1)

lemma execute_keyed:
  assumes "http_api_ok (lib_http L)" and "build_keeps E" and "execute L E c = (tr, res)"
    and "call_plane c = Inference \<Longrightarrow> cl_api_base_urls (call_client c) \<noteq> []"
    and key: "co_idempotency_key (call_options c) = Some key" "key \<noteq> []" and rq: "rq \<in> set (sends tr)"
  shows "rq_headers rq ''idempotency-key'' = [key]"
proof -
  obtain cands u where "plane_urls (lib_url L) (call_client c) (call_plane c) (call_path c) = Inr cands"
    "u \<in> set cands" and s: "sent_by L E c u rq" by (rule execute_sent [OF assms(3) rq assms(4)])
  from sent_by_headers [OF s assms(1,2)] obtain hs where
    hs: "request_headers (lib_http L) (lib_build L) (call_client c) (call_options c) None = Inr hs"
    and e: "\<And>n. n \<noteq> ''x-tr-client'' \<Longrightarrow> n \<noteq> ''content-type'' \<Longrightarrow> rq_headers rq n = hs n" by blast
  have "hs ''idempotency-key'' = [key]"
    by (rule request_headers_slots [OF assms(1) hs]) (simp add: key)
  with e show ?thesis by simp
qed

text \<open>The parts of a successful \<open>build\<close>.\<close>

lemma build_InrE:
  assumes "build L R env token b = Inr (cl, rep)"
  obtains base control owned where
    "parse_base_url (lib_url L) (cb_api_base_url b) ''inference'' = Inr base"
    "parse_base_url (lib_url L) (cb_control_base_url b) ''control'' = Inr control"
    "build_owned_http R (lib_build L) (cb_root_certificate_pems b) (cb_host_resolutions b) = Inr owned"
    "cl_api_base_url cl = base"
    "cl_api_base_urls cl = (if cb_regional_failover b then inference_base_urls (lib_url L) base else [base])"
    "cl_control_base_url cl = control" "cl_credential_free_http cl = owned"
    "cl_http cl = unwrap_or owned (cb_http_client b)" "cl_api_key cl = cb_api_key b"
    "rep = (if cl_telemetry cl then Some (client_reporter L token b control) else None)"
    "cl_telemetry_sink cl = cl_telemetry cl"
    "cl_telemetry cl = resolve_telemetry_enabled (lib_url L) (cb_telemetry b) (cb_api_base_url b)
       (cb_control_base_url b) env"
  using assms that by (auto simp: build_def result_simps Let_def)

lemma build_bases:
  assumes "build L R env token b = Inr (cl, rep)"
  shows "\<exists>rest. cl_api_base_urls cl = cl_api_base_url cl # rest \<and>
    (rest \<noteq> [] \<longrightarrow> cb_regional_failover b \<and>
       parse_base_url (lib_url L) DEFAULT_API_BASE_URL ''inference'' = Inr (cl_api_base_url cl)) \<and>
    (\<forall>u\<in>set rest. \<exists>alias\<in>set ALIAS_API_BASE_URLS. parse_base_url (lib_url L) alias ''inference'' = Inr u)"
  using assms
proof (rule build_InrE)
  fix base
  assume "cl_api_base_url cl = base"
    "cl_api_base_urls cl = (if cb_regional_failover b then inference_base_urls (lib_url L) base else [base])"
  then show ?thesis using inference_base_urls_aliases [of "lib_url L" base] by (auto split: if_splits)
qed


section \<open>Properties\<close>



text \<open>A builder, a transport maker and query strings for evaluating the model: transports are the
  configurations they are built from, and a query is kept as text after the path.\<close>

definition example_maker :: "(nat, nat http_config) http_maker" where
  "example_maker = \<lparr>hm_from_pem = Inr, hm_build = Inr\<rparr>"

definition example_builder :: "(nat, nat http_config) client_builder" where
  "example_builder = configure (SetApiKey ''sk-test'') (default_builder (\<lambda>_. None))"

definition example_net :: "(plain_url, nat http_config) net_env" where
  "example_net = \<lparr>ne_build = (\<lambda>k rq. Inr (rq_headers rq)),
     ne_send = (\<lambda>k rq. \<lparr>completes_after = 1,
        outcome = (if k = 0 then Inl refused else Inr ok_response)\<rparr>),
     ne_draw = (\<lambda>k x. x div 2), ne_begin = (\<lambda>k. 10 * k), ne_head = (\<lambda>k. 10 * k + 2),
     ne_body = (\<lambda>k. 10 * k + 3), ne_end = (\<lambda>k. 10 * k + 4), ne_wall = (\<lambda>k. 10 * k),
     ne_drained = 90, ne_done = 91\<rparr>"

definition built :: "(plain_url, nat http_config) client" where
  "built = (case build example_libs example_maker (\<lambda>_. None) ''token'' example_builder of
     Inr (cl, _) \<Rightarrow> cl | Inl _ \<Rightarrow> undefined)"

definition example_prompt :: chat_request where
  "example_prompt = with_field ''stream'' (JBool True) (chat_request_user ''tr/auto'' ''hello'')"

definition prompt_call :: "(plain_url, nat http_config) call" where
  "prompt_call = (case chat_completions built ''u1'' example_prompt of Inr c \<Rightarrow> c | Inl _ \<Rightarrow> undefined)"

abbreviation prompt_run :: "(plain_url, nat http_config) net_event list \<times> (error + string)" where
  "prompt_run \<equiv> client_request example_libs example_net Inr prompt_call"

lemma example_builds:
  "\<exists>rep. build example_libs example_maker (\<lambda>_. None) ''token'' example_builder = Inr (built, rep)"
proof -
  have "is_ok (build example_libs example_maker (\<lambda>_. None) ''token'' example_builder)" by code_simp
  then show ?thesis by (auto simp: built_def is_ok_def split: sum.splits prod.splits)
qed

lemma example_prompts: "chat_completions built ''u1'' example_prompt = Inr prompt_call"
proof -
  have "is_ok (chat_completions built ''u1'' example_prompt)" by code_simp
  then show ?thesis by (auto simp: prompt_call_def is_ok_def split: sum.splits)
qed

lemma example_sends: "length (sends (fst prompt_run)) = 2" "cl_api_base_urls built \<noteq> []"
  by code_simp+


lemma example_net_ok: "http_api_ok (lib_http example_libs)" "build_keeps example_net"
  using plain_http_ok by (simp_all add: example_libs_def build_keeps_def example_net_def)

lemma prompt_endpoint: "api_endpoint (lib_url example_libs) Q built ''u1'' prompt_call"
  by (rule api_endpoint.chat [OF example_prompts])




text \<open>What a built client is made of. Its inference candidates start with the configured base; its
  telemetry sink exists exactly when telemetry is on, and the reporter behind it has the client's own
  key and workspace and an endpoint below the configured control base. The transport of its
  credential-free traffic is always the SDK's own, which follows no redirect, sends the SDK's user
  agent and trusts the configured roots, whatever HTTP client was injected; without an injected
  client everything uses that transport.\<close>

theorem built_client:
  assumes "build L R env token b = Inr (cl, rep)"
  shows "\<exists>config rest. cl_api_base_urls cl = cl_api_base_url cl # rest \<and>
    hm_build R config = Inr (cl_credential_free_http cl) \<and> \<not> hc_follow_redirects config \<and>
    hc_user_agent config = sdk_user_agent (lib_build L) \<and>
    list_all2 (\<lambda>pem root. hm_from_pem R pem = Inr root) (cb_root_certificate_pems b) (hc_roots config) \<and>
    hc_resolve config = cb_host_resolutions b \<and>
    cl_http cl = unwrap_or (cl_credential_free_http cl) (cb_http_client b) \<and>
    cl_telemetry_sink cl = cl_telemetry cl \<and> (rep = None \<longleftrightarrow> \<not> cl_telemetry cl) \<and>
    (case rep of None \<Rightarrow> True | Some (I, st) \<Rightarrow>
       in_api_key I = cl_api_key cl \<and> in_workspace_id I = cb_workspace_id b \<and>
       (in_endpoint I = cl_control_base_url cl \<or>
        url_join (lib_url L) (cl_control_base_url cl) (trim_start_slashes DEFAULT_TELEMETRY_PATH) =
          Inr (in_endpoint I)))"
proof -
  from assms obtain owned control where
    o: "build_owned_http R (lib_build L) (cb_root_certificate_pems b) (cb_host_resolutions b) = Inr owned"
    and cl: "cl_control_base_url cl = control" "cl_credential_free_http cl = owned"
      "cl_http cl = unwrap_or owned (cb_http_client b)" "cl_api_key cl = cb_api_key b"
      "rep = (if cl_telemetry cl then Some (client_reporter L token b control) else None)"
      "cl_telemetry_sink cl = cl_telemetry cl"
    by (rule build_InrE)
  from o obtain config where "hm_build R config = Inr owned" "\<not> hc_follow_redirects config"
    "hc_user_agent config = sdk_user_agent (lib_build L)"
    "list_all2 (\<lambda>pem root. hm_from_pem R pem = Inr root) (cb_root_certificate_pems b) (hc_roots config)"
    "hc_resolve config = cb_host_resolutions b"
    by (auto simp: build_owned_http_def owned_http_builder_def result_simps add_roots_Inr_iff)
  moreover from build_bases [OF assms] obtain rest where "cl_api_base_urls cl = cl_api_base_url cl # rest" by blast
  ultimately show ?thesis using cl
    by (intro exI [of _ config] exI [of _ rest])
      (auto simp: client_reporter_def reporter_new_def config_new_def split: sum.splits)
qed

theorem built_client_witness:
  "\<not> hc_follow_redirects (cl_credential_free_http built) \<and> cl_http built = cl_credential_free_http built"
proof -
  obtain rep where b: "build example_libs example_maker (\<lambda>_. None) ''token'' example_builder = Inr (built, rep)"
    using example_builds by blast
  have "cb_http_client example_builder = None" by code_simp
  with built_client [OF b] show ?thesis by (auto simp: example_maker_def unwrap_or_def)
qed

text \<open>The members the fields of a chat request contribute to its body; \<open>None\<close> is a field left out.\<close>

definition prompt_fields :: "chat_request \<Rightarrow> (string \<times> json option) list" where
  "prompt_fields r =
     [(''model'', Some (JString (chat_model r))), (''messages'', Some (JArray (chat_messages r))),
      (''models'', if chat_models r = [] then None else Some (JArray (map JString (chat_models r)))),
      (''tools'', if chat_tools r = [] then None else Some (JArray (chat_tools r))),
      (''provider'', map_option provider_preferences_to_json (chat_provider r)),
      (''metadata'', chat_metadata r),
      (''depth'', map_option (\<lambda>d. JNumber (PosInt (unat d))) (chat_depth r))]"

lemma chat_request_members: "chat_request_to_json r = JObject (object_of (prompt_fields r) (chat_extra r))"
  by (simp add: chat_request_to_json_def struct_def always_def unless_none_def unless_empty_def enc_vec_def
      enc_uint_def [abs_def] option.map_ident prompt_fields_def cong: if_cong)

lemma prompt_fields_distinct: "distinct (map fst (prompt_fields r))"
  by (simp add: prompt_fields_def)

lemma chat_completions_sent:
  assumes "chat_completions cl uuid r = Inr c" and ne: "cl_api_base_urls cl \<noteq> []"
    and run: "client_request L E decode c = (tr, res)" and rq: "rq \<in> set (sends tr)"
  obtains m where "chat_request_to_json r = JObject m"
    and "rq_body rq = Some (JObject (fmupd ''stream'' (JBool False) m))"
proof -
  from assms(1) have c: "call_client c = cl" "call_streaming c = False"
    and body: "with_stream (chat_request_to_json r) False = Inr (the (call_body c))" "call_body c \<noteq> None"
    by (auto simp: chat_completions_def result_simps)
  obtain tr0 res0 where ex: "execute L E c = (tr0, res0)" and "sends tr = sends tr0"
    by (rule client_request_execute [OF run c(2)])
  with rq have rq0: "rq \<in> set (sends tr0)" by simp
  have "rq_body rq = call_body c"
    by (rule execute_sent [OF ex rq0]) (simp_all add: ne c(1) sent_by_def)
  with body that show thesis
    by (cases "chat_request_to_json r") (auto simp: with_stream_def)
qed

text \<open>C24: What a prompt carries is what the caller wrote. Every request of a chat completion has one
  body, an object whose members are exactly the set fields of the request and the caller's free-form
  fields, which win over a field of the same name; the flag that this is not a stream wins over both.
  Unset fields and the per-call options, with the caller's key, are never part of it.\<close>

theorem prompt_body_exact:
  assumes "chat_completions cl uuid r = Inr c" and "cl_api_base_urls cl \<noteq> []"
    and "client_request L E decode c = (tr, res)" and "rq \<in> set (sends tr)"
  shows "\<exists>m. rq_body rq = Some (JObject m) \<and>
    (\<forall>k. fmlookup m k =
       (if k = ''stream'' then Some (JBool False)
        else case fmlookup (chat_extra r) k of
          Some v \<Rightarrow> Some v
        | None \<Rightarrow> Option.bind (map_of (prompt_fields r) k) id))"
proof -
  from chat_completions_sent [OF assms] obtain m where
    m: "chat_request_to_json r = JObject m"
    and body: "rq_body rq = Some (JObject (fmupd ''stream'' (JBool False) m))" by blast
  have "m = object_of (prompt_fields r) (chat_extra r)" using m chat_request_members [of r] by simp
  with body fields_members [OF prompt_fields_distinct, of r "chat_extra r"] show ?thesis
    by (intro exI [of _ "fmupd ''stream'' (JBool False) m"]) (auto split: option.split)
qed


theorem prompt_body_exact_witness:
  "\<exists>m. rq_body (sends (fst prompt_run) ! 0) = Some (JObject m) \<and>
     fmlookup m ''stream'' = Some (JBool False) \<and> fmlookup m ''model'' = Some (JString ''tr/auto'') \<and>
     fmlookup m ''provider'' = None"
proof -
  have f: "fmlookup (chat_extra example_prompt) ''model'' = None"
    "fmlookup (chat_extra example_prompt) ''provider'' = None"
    "map_of (prompt_fields example_prompt) ''model'' = Some (Some (JString ''tr/auto''))"
    "map_of (prompt_fields example_prompt) ''provider'' = Some None"
    by code_simp+
  have "sends (fst prompt_run) ! 0 \<in> set (sends (fst prompt_run))" using example_sends(1) by (intro nth_mem) simp
  from prompt_body_exact [OF example_prompts example_sends(2) prod.collapse [symmetric] this]
  obtain m where "rq_body (sends (fst prompt_run) ! 0) = Some (JObject m)"
    and "\<forall>k. fmlookup m k = (if k = ''stream'' then Some (JBool False)
        else case fmlookup (chat_extra example_prompt) k of
          Some v \<Rightarrow> Some v
        | None \<Rightarrow> Option.bind (map_of (prompt_fields example_prompt) k) id)"
    by blast
  with f show ?thesis by (intro exI [of _ m]) simp
qed

end
