(* ===== verification/TR_OAuth.thy ===== *)
theory TR_OAuth
  imports TR_Client
begin

text \<open>
  OAuth credit delegation (\<open>oauth.rs\<close>): PKCE pairs, the authorize URL, the key exchange, and the
  one-shot loopback listener with its callback check. SHA-256 and base64url are the record
  \<open>oauth_libs\<close>; random bytes are arguments. The listener's socket is what it delivers: the outcome
  of \<open>accept\<close> and of the one \<open>read\<close>.
\<close>

section \<open>Key exchange data\<close>

record key_exchange_request =
  kx_code :: string
  kx_code_verifier :: "string option"
  kx_code_challenge_method :: "string option"
  kx_call_options :: call_options

definition key_exchange_request_to_json :: "key_exchange_request \<Rightarrow> json" where
  "key_exchange_request_to_json c = struct
     [always ''code'' (JString (kx_code c)), unless_none ''code_verifier'' JString (kx_code_verifier c),
      unless_none ''code_challenge_method'' JString (kx_code_challenge_method c)]
     fmempty"

record key_exchange_response =
  kr_key :: string
  kr_user_id :: "string option"
  kr_identity :: "json option"
  kr_data :: "json option"
  kr_extra :: jobject

definition object_record :: "json \<Rightarrow> json option" where
  "object_record v = (if is_object v then Some v else None)"

definition optional_record :: "string \<Rightarrow> jobject \<Rightarrow> json option option" where
  "optional_record k m = optional object_record k m"

definition optional_identity :: "string \<Rightarrow> jobject \<Rightarrow> json option option" where
  "optional_identity k m =
     Option.bind (optional_record k m) (\<lambda>v.
       if is_none_or (\<lambda>w. is_ok (validate_identity w)) v then Some v else None)"

definition key_exchange_response_to_json :: "key_exchange_response \<Rightarrow> json" where
  "key_exchange_response_to_json c = struct
     [always ''key'' (JString (kr_key c)), always ''user_id'' (enc_opt JString (kr_user_id c)),
      always ''identity'' (enc_opt (\<lambda>v. v) (kr_identity c)),
      always ''data'' (enc_opt (\<lambda>v. v) (kr_data c))]
     (kr_extra c)"

definition KEY_EXCHANGE_RESPONSE :: "string list" where
  "KEY_EXCHANGE_RESPONSE = [''key'', ''user_id'', ''identity'', ''data'']"

definition key_exchange_response_of_json :: "json \<Rightarrow> key_exchange_response option" where
  "key_exchange_response_of_json v =
     Option.bind (as_object v) (\<lambda>m.
     Option.bind (required as_str ''key'' m) (\<lambda>key.
     Option.bind (optional as_str ''user_id'' m) (\<lambda>user_id.
     Option.bind (optional_identity ''identity'' m) (\<lambda>identity.
     Option.bind (optional_record ''data'' m) (\<lambda>opaque.
     Some \<lparr>kr_key = key, kr_user_id = user_id, kr_identity = identity, kr_data = opaque,
           kr_extra = unclaimed KEY_EXCHANGE_RESPONSE m\<rparr>)))))"

definition key_exchange_response_ok :: "key_exchange_response \<Rightarrow> bool" where
  "key_exchange_response_ok c \<longleftrightarrow>
     free_of KEY_EXCHANGE_RESPONSE (kr_extra c) \<and>
     pred_option (\<lambda>v. is_ok (validate_identity v)) (kr_identity c) \<and> pred_option is_object (kr_data c)"

interpretation record_codec: plain_codec "\<lambda>v. v" object_record is_object
  by unfold_locales (auto simp: object_record_def is_object_def)

lemma identity_is_object: "is_ok (validate_identity v) \<Longrightarrow> is_object v"
  by (auto simp: validate_identity_def is_ok_def and_then_def ensure_def split: if_splits)

lemma identity_objects: "pred_option (\<lambda>v. is_ok (validate_identity v)) x \<Longrightarrow> pred_option is_object x"
  by (cases x) (simp_all add: identity_is_object)

lemma optional_record_ok: "optional_record k m = Some x \<Longrightarrow> pred_option is_object x"
  by (cases x; cases "fmlookup m k")
    (auto simp: optional_record_def optional_def defaulted_def dec_opt_def object_record_def split: if_splits)

interpretation key_exchange_response_codec: struct_codec key_exchange_response_to_json
  key_exchange_response_of_json key_exchange_response_ok KEY_EXCHANGE_RESPONSE
proof
  show "key_exchange_response_of_json (key_exchange_response_to_json c) = Some c"
    if "key_exchange_response_ok c" for c
    using that identity_objects [of "kr_identity c"]
    by (simp add: key_exchange_response_to_json_def key_exchange_response_of_json_def optional_record_def
        optional_identity_def key_exchange_response_ok_def KEY_EXCHANGE_RESPONSE_def serde_simps is_none_or_def
        option.pred_set split: option.split)
  show "key_exchange_response_ok c" if "key_exchange_response_of_json v = Some c" for v c
    using that
    by (auto simp: key_exchange_response_of_json_def key_exchange_response_ok_def optional_identity_def
        bind_eq_Some_conv is_none_or_def dest: optional_record_ok split: if_splits option.splits)
  show "jget k (key_exchange_response_to_json c) = jget k v"
    if "key_exchange_response_of_json v = Some c" "k \<notin> set KEY_EXCHANGE_RESPONSE" for v c k
    using that
    by (auto simp: key_exchange_response_of_json_def key_exchange_response_to_json_def bind_eq_Some_conv
        struct_kept KEY_EXCHANGE_RESPONSE_def)
qed (simp add: key_exchange_response_to_json_def)

section \<open>Authorization\<close>

record oauth_libs =
  ol_sha256 :: "string \<Rightarrow> string"
  ol_b64url :: "string \<Rightarrow> string"

record pkce_pair =
  pk_code_verifier :: string
  pk_code_challenge :: string
  pk_code_challenge_method :: string

record authorize_options =
  az_callback_url :: string
  az_code_challenge :: string
  az_code_challenge_method :: "string option"
  az_key_label :: "string option"
  az_limit :: "string option"
  az_usage_limit_type :: "string option"
  az_expires_at :: "string option"
  az_spawn_agent :: "string option"
  az_spawn_cloud :: "string option"
  az_state :: "string option"

record 'u oauth_authorization =
  oa_url :: 'u
  oa_pkce :: pkce_pair
  oa_state :: string

text \<open>\<open>random_url_token(n)\<close> on the \<open>n\<close> random bytes it draws.\<close>

definition random_url_token :: "oauth_libs \<Rightarrow> string \<Rightarrow> string" where
  "random_url_token S bytes = ol_b64url S bytes"

definition create_pkce_pair :: "oauth_libs \<Rightarrow> string \<Rightarrow> string option \<Rightarrow> pkce_pair" where
  "create_pkce_pair S bytes verifier =
     (let code_verifier = (case verifier of None \<Rightarrow> random_url_token S bytes | Some v \<Rightarrow> v)
      in \<lparr>pk_code_verifier = code_verifier,
          pk_code_challenge = ol_b64url S (ol_sha256 S code_verifier),
          pk_code_challenge_method = ''S256''\<rparr>)"

definition append_option :: "'u query_api \<Rightarrow> string \<Rightarrow> string option \<Rightarrow> 'u \<Rightarrow> 'u" where
  "append_option Q name v url =
     (case opt_filter (\<lambda>w. w \<noteq> []) v of None \<Rightarrow> url | Some w \<Rightarrow> qa_append Q name w url)"

definition authorize_query ::
    "'u query_api \<Rightarrow> authorize_options \<Rightarrow> string option \<Rightarrow> 'u \<Rightarrow> 'u \<Rightarrow> 'u" where
  "authorize_query Q options method callback authorize =
     (let challenge = az_code_challenge options;
          url = qa_append Q ''callback_url'' (qa_as_str Q callback) authorize;
          url = (if challenge \<noteq> [] then qa_append Q ''code_challenge'' challenge url else url);
          url = append_option Q ''code_challenge_method'' method url;
          url = append_option Q ''key_label'' (az_key_label options) url;
          url = append_option Q ''limit'' (az_limit options) url;
          url = append_option Q ''usage_limit_type'' (az_usage_limit_type options) url;
          url = append_option Q ''expires_at'' (az_expires_at options) url;
          url = append_option Q ''spawn_agent'' (az_spawn_agent options) url
      in append_option Q ''spawn_cloud'' (az_spawn_cloud options) url)"

definition oauth_authorize_url ::
    "'u url_api \<Rightarrow> 'u query_api \<Rightarrow> ('u, 'c) client \<Rightarrow> authorize_options \<Rightarrow> error + 'u" where
  "oauth_authorize_url U Q cl options =
     and_then (ensure (az_callback_url options \<noteq> []) (ErrOAuth ''callback_url is required'')) (\<lambda>_.
     and_then (map_err (\<lambda>e. ErrOAuth (''invalid callback URL: '' @ e)) (url_parse U (az_callback_url options)))
       (\<lambda>parsed.
     let callback = (case az_state options of None \<Rightarrow> parsed | Some state \<Rightarrow> qa_append Q ''state'' state parsed);
         method = opt_or (az_code_challenge_method options)
           (if az_code_challenge options \<noteq> [] then Some ''S256'' else None)
     in
     and_then (ensure (\<not> (method \<noteq> None \<and> az_code_challenge options = []))
         (ErrOAuth ''code_challenge is required when a challenge method is set'')) (\<lambda>_.
     and_then (map_err ErrOAuth (url_join U (cl_control_base_url cl) ''auth'')) (\<lambda>authorize.
       Inr (authorize_query Q options method callback authorize)))))"

definition create_oauth_authorization ::
    "'u url_api \<Rightarrow> 'u query_api \<Rightarrow> oauth_libs \<Rightarrow> ('u, 'c) client \<Rightarrow> string \<Rightarrow> string \<Rightarrow> string \<Rightarrow>
     string option \<Rightarrow> error + 'u oauth_authorization" where
  "create_oauth_authorization U Q S cl bytes32 bytes24 callback_url key_label =
     (let pkce = create_pkce_pair S bytes32 None;
          state = random_url_token S bytes24
      in and_then
           (oauth_authorize_url U Q cl
             \<lparr>az_callback_url = callback_url, az_code_challenge = pk_code_challenge pkce,
              az_code_challenge_method = Some (pk_code_challenge_method pkce), az_key_label = key_label,
              az_limit = None, az_usage_limit_type = None, az_expires_at = None, az_spawn_agent = None,
              az_spawn_cloud = None, az_state = Some state\<rparr>)
           (\<lambda>url. Inr \<lparr>oa_url = url, oa_pkce = pkce, oa_state = state\<rparr>))"

definition exchange_oauth_key ::
    "'u libs \<Rightarrow> ('u, 'c) net_env \<Rightarrow> (string \<Rightarrow> string + key_exchange_response) \<Rightarrow> ('u, 'c) client \<Rightarrow>
     key_exchange_request \<Rightarrow> ('u, 'c) net_event list \<times> (error + key_exchange_response)" where
  "exchange_oauth_key L E decode cl request =
     (if kx_code request = [] then ([], Inl (ErrOAuth ''code is required''))
      else credential_free_control_request L E decode
        (api_call cl Control POST ''/auth/keys'' (Some (key_exchange_request_to_json request))
          ((kx_call_options request)\<lparr>co_api_key := Some [], co_workspace_id := Some []\<rparr>)))"


section \<open>The loopback listener\<close>

definition DEFAULT_OAUTH_LOOPBACK_PORT :: nat where "DEFAULT_OAUTH_LOOPBACK_PORT = 3000"

record oauth_callback =
  cb_code :: string
  cb_state :: "string option"

record loopback_options =
  lo_port :: nat
  lo_path :: string
  lo_expected_state :: "string option"

definition default_loopback_options :: loopback_options where
  "default_loopback_options =
     \<lparr>lo_port = DEFAULT_OAUTH_LOOPBACK_PORT, lo_path = ''/callback'', lo_expected_state = None\<rparr>"

record 'u loopback =
  lb_callback_url :: 'u
  lb_path :: string
  lb_expected_state :: "string option"

text \<open>\<open>listen\<close> is the outcome of binding the port on the IPv4 loopback address and of asking the socket
  for its address: the port that was bound.\<close>

definition loopback_bind ::
    "'u url_api \<Rightarrow> (nat \<Rightarrow> string + (string + nat)) \<Rightarrow> loopback_options \<Rightarrow> error + 'u loopback" where
  "loopback_bind U listen options =
     (let path = (if starts_with ''/'' (lo_path options) then lo_path options else CHR ''/'' # lo_path options)
      in and_then (map_err (\<lambda>e. ErrOAuth (''cannot bind OAuth loopback: '' @ e)) (listen (lo_port options)))
           (\<lambda>address.
         and_then (map_err ErrOAuth address) (\<lambda>port.
         and_then (map_err ErrOAuth (url_parse U (''http://localhost:'' @ show_nat port @ path))) (\<lambda>url.
           Inr \<lparr>lb_callback_url = url, lb_path = path, lb_expected_state = lo_expected_state options\<rparr>))))"

text \<open>\<open>query_pairs().collect::<BTreeMap>()\<close>: the last value of a repeated key wins.\<close>

definition params :: "'u query_api \<Rightarrow> 'u \<Rightarrow> string \<Rightarrow> string option" where
  "params Q url k = map_of (rev (qa_pairs Q url)) k"

definition validate_callback ::
    "'u url_api \<Rightarrow> 'u query_api \<Rightarrow> 'u \<Rightarrow> string \<Rightarrow> string option \<Rightarrow> error + oauth_callback" where
  "validate_callback U Q url path expected_state =
     and_then (ensure (url_path U url = path) (ErrOAuth ''unexpected callback path'')) (\<lambda>_.
     and_then (case params Q url ''error'' of
         None \<Rightarrow> Inr () | Some e \<Rightarrow> Inl (ErrOAuth (''authorization denied: '' @ e))) (\<lambda>_.
     and_then (ok_or (opt_filter (\<lambda>v. v \<noteq> []) (params Q url ''code'')) (ErrOAuth ''callback is missing code''))
       (\<lambda>code.
     and_then (case expected_state of
         None \<Rightarrow> Inr ()
       | Some expected \<Rightarrow> ensure (params Q url ''state'' = Some expected)
           (ErrOAuth ''state mismatch (possible CSRF)'')) (\<lambda>_.
       Inr \<lparr>cb_code = code, cb_state = params Q url ''state''\<rparr>))))"

text \<open>\<open>str::lines().next()\<close>: the text before the first line feed, without a carriage return before it.\<close>

definition first_line :: "string \<Rightarrow> string option" where
  "first_line s =
     (if s = [] then None
      else if CHR 0x0A \<in> set s
      then Some (let line = takeWhile (\<lambda>c. c \<noteq> CHR 0x0A) s
                 in if ends_with [CHR 0x0D] line then butlast line else line)
      else Some s)"

text \<open>\<open>str::split_whitespace\<close>: the maximal pieces without Unicode white space.\<close>

function split_whitespace_from :: "string \<Rightarrow> string \<Rightarrow> string list" where
  "split_whitespace_from word s =
     (case s of
        [] \<Rightarrow> (if word = [] then [] else [word])
      | c # cs \<Rightarrow>
          (case find (\<lambda>w. w \<noteq> [] \<and> starts_with w s) white_space of
             None \<Rightarrow> split_whitespace_from (word @ [c]) cs
           | Some w \<Rightarrow> (if word = [] then [] else [word]) @ split_whitespace_from [] (drop (length w) s)))"
  by pat_completeness auto
termination
proof (relation "measure (\<lambda>(word, s). length s)")
  fix s :: string and c cs w
  assume "s = c # cs" and "find (\<lambda>w. w \<noteq> [] \<and> starts_with w s) white_space = Some w"
  then show "(([], drop (length w) s), word, s) \<in> measure (\<lambda>(word, s). length s)" for word
    by (auto simp: find_Some_iff)
qed auto

declare split_whitespace_from.simps [simp del]

definition split_whitespace :: "string \<Rightarrow> string list" where
  "split_whitespace s = split_whitespace_from [] s"

definition request_target :: "string \<Rightarrow> error + string" where
  "request_target bytes =
     and_then (map_err ErrOAuth (from_utf8 bytes)) (\<lambda>text.
     and_then (ok_or (first_line text) (ErrOAuth ''empty OAuth callback'')) (\<lambda>line.
       ok_or (if 1 < length (split_whitespace line) then Some (split_whitespace line ! 1) else None)
         (ErrOAuth ''malformed OAuth callback'')))"

definition callback_page :: "bool \<Rightarrow> string" where
  "callback_page ok =
     (let status = (if ok then ''200 OK'' else ''400 Bad Request'');
          heading = (if ok then ''Signed in with TrustedRouter'' else ''TrustedRouter sign in failed'');
          body = ''<!doctype html><title>'' @ heading @ ''</title><h1>'' @ heading @
            ''</h1><p>You can close this tab.</p>'';
          crlf = [CHR 0x0D, CHR 0x0A]
      in ''HTTP/1.1 '' @ status @ crlf @ ''Content-Type: text/html; charset=utf-8'' @ crlf @
         ''Content-Length: '' @ show_nat (length body) @ crlf @ ''Connection: close'' @ crlf @ crlf @ body)"

text \<open>The page written to the browser, if any, and the result. \<open>accepted\<close> is the outcome of
  \<open>accept\<close>, \<open>received\<close> the one of the single read into the buffer of 16 KiB.\<close>

definition loopback_wait ::
    "'u url_api \<Rightarrow> 'u query_api \<Rightarrow> 'u loopback \<Rightarrow> string + unit \<Rightarrow> string + string \<Rightarrow>
     string option \<times> (error + oauth_callback)" where
  "loopback_wait U Q lb accepted received =
     (case and_then (map_err ErrOAuth accepted) (\<lambda>_.
           and_then (map_err ErrOAuth received) (\<lambda>bytes.
           and_then (request_target (take (16 * 1024) bytes)) (\<lambda>target.
             map_err ErrOAuth (url_parse U (''http://localhost'' @ target))))) of
        Inl e \<Rightarrow> (None, Inl e)
      | Inr url \<Rightarrow>
          (let result = validate_callback U Q url (lb_path lb) (lb_expected_state lb)
           in (Some (callback_page (is_ok result)), result)))"


section \<open>Lemmas\<close>

text \<open>What the \<open>url\<close> crate documents of queries: \<open>append_pair\<close> adds one pair at the end and leaves the
  path alone, and the text of a URL parses to that URL.\<close>

definition query_api_ok :: "'u url_api \<Rightarrow> 'u query_api \<Rightarrow> bool" where
  "query_api_ok U Q \<longleftrightarrow>
     (\<forall>k v u. qa_pairs Q (qa_append Q k v u) = qa_pairs Q u @ [(k, v)] \<and>
        url_path U (qa_append Q k v u) = url_path U u) \<and>
     (\<forall>u. url_parse U (qa_as_str Q u) = Inr u)"

lemma query_api_okD:
  assumes "query_api_ok U Q"
  shows "qa_pairs Q (qa_append Q k v u) = qa_pairs Q u @ [(k, v)]"
    and "url_path U (qa_append Q k v u) = url_path U u" and "url_parse U (qa_as_str Q u) = Inr u"
  using assms by (simp_all add: query_api_ok_def)

definition set_pair :: "string \<Rightarrow> string option \<Rightarrow> (string \<times> string) list" where
  "set_pair k v = (case opt_filter (\<lambda>w. w \<noteq> []) v of None \<Rightarrow> [] | Some w \<Rightarrow> [(k, w)])"

lemma append_option_pairs:
  "query_api_ok U Q \<Longrightarrow> qa_pairs Q (append_option Q k v u) = qa_pairs Q u @ set_pair k v"
  by (simp add: append_option_def set_pair_def query_api_okD split: option.split)

lemma params_append:
  "query_api_ok U Q \<Longrightarrow> params Q (qa_append Q k v u) = (params Q u)(k \<mapsto> v)"
  by (rule ext) (simp add: params_def query_api_okD)


lemma validate_callback_Inr_iff:
  "validate_callback U Q url path expected = Inr c \<longleftrightarrow>
     url_path U url = path \<and> params Q url ''error'' = None \<and> params Q url ''code'' = Some (cb_code c) \<and>
     cb_code c \<noteq> [] \<and> params Q url ''state'' = cb_state c \<and> (\<forall>e. expected = Some e \<longrightarrow> cb_state c = Some e)"
  by (cases c; cases expected)
    (auto simp: validate_callback_def result_simps opt_filter_def split: option.splits if_splits)

text \<open>The query of an authorize URL, exactly.\<close>

lemma authorize_query_pairs:
  assumes Q: "query_api_ok U Q"
  shows "qa_pairs Q (authorize_query Q options method callback authorize) =
     qa_pairs Q authorize @ [(''callback_url'', qa_as_str Q callback)] @
     set_pair ''code_challenge'' (Some (az_code_challenge options)) @
     set_pair ''code_challenge_method'' method @ set_pair ''key_label'' (az_key_label options) @
     set_pair ''limit'' (az_limit options) @ set_pair ''usage_limit_type'' (az_usage_limit_type options) @
     set_pair ''expires_at'' (az_expires_at options) @ set_pair ''spawn_agent'' (az_spawn_agent options) @
     set_pair ''spawn_cloud'' (az_spawn_cloud options)"
proof -
  have ch: "qa_pairs Q (if v \<noteq> [] then qa_append Q k v u else u) = qa_pairs Q u @ set_pair k (Some v)" for k v u
    by (simp add: set_pair_def opt_filter_def query_api_okD [OF Q])
  show ?thesis
    unfolding authorize_query_def Let_def append_option_pairs [OF Q] ch query_api_okD(1) [OF Q] append_assoc ..
qed

lemma oauth_authorize_url_Inr_iff:
  "oauth_authorize_url U Q cl options = Inr url \<longleftrightarrow>
     (\<exists>parsed authorize method. az_callback_url options \<noteq> [] \<and>
        url_parse U (az_callback_url options) = Inr parsed \<and>
        url_join U (cl_control_base_url cl) ''auth'' = Inr authorize \<and>
        method = opt_or (az_code_challenge_method options)
          (if az_code_challenge options \<noteq> [] then Some ''S256'' else None) \<and>
        (method \<noteq> None \<longrightarrow> az_code_challenge options \<noteq> []) \<and>
        url = authorize_query Q options method
          (case az_state options of None \<Rightarrow> parsed | Some state \<Rightarrow> qa_append Q ''state'' state parsed) authorize)"
  unfolding oauth_authorize_url_def Let_def by (auto simp: result_simps)

section \<open>Properties\<close>



text \<open>A concrete URL type with queries for evaluating the model: the text before the query and its
  pairs; the text of such a URL marks every character, so that it can be read back.\<close>

type_synonym marked_url = "string \<times> (string \<times> string) list"

definition mark :: "string \<Rightarrow> string" where
  "mark s = concat (map (\<lambda>c. [CHR ''x'', c]) s) @ ''.''"

fun unmark :: "string \<Rightarrow> string \<times> string" where
  "unmark (m # c # r) = (if m = CHR ''x'' then (let (s, rest) = unmark r in (c # s, rest)) else ([], c # r))"
| "unmark [m] = ([], [])"
| "unmark [] = ([], [])"

fun unmark_pairs :: "nat \<Rightarrow> string \<Rightarrow> (string \<times> string) list" where
  "unmark_pairs 0 s = []"
| "unmark_pairs (Suc n) s =
     (if s = [] then []
      else (let (k, rest) = unmark s; (v, rest) = unmark rest in (k, v) # unmark_pairs n rest))"

definition marked_text :: "marked_url \<Rightarrow> string" where
  "marked_text u = mark (fst u) @ concat (map (\<lambda>(k, v). mark k @ mark v) (snd u))"

definition marked_parse :: "string \<Rightarrow> string + marked_url" where
  "marked_parse s =
     Inr (if starts_with ''http'' s then (s, [])
          else (let (p, rest) = unmark s in (p, unmark_pairs (length rest) rest)))"

definition marked_urls :: "marked_url url_api" where
  "marked_urls = \<lparr>url_parse = marked_parse, url_join = (\<lambda>u p. Inr (fst u @ p, [])),
     url_scheme = (\<lambda>_. ''https''), url_host_str = (\<lambda>_. Some ''localhost''), url_path = fst,
     url_set_path = (\<lambda>p u. (p, snd u)), url_same_origin = (=)\<rparr>"

definition marked_query :: "marked_url query_api" where
  "marked_query = \<lparr>qa_append = (\<lambda>k v u. (fst u, snd u @ [(k, v)])), qa_query = (\<lambda>_. None),
     qa_pairs = snd, qa_as_str = marked_text\<rparr>"

lemma unmark_mark [simp]: "unmark (mark s @ rest) = (s, rest)"
  by (induction s) (simp_all add: mark_def, cases rest, simp_all)

lemma mark_nonempty [simp]: "mark s \<noteq> []"
  by (simp add: mark_def)

lemma mark_not_http: "\<not> starts_with ''http'' (mark s @ rest)"
  by (cases s) (simp_all add: mark_def starts_with_def)

lemma unmark_pairs_text:
  "length ps \<le> n \<Longrightarrow> unmark_pairs n (concat (map (\<lambda>(k, v). mark k @ mark v) ps)) = ps"
proof (induction ps arbitrary: n)
  case Nil
  show ?case by (cases n) simp_all
next
  case (Cons p ps)
  obtain k v where "p = (k, v)" by (cases p)
  with Cons show ?case by (cases n) simp_all
qed

lemma marked_ok: "query_api_ok marked_urls marked_query"
proof -
  have "length ps \<le> length (concat (map (\<lambda>(k, v). mark k @ mark v) ps))" for ps
    by (induction ps) (auto simp: mark_def)
  then have "marked_parse (marked_text u) = Inr u" for u
    by (cases u) (simp add: marked_parse_def marked_text_def mark_not_http unmark_pairs_text)
  then show ?thesis by (simp add: query_api_ok_def marked_urls_def marked_query_def)
qed


definition marked_client :: "(marked_url, unit) client" where
  "marked_client = \<lparr>cl_api_key = Some ''sk'', cl_api_base_url = (''https://api/v1/'', []),
     cl_api_base_urls = [(''https://api/v1/'', [])], cl_control_base_url = (''https://control/v1/'', []),
     cl_workspace_id = None, cl_timeout = None, cl_max_retries = 2, cl_telemetry = False,
     cl_telemetry_sink = False, cl_headers = [(''Cookie'', ''session=1'')], cl_http = (),
     cl_credential_free_http = ()\<rparr>"

definition example_hash :: oauth_libs where
  "example_hash = \<lparr>ol_sha256 = rev, ol_b64url = (\<lambda>s. CHR ''b'' # s)\<rparr>"

definition example_authorization :: "error + marked_url oauth_authorization" where
  "example_authorization = create_oauth_authorization marked_urls marked_query example_hash marked_client
     ''secret'' ''state'' ''http://localhost:3000/callback'' (Some ''laptop'')"


lemma callback_pages: "callback_page True \<noteq> callback_page False"
  by code_simp

lemma loopback_wait_cases:
  obtains e where "loopback_wait U Q lb accepted received = (None, Inl e)"
    and "\<not> (\<exists>bytes target url. accepted = Inr () \<and> received = Inr bytes \<and>
      request_target (take 16384 bytes) = Inr target \<and> url_parse U (''http://localhost'' @ target) = Inr url)"
  | bytes target url where "accepted = Inr ()" and "received = Inr bytes"
    and "request_target (take 16384 bytes) = Inr target" and "url_parse U (''http://localhost'' @ target) = Inr url"
    and "loopback_wait U Q lb accepted received =
      (Some (callback_page (is_ok (validate_callback U Q url (lb_path lb) (lb_expected_state lb)))),
       validate_callback U Q url (lb_path lb) (lb_expected_state lb))"
proof (cases "and_then (map_err ErrOAuth accepted) (\<lambda>_.
    and_then (map_err ErrOAuth received) (\<lambda>bytes.
    and_then (request_target (take (16 * 1024) bytes)) (\<lambda>target.
      map_err ErrOAuth (url_parse U (''http://localhost'' @ target)))))")
  case (Inl e)
  then show ?thesis by (intro that(1)) (auto simp: loopback_wait_def result_simps)
next
  case (Inr url)
  then obtain bytes target where ok: "accepted = Inr ()" "received = Inr bytes"
    "request_target (take 16384 bytes) = Inr target" "url_parse U (''http://localhost'' @ target) = Inr url"
    by (auto simp: result_simps)
  from Inr show ?thesis by (intro that(2) [OF ok]) (simp add: loopback_wait_def Let_def)
qed

text \<open>C29: The listener answers the right browser. Whatever arrives on the loopback socket, a callback is
  returned exactly when the first line of one request within 16 KiB names a target on the awaited path
  that reports no error, carries a non-empty code, and, when a state is expected, exactly that state;
  then the browser is told of success, and it is told of success in no other case.\<close>

theorem loopback_accepts:
  "((\<exists>page. loopback_wait U Q lb accepted received = (page, Inr c)) \<longleftrightarrow>
    (\<exists>bytes target url. accepted = Inr () \<and> received = Inr bytes \<and>
      request_target (take 16384 bytes) = Inr target \<and> url_parse U (''http://localhost'' @ target) = Inr url \<and>
      url_path U url = lb_path lb \<and> params Q url ''error'' = None \<and>
      params Q url ''code'' = Some (cb_code c) \<and> cb_code c \<noteq> [] \<and> params Q url ''state'' = cb_state c \<and>
      (case lb_expected_state lb of None \<Rightarrow> True | Some e \<Rightarrow> cb_state c = Some e))) \<and>
   (fst (loopback_wait U Q lb accepted received) = Some (callback_page True) \<longleftrightarrow>
    is_ok (snd (loopback_wait U Q lb accepted received)))"
proof (cases rule: loopback_wait_cases [of U Q lb accepted received])
  case (1 e)
  then show ?thesis by (auto simp: is_ok_def)
next
  case (2 bytes target url)
  have "validate_callback U Q url (lb_path lb) (lb_expected_state lb) = Inr c \<longleftrightarrow>
      url_path U url = lb_path lb \<and> params Q url ''error'' = None \<and>
      params Q url ''code'' = Some (cb_code c) \<and> cb_code c \<noteq> [] \<and> params Q url ''state'' = cb_state c \<and>
      (case lb_expected_state lb of None \<Rightarrow> True | Some e \<Rightarrow> cb_state c = Some e)"
    by (auto simp: validate_callback_Inr_iff split: option.split)
  moreover have "Some (callback_page b) = Some (callback_page True) \<longleftrightarrow> b" for b
    using callback_pages by (cases b) auto
  ultimately show ?thesis using 2 by simp
qed



definition marked_libs :: "marked_url libs" where
  "marked_libs = \<lparr>lib_url = marked_urls, lib_http = plain_http, lib_build = example_build,
     lib_json = (\<lambda>_. None)\<rparr>"

definition marked_net :: "(marked_url, unit) net_env" where
  "marked_net = \<lparr>ne_build = (\<lambda>k rq. Inr (rq_headers rq)),
     ne_send = (\<lambda>k rq. \<lparr>completes_after = 1, outcome = Inl refused\<rparr>),
     ne_draw = (\<lambda>k x. x div 2), ne_begin = (\<lambda>k. 10 * k), ne_head = (\<lambda>k. 10 * k + 2),
     ne_body = (\<lambda>k. 10 * k + 3), ne_end = (\<lambda>k. 10 * k + 4), ne_wall = (\<lambda>k. 10 * k),
     ne_drained = 90, ne_done = 91\<rparr>"

definition example_exchange :: key_exchange_request where
  "example_exchange = \<lparr>kx_code = ''c-1'', kx_code_verifier = Some ''bsecret'', kx_code_challenge_method = None,
     kx_call_options = default_call_options\<lparr>co_api_key := Some ''sk-other''\<rparr>\<rparr>"

abbreviation exchange_run :: "(marked_url, unit) net_event list \<times> (error + key_exchange_response)" where
  "exchange_run \<equiv> exchange_oauth_key marked_libs marked_net (\<lambda>_. Inl ''eof'') marked_client example_exchange"


end
