(* ===== verification/TR_Streams.thy ===== *)
theory TR_Streams
  imports TR_Client
begin

text \<open>
  Opening streams (\<open>sse.rs\<close>) and consuming them from a thread that blocks (\<open>blocking.rs\<close>). The body
  of a response is a sequence of chunks with the time each took to arrive; the idle deadline of
  \<open>parse_sse\<close> acts on it, the \<open>eventsource\<close> decoder is the field \<open>se_decode\<close>, and the URL a response
  came from is \<open>se_url\<close>. A consumer's callback is a function on a state of its own; the loop that
  calls it is \<open>pump\<close>, whose result is \<open>None\<close> if it never ends. The runtime a blocking client owns only
  drives the same futures and is not modelled beyond whether it could be created.
\<close>

section \<open>The wire\<close>

type_synonym body_feed = "(duration \<times> (reqwest_error + string)) list \<times> duration"

record 'u stream_env =
  se_feed :: "http_response \<Rightarrow> body_feed"
  se_decode :: "(wire_error + string) list \<Rightarrow> wire_item list"
  se_url :: "http_response \<Rightarrow> 'u"

definition idle :: "duration option \<Rightarrow> duration \<Rightarrow> bool" where
  "idle timeout gap \<longleftrightarrow> is_some_and (\<lambda>d. d < gap) (opt_filter (\<lambda>d. d \<noteq> 0) timeout)"

fun idle_wire ::
    "duration option \<Rightarrow> (duration \<times> (reqwest_error + string)) list \<Rightarrow> duration \<Rightarrow> (wire_error + string) list" where
  "idle_wire timeout [] closing = (if idle timeout closing then [Inl WireIdleTimeout] else [])"
| "idle_wire timeout ((gap, arrived) # chunks) closing =
     (if idle timeout gap then [Inl WireIdleTimeout]
      else (case arrived of
              Inr chunk \<Rightarrow> Inr chunk # idle_wire timeout chunks closing
            | Inl e \<Rightarrow> [Inl (WireTransport e)]))"

definition wire_items :: "'u stream_env \<Rightarrow> duration option \<Rightarrow> http_response \<Rightarrow> wire_item list" where
  "wire_items V timeout response =
     (let (chunks, closing) = se_feed V response in se_decode V (idle_wire timeout chunks closing))"

text \<open>The frames without a validator on top.\<close>

definition parse_sse :: "nat \<Rightarrow> generator \<Rightarrow> (error + sse_event) option \<times> generator \<times> emission option" where
  "parse_sse now g =
     (case gen_phase g of
        Reading [] \<Rightarrow>
          (let (h, e) = complete now (gen_handle g) in (None, \<lparr>gen_phase = Ended, gen_handle = h\<rparr>, e))
      | Reading ((t, Inl w) # items) \<Rightarrow>
          (let (h, e) = wire_failed t w (gen_handle g)
           in (Some (Inl (wire_public_error w)), \<lparr>gen_phase = Completing, gen_handle = h\<rparr>, e))
      | Reading ((t, Inr event) # items) \<Rightarrow>
          (Some (Inr event), \<lparr>gen_phase = Reading items, gen_handle = map_option (on_event t) (gen_handle g)\<rparr>, None)
      | Completing \<Rightarrow>
          (let (h, e) = complete now (gen_handle g) in (None, \<lparr>gen_phase = Ended, gen_handle = h\<rparr>, e))
      | _ \<Rightarrow> (None, g, None))"

section \<open>Opening a stream\<close>

definition open_sse ::
    "'u libs \<Rightarrow> ('u, 'c) net_env \<Rightarrow> 'u stream_env \<Rightarrow> ('u, 'c) call \<Rightarrow>
     ('u, 'c) net_event list \<times> (error + 'u \<times> generator)" where
  "open_sse L E V c =
     (case open_stream L E c of
        (trace, Inl e) \<Rightarrow> (trace, Inl e)
      | (trace, Inr (response, recorder)) \<Rightarrow>
          (trace, Inr (se_url V response,
             open_generator (wire_items V (call_deadline (call_client c) (call_options c)) response) recorder)))"

definition chat_completions_stream ::
    "'u libs \<Rightarrow> ('u, 'c) net_env \<Rightarrow> 'u stream_env \<Rightarrow> ('u, 'c) client \<Rightarrow> string \<Rightarrow> chat_request \<Rightarrow>
     ('u, 'c) net_event list \<times> (error + generator)" where
  "chat_completions_stream L E V cl uuid request =
     (case chat_stream_body (chat_request_to_json request) of
        Inl e \<Rightarrow> ([], Inl e)
      | Inr body \<Rightarrow>
          (let (trace, opened) = open_sse L E V
             (api_call cl Inference POST ''/chat/completions'' (Some body)
               (ensure_idempotency_key uuid (chat_call_options request)))
           in (trace, and_then opened (\<lambda>(_, g). Inr g))))"

text \<open>The typed and the text view of a chat stream, on one item; \<open>reason\<close> is the text of a decoding
  error.\<close>

definition chunk_item :: "(json \<Rightarrow> string) \<Rightarrow> error + json \<Rightarrow> error + chat_completion_chunk" where
  "chunk_item reason item =
     and_then item (\<lambda>v. ok_or (chat_completion_chunk_of_json v) (ErrSerialization (reason v)))"

definition text_item :: "error + json \<Rightarrow> (error + string) option" where
  "text_item item =
     (case item of
        Inr v \<Rightarrow> (case text_delta v of Inr text \<Rightarrow> map_option Inr text | Inl e \<Rightarrow> Some (Inl e))
      | Inl e \<Rightarrow> Some (Inl e))"

definition responses_stream ::
    "'u libs \<Rightarrow> ('u, 'c) net_env \<Rightarrow> 'u stream_env \<Rightarrow> ('u, 'c) client \<Rightarrow> string \<Rightarrow> responses_request \<Rightarrow>
     ('u, 'c) net_event list \<times> (error + generator)" where
  "responses_stream L E V cl uuid request =
     (case with_stream (responses_request_to_json request) True of
        Inl e \<Rightarrow> ([], Inl e)
      | Inr body \<Rightarrow>
          (let (trace, opened) = open_sse L E V
             (api_call cl Inference POST ''/responses'' (Some body)
               (ensure_idempotency_key uuid (rreq_call_options request)))
           in (trace, and_then opened (\<lambda>(_, g). Inr g))))"

definition open_raw_sse ::
    "'u libs \<Rightarrow> ('u, 'c) net_env \<Rightarrow> 'u stream_env \<Rightarrow> ('u, 'c) client \<Rightarrow> string \<Rightarrow> string \<Rightarrow> json \<Rightarrow>
     call_options \<Rightarrow> ('u, 'c) net_event list \<times> (error + 'u \<times> generator)" where
  "open_raw_sse L E V cl uuid path body options =
     open_sse L E V (api_call cl Inference POST path (Some body) (ensure_idempotency_key uuid options))"

text \<open>A raw stream with the validator it was given; none for a route that is not a prompt route.\<close>

definition validated_raw_sse ::
    "'u libs \<Rightarrow> ('u, 'c) net_env \<Rightarrow> 'u stream_env \<Rightarrow> ('u, 'c) client \<Rightarrow> string \<Rightarrow> string \<Rightarrow> json \<Rightarrow>
     call_options \<Rightarrow> ('u, 'c) net_event list \<times> (error + prompt_kind option \<times> generator)" where
  "validated_raw_sse L E V cl uuid path body options =
     (let (trace, opened) = open_raw_sse L E V cl uuid path body options
      in (trace, and_then opened (\<lambda>(response_url, g).
           Inr (validated_kind (lib_url L) cl path response_url, g))))"

definition raw_poll ::
    "(string \<Rightarrow> string + json) \<Rightarrow> prompt_kind option \<Rightarrow> nat \<Rightarrow> generator \<Rightarrow>
     (error + sse_event) option \<times> generator \<times> emission option" where
  "raw_poll J route =
     (case route of
        Some ChatStream \<Rightarrow> validate_raw_chat_stream J
      | Some ResponsesStream \<Rightarrow> validate_raw_responses_stream J
      | None \<Rightarrow> parse_sse)"

section \<open>Blocking consumption\<close>

text \<open>The loop of every blocking stream method: ask for the next item, stop at the end, at the first
  error or when the callback says so, and drop the stream. The result is the callback's state, what the
  method returns, the number of items asked for before, and what the recorder reported.\<close>

partial_function (option) pump ::
    "(nat \<Rightarrow> generator \<Rightarrow> (error + 'o) option \<times> generator \<times> emission option) \<Rightarrow>
     ('s \<Rightarrow> 'o \<Rightarrow> 's \<times> bool) \<Rightarrow> (nat \<Rightarrow> nat) \<Rightarrow> nat \<Rightarrow> emission list \<Rightarrow> 's \<Rightarrow> generator \<Rightarrow>
     ('s \<times> (error + unit) \<times> nat \<times> emission list) option" where
  "pump step callback clock n es s g =
     (case step (clock n) g of
        (None, g', e) \<Rightarrow>
          Some (s, Inr (), n, es @ the_list e @ the_list (snd (drop_generator (clock n) g')))
      | (Some (Inl x), g', e) \<Rightarrow>
          Some (s, Inl x, n, es @ the_list e @ the_list (snd (drop_generator (clock n) g')))
      | (Some (Inr v), g', e) \<Rightarrow>
          (if snd (callback s v)
           then pump step callback clock (n + 1) (es @ the_list e) (fst (callback s v)) g'
           else Some (fst (callback s v), Inr (), n,
             es @ the_list e @ the_list (snd (drop_generator (clock n) g')))))"

declare pump.simps [code]

text \<open>A blocking stream method: the loop on a stream that opened, the error otherwise.\<close>

definition blocking_stream ::
    "(nat \<Rightarrow> generator \<Rightarrow> (error + 'o) option \<times> generator \<times> emission option) \<Rightarrow>
     ('s \<Rightarrow> 'o \<Rightarrow> 's \<times> bool) \<Rightarrow> (nat \<Rightarrow> nat) \<Rightarrow> 's \<Rightarrow> error + generator \<Rightarrow>
     ('s \<times> (error + unit) \<times> nat \<times> emission list) option" where
  "blocking_stream step callback clock s opened =
     (case opened of Inl e \<Rightarrow> Some (s, Inl e, 0, []) | Inr g \<Rightarrow> pump step callback clock 0 [] s g)"

definition blocking_chat_completions_stream ::
    "'u libs \<Rightarrow> ('u, 'c) net_env \<Rightarrow> 'u stream_env \<Rightarrow> (string \<Rightarrow> string + json) \<Rightarrow> (nat \<Rightarrow> nat) \<Rightarrow>
     ('s \<Rightarrow> json \<Rightarrow> 's \<times> bool) \<Rightarrow> 's \<Rightarrow> ('u, 'c) client \<Rightarrow> string \<Rightarrow> chat_request \<Rightarrow>
     ('s \<times> (error + unit) \<times> nat \<times> emission list) option" where
  "blocking_chat_completions_stream L E V J clock callback s cl uuid request =
     blocking_stream (validate_chat_stream J) callback clock s (snd (chat_completions_stream L E V cl uuid request))"

definition blocking_responses_stream ::
    "'u libs \<Rightarrow> ('u, 'c) net_env \<Rightarrow> 'u stream_env \<Rightarrow> (string \<Rightarrow> string + json) \<Rightarrow> (nat \<Rightarrow> nat) \<Rightarrow>
     ('s \<Rightarrow> response_event \<Rightarrow> 's \<times> bool) \<Rightarrow> 's \<Rightarrow> ('u, 'c) client \<Rightarrow> string \<Rightarrow> responses_request \<Rightarrow>
     ('s \<times> (error + unit) \<times> nat \<times> emission list) option" where
  "blocking_responses_stream L E V J clock callback s cl uuid request =
     blocking_stream (validate_responses_stream J) callback clock s (snd (responses_stream L E V cl uuid request))"

definition blocking_raw_sse ::
    "'u libs \<Rightarrow> ('u, 'c) net_env \<Rightarrow> 'u stream_env \<Rightarrow> (nat \<Rightarrow> nat) \<Rightarrow> ('s \<Rightarrow> sse_event \<Rightarrow> 's \<times> bool) \<Rightarrow> 's \<Rightarrow>
     ('u, 'c) client \<Rightarrow> string \<Rightarrow> string \<Rightarrow> json \<Rightarrow> call_options \<Rightarrow>
     ('s \<times> (error + unit) \<times> nat \<times> emission list) option" where
  "blocking_raw_sse L E V clock callback s cl uuid path body options =
     blocking_stream parse_sse callback clock s
       (and_then (snd (open_raw_sse L E V cl uuid path body options)) (\<lambda>(_, g). Inr g))"

definition blocking_validated_raw_sse ::
    "'u libs \<Rightarrow> ('u, 'c) net_env \<Rightarrow> 'u stream_env \<Rightarrow> (string \<Rightarrow> string + json) \<Rightarrow> (nat \<Rightarrow> nat) \<Rightarrow>
     ('s \<Rightarrow> sse_event \<Rightarrow> 's \<times> bool) \<Rightarrow> 's \<Rightarrow> ('u, 'c) client \<Rightarrow> string \<Rightarrow> string \<Rightarrow> json \<Rightarrow> call_options \<Rightarrow>
     ('s \<times> (error + unit) \<times> nat \<times> emission list) option" where
  "blocking_validated_raw_sse L E V J clock callback s cl uuid path body options =
     (case snd (validated_raw_sse L E V cl uuid path body options) of
        Inl e \<Rightarrow> Some (s, Inl e, 0, [])
      | Inr (route, g) \<Rightarrow> blocking_stream (raw_poll J route) callback clock s (Inr g))"

text \<open>Building a blocking client; \<open>runtime\<close> is whether the operating system gave it a runtime.\<close>

definition from_builder ::
    "string + unit \<Rightarrow> 'u libs \<Rightarrow> ('a, 'c) http_maker \<Rightarrow> (string \<Rightarrow> string option) \<Rightarrow> string \<Rightarrow> ('a, 'c) client_builder \<Rightarrow>
     error + ('u, 'c) client \<times> ('u reporter_inner \<times> rep_state) option" where
  "from_builder runtime L R env token builder =
     and_then (map_err ErrInvalidConfiguration runtime) (\<lambda>_. build L R env token builder)"

text \<open>What a callback sees of a list of items, as a reference for the loop.\<close>

fun feed :: "('s \<Rightarrow> 'o \<Rightarrow> 's \<times> bool) \<Rightarrow> 's \<Rightarrow> (error + 'o) list \<Rightarrow> 's \<times> (error + unit)" where
  "feed callback s [] = (s, Inr ())"
| "feed callback s (Inl x # items) = (s, Inl x)"
| "feed callback s (Inr v # items) =
     (if snd (callback s v) then feed callback (fst (callback s v)) items
      else (fst (callback s v), Inr ()))"


section \<open>The loop ends\<close>

text \<open>What the loop needs of a stream: \<open>items\<close> are the items it still has, one poll yields the first of
  them, and its recorder reports at most once.\<close>

locale stream_source =
  fixes step :: "nat \<Rightarrow> generator \<Rightarrow> (error + 'o) option \<times> generator \<times> emission option"
    and items :: "generator \<Rightarrow> (error + 'o) list"
  assumes exhausted: "step now g = (None, g', e) \<Longrightarrow> items g = []"
    and yields: "step now g = (Some x, g', e) \<Longrightarrow> items g = x # items g'"
    and settled: "step now g = (out, g', e) \<Longrightarrow> handle_finished (gen_handle g) \<Longrightarrow>
      handle_finished (gen_handle g') \<and> e = None"
    and emits: "step now g = (out, g', Some r) \<Longrightarrow> handle_finished (gen_handle g')"
begin

lemma dropped:
  assumes "step now g = (out, g', e)"
  shows "length (the_list e @ the_list (snd (drop_generator later g'))) \<le> 1"
    and "handle_finished (gen_handle g) \<Longrightarrow> the_list e @ the_list (snd (drop_generator later g')) = []"
proof -
  have d: "handle_finished (gen_handle g') \<Longrightarrow> snd (drop_generator later g') = None"
    using release_finished [of later "gen_handle g'"] by (auto simp: drop_generator_def case_prod_beta Let_def)
  show "length (the_list e @ the_list (snd (drop_generator later g'))) \<le> 1"
  proof (cases e)
    case (Some r)
    with assms emits d show ?thesis by (auto simp: the_list_def)
  qed (auto simp: the_list_def split: option.split)
  show "the_list e @ the_list (snd (drop_generator later g')) = []" if "handle_finished (gen_handle g)"
    using settled [OF assms that] d by (simp add: the_list_def)
qed

lemma pump_returns:
  "\<exists>polls reports. pump step callback clock n es s g =
     Some (fst (feed callback s (items g)), snd (feed callback s (items g)), n + polls, es @ reports) \<and>
     polls \<le> length (items g) \<and> length reports \<le> 1 \<and> (handle_finished (gen_handle g) \<longrightarrow> reports = [])"
proof (induction "items g" arbitrary: n es s g)
  case Nil
  obtain out g' e where st: "step (clock n) g = (out, g', e)" by (cases "step (clock n) g")
  with Nil yields have "out = None" by (cases out) auto
  with st Nil dropped [OF st] show ?case by (subst pump.simps) (auto intro!: exI [of _ 0])
next
  case (Cons x xs)
  obtain out g' e where st: "step (clock n) g = (out, g', e)" by (cases "step (clock n) g")
  with Cons.hyps(2) exhausted have out: "out = Some x" and xs: "xs = items g'"
    using yields by (cases out; fastforce)+
  consider err where "x = Inl err" | v where "x = Inr v" "\<not> snd (callback s v)"
    | v where "x = Inr v" "snd (callback s v)" by (cases x) auto
  then show ?case
  proof cases
    case 3
    let ?s = "fst (callback s v)"
    from Cons.hyps(1) [OF xs, of "n + 1" "es @ the_list e" ?s] obtain polls reports where
      run: "pump step callback clock (n + 1) (es @ the_list e) ?s g' =
        Some (fst (feed callback ?s (items g')), snd (feed callback ?s (items g')), n + 1 + polls,
          (es @ the_list e) @ reports)"
      and b: "polls \<le> length (items g')" "length reports \<le> 1" "handle_finished (gen_handle g') \<longrightarrow> reports = []"
      by blast
    have "length (the_list e @ reports) \<le> 1" using b emits [of "clock n" g out g'] st
      by (cases e) (auto simp: the_list_def)
    moreover have "handle_finished (gen_handle g) \<longrightarrow> the_list e @ reports = []"
      using settled [OF st] b by (auto simp: the_list_def)
    ultimately show ?thesis
      using run st out b 3 Cons.hyps(2) [symmetric] xs
      by (subst pump.simps) (auto intro!: exI [of _ "Suc polls"] exI [of _ "the_list e @ reports"])
  qed (use st out dropped [OF st] Cons.hyps(2) [symmetric] in
      \<open>subst pump.simps, auto intro!: exI [of _ 0]\<close>)+
qed

end


text \<open>What is left of a validated stream, and of one without a validator.\<close>

definition validated_items :: "(sse_event \<Rightarrow> 'o verdict) \<Rightarrow> error \<Rightarrow> generator \<Rightarrow> (error + 'o) list" where
  "validated_items step u g = (case gen_phase g of Reading items \<Rightarrow> drain step u items | _ \<Rightarrow> [])"

fun raw_items :: "wire_item list \<Rightarrow> (error + sse_event) list" where
  "raw_items [] = []"
| "raw_items ((t, Inl w) # items) = [Inl (wire_public_error w)]"
| "raw_items ((t, Inr event) # items) = Inr event # raw_items items"

definition unvalidated_items :: "generator \<Rightarrow> (error + sse_event) list" where
  "unvalidated_items g = (case gen_phase g of Reading items \<Rightarrow> raw_items items | _ \<Rightarrow> [])"

interpretation validated_source: stream_source "poll step u" "validated_items step u"
  for step :: "sse_event \<Rightarrow> 'o verdict" and u :: error
proof
  fix now g g' e and x :: "error + 'o"
  show "validated_items step u g = []" if "poll step u now g = (None, g', e)"
    using that by (auto simp: validated_items_def poll_def Let_def case_prod_beta
        split: phase.splits list.splits sum.splits verdict.splits)
  show "validated_items step u g = x # validated_items step u g'" if "poll step u now g = (Some x, g', e)"
    using that by (auto simp: validated_items_def poll_def Let_def case_prod_beta
        split: phase.splits list.splits sum.splits verdict.splits)
next
  fix now g g' e out
  assume p: "poll step u now g = (out, g', e)"
  then have g: "gen_step step u (PollAt now) g = (g', e)" by (simp add: gen_step_def)
  show "handle_finished (gen_handle g') \<and> e = None" if "handle_finished (gen_handle g)"
    using gen_step_finished [OF that, of step u "PollAt now"] g by simp
next
  fix now g g' r out
  assume p: "poll step u now g = (out, g', Some r)"
  then have g: "gen_step step u (PollAt now) g = (g', Some r)" by (simp add: gen_step_def)
  show "handle_finished (gen_handle g')" using gen_step_emits [of step u "PollAt now" g r] g by simp
qed

interpretation raw_source: stream_source parse_sse unvalidated_items
proof
  fix now g g' e and x :: "error + sse_event"
  show "unvalidated_items g = []" if "parse_sse now g = (None, g', e)"
    using that by (auto simp: unvalidated_items_def parse_sse_def Let_def case_prod_beta
        split: phase.splits list.splits sum.splits)
  show "unvalidated_items g = x # unvalidated_items g'" if "parse_sse now g = (Some x, g', e)"
    using that by (auto simp: unvalidated_items_def parse_sse_def Let_def case_prod_beta
        split: phase.splits list.splits sum.splits)
next
  fix now g g' e out
  assume "parse_sse now g = (out, g', e)" "handle_finished (gen_handle g)"
  then show "handle_finished (gen_handle g') \<and> e = None" using handle_facts
    by (auto simp: parse_sse_def Let_def case_prod_beta split: phase.splits list.splits sum.splits)
next
  fix now g g' r out
  assume "parse_sse now g = (out, g', Some r)"
  then show "handle_finished (gen_handle g')" using handle_facts
    by (auto simp: parse_sse_def Let_def case_prod_beta split: phase.splits list.splits sum.splits)
qed

lemma length_drain: "length (drain step u items) \<le> Suc (length items)"
  by (induction step u items rule: drain.induct) (auto split: verdict.splits)

lemma length_raw_items: "length (raw_items items) \<le> length items"
  by (induction items rule: raw_items.induct) auto

text \<open>The items of a raw stream under the validator it was given.\<close>

definition routed_items :: "(string \<Rightarrow> string + json) \<Rightarrow> prompt_kind option \<Rightarrow> wire_item list \<Rightarrow> (error + sse_event) list" where
  "routed_items J route items =
     (case route of
        Some ChatStream \<Rightarrow> drain (raw_chat_step J) ended_before_done items
      | Some ResponsesStream \<Rightarrow> drain (raw_responses_step J) ended_before_terminal items
      | None \<Rightarrow> raw_items items)"

lemma open_items [simp]:
  "validated_items step u (open_generator items h) = drain step u items"
  "unvalidated_items (open_generator items h) = raw_items items"
  by (simp_all add: validated_items_def unvalidated_items_def open_generator_def)

lemma pump_validated:
  "\<exists>polls reports. pump (poll step u) callback clock 0 [] s (open_generator items h) =
     Some (fst (feed callback s (drain step u items)), snd (feed callback s (drain step u items)), polls, reports) \<and>
     polls \<le> Suc (length items) \<and> length reports \<le> 1"
  using validated_source.pump_returns [of step u callback clock 0 "[]" s "open_generator items h"]
    length_drain [of step u items] by (fastforce intro: le_trans)

lemma pump_raw:
  "\<exists>polls reports. pump (raw_poll J route) callback clock 0 [] s (open_generator items h) =
     Some (fst (feed callback s (routed_items J route items)), snd (feed callback s (routed_items J route items)),
       polls, reports) \<and> polls \<le> Suc (length items) \<and> length reports \<le> 1"
proof (cases route)
  case None
  with raw_source.pump_returns [of callback clock 0 "[]" s "open_generator items h"] length_raw_items [of items]
  show ?thesis by (fastforce simp: raw_poll_def routed_items_def intro: le_trans)
next
  case (Some k)
  then show ?thesis
    by (cases k) (simp_all add: raw_poll_def routed_items_def validate_raw_chat_stream_def
        validate_raw_responses_stream_def
        pump_validated [simplified])
qed

text \<open>A body that keeps arriving within the deadline is never cut off: every chunk, also one that ends
  no frame, restarts the deadline.\<close>

lemma idle_wire_steady:
  assumes "list_all (\<lambda>(gap, _). \<not> idle timeout gap) chunks" and "\<not> idle timeout closing"
  shows "Inl WireIdleTimeout \<notin> set (idle_wire timeout chunks closing)"
  using assms by (induction timeout chunks closing rule: idle_wire.induct) (auto split: sum.splits)

text \<open>The outcome of a blocking method, from what its stream was opened with.\<close>

definition outcome_of ::
    "(nat \<Rightarrow> generator \<Rightarrow> (error + 'o) option \<times> generator \<times> emission option) \<Rightarrow> ('s \<Rightarrow> 'o \<Rightarrow> 's \<times> bool) \<Rightarrow>
     's \<Rightarrow> (wire_item list \<Rightarrow> (error + 'o) list) \<Rightarrow> error + generator \<Rightarrow>
     ('s \<times> (error + unit) \<times> nat \<times> emission list) option \<Rightarrow> bool" where
  "outcome_of step callback s reference opened returned \<longleftrightarrow>
     (case opened of
        Inl e \<Rightarrow> returned = Some (s, Inl e, 0, [])
      | Inr g \<Rightarrow> (\<exists>items h n es. g = open_generator items h \<and>
          returned = Some (fst (feed callback s (reference items)), snd (feed callback s (reference items)), n, es) \<and>
          n \<le> Suc (length items) \<and> length es \<le> 1))"

lemma opened_generator:
  "open_sse L E V c = (tr, Inr (url, g)) \<Longrightarrow> \<exists>items h. g = open_generator items h"
  "snd (open_sse L E V c) = Inr (url, g) \<Longrightarrow> \<exists>items h. g = open_generator items h"
  by (auto simp: open_sse_def split: prod.splits sum.splits)

lemma opened_streams:
  "snd (chat_completions_stream L E V cl uuid r) = Inr g \<Longrightarrow> \<exists>items h. g = open_generator items h"
  "snd (responses_stream L E V cl uuid r') = Inr g \<Longrightarrow> \<exists>items h. g = open_generator items h"
  "snd (validated_raw_sse L E V cl uuid path body options) = Inr (route, g) \<Longrightarrow>
     \<exists>items h. g = open_generator items h"
  "and_then (snd (open_raw_sse L E V cl uuid path body options)) (\<lambda>(_, g). Inr g) = Inr g \<Longrightarrow>
     \<exists>items h. g = open_generator items h"
  by (auto simp: chat_completions_stream_def responses_stream_def validated_raw_sse_def open_raw_sse_def Let_def
      and_then_def split: sum.splits prod.splits dest!: opened_generator)

section \<open>Properties\<close>


end
