(* ===== verification/TR_Ffi.thy ===== *)
theory TR_Ffi
  imports TR_Streams
begin

text \<open>
  The C interface (\<open>trusted-router-ffi\<close>). A pointer argument is null or a text: the bytes up to the
  terminating NUL, which the caller owns. The texts the library hands out live in a heap of their own, in
  which \<open>owned_c_string\<close> allocates and \<open>tr_result_free\<close> releases. Reading an HTTP method, parsing and
  printing JSON are the record \<open>ffi_libs\<close>. A C callback is a function on the caller's data.
\<close>

section \<open>Strings and results\<close>

record c_heap =
  ch_next :: nat
  ch_cells :: "nat \<rightharpoonup> string"

definition heap_ok :: "c_heap \<Rightarrow> bool" where
  "heap_ok h \<longleftrightarrow> (\<forall>p. ch_next h \<le> p \<longrightarrow> ch_cells h p = None)"

record tr_result =
  tr_code :: nat
  tr_http_status :: nat
  tr_data :: "nat option"
  tr_error :: "nat option"

definition NUL :: char where "NUL = CHR 0x00"

definition c_string_new :: "string \<Rightarrow> string option" where
  "c_string_new s = (if NUL \<in> set s then None else Some s)"

definition escape_nul :: "string \<Rightarrow> string" where
  "escape_nul s = concat (map (\<lambda>c. if c = NUL then CHR 0x5C # ''u0000'' else [c]) s)"

definition owned_c_string :: "string \<Rightarrow> c_heap \<Rightarrow> nat option \<times> c_heap" where
  "owned_c_string v h =
     (case c_string_new (escape_nul v) of
        None \<Rightarrow> (None, h)
      | Some s \<Rightarrow> (Some (ch_next h), h\<lparr>ch_next := ch_next h + 1, ch_cells := (ch_cells h)(ch_next h \<mapsto> s)\<rparr>))"

definition tr_result_free :: "tr_result \<Rightarrow> c_heap \<Rightarrow> c_heap" where
  "tr_result_free r h =
     (let h = (case tr_data r of None \<Rightarrow> h | Some p \<Rightarrow> h\<lparr>ch_cells := (ch_cells h)(p := None)\<rparr>)
      in case tr_error r of None \<Rightarrow> h | Some p \<Rightarrow> h\<lparr>ch_cells := (ch_cells h)(p := None)\<rparr>)"

definition local_error :: "string \<Rightarrow> error" where
  "local_error message = ErrInvalidConfiguration message"

definition error_code :: "error \<Rightarrow> nat" where
  "error_code e =
     (case kind e of
        KBadRequest \<Rightarrow> 1 | KAuthentication \<Rightarrow> 2 | KPermissionDenied \<Rightarrow> 3 | KNotFound \<Rightarrow> 4 | KRateLimit \<Rightarrow> 5
      | KEndpointNotSupported \<Rightarrow> 6 | KInternal \<Rightarrow> 7 | KTransport \<Rightarrow> 8 | KTimeout \<Rightarrow> 9 | KSerialization \<Rightarrow> 10
      | KInvalidConfiguration \<Rightarrow> 11 | KAttestation \<Rightarrow> 12 | KOAuth \<Rightarrow> 13)"

record ffi_libs =
  ff_method :: "string \<Rightarrow> string + http_method"
  ff_from_str :: "string \<Rightarrow> string + json"
  ff_to_string :: "json \<Rightarrow> string + string"

definition success_json :: "ffi_libs \<Rightarrow> json \<Rightarrow> c_heap \<Rightarrow> (error + tr_result) \<times> c_heap" where
  "success_json F v h =
     (case ff_to_string F v of
        Inl e \<Rightarrow> (Inl (local_error (''cannot encode response: '' @ e)), h)
      | Inr text \<Rightarrow>
          (let (p, h') = owned_c_string text h
           in (Inr \<lparr>tr_code = 0, tr_http_status = 200, tr_data = p, tr_error = None\<rparr>, h')))"

definition failure_result :: "error \<Rightarrow> c_heap \<Rightarrow> tr_result \<times> c_heap" where
  "failure_result e h =
     (let (p, h') = owned_c_string (error_text e) h
      in (\<lparr>tr_code = error_code e, tr_http_status = (case status_code e of None \<Rightarrow> 0 | Some s \<Rightarrow> s),
           tr_data = None, tr_error = p\<rparr>, h'))"

text \<open>\<open>catch_unwind\<close>: an operation returns, or it panics.\<close>

datatype 'a unwind = Returned 'a | Panicked

definition guarded :: "(c_heap \<Rightarrow> ((error + tr_result) \<times> c_heap) unwind) \<Rightarrow> c_heap \<Rightarrow> tr_result \<times> c_heap" where
  "guarded operation h =
     (case operation h of
        Returned (Inr result, h') \<Rightarrow> (result, h')
      | Returned (Inl e, h') \<Rightarrow> failure_result e h'
      | Panicked \<Rightarrow> failure_result (local_error ''panic contained at C ABI boundary'') h)"

section \<open>Arguments\<close>

definition c_optional_string :: "string option \<Rightarrow> error + string option" where
  "c_optional_string pointer =
     (case pointer of
        None \<Rightarrow> Inr None
      | Some bytes \<Rightarrow>
          and_then (map_err (\<lambda>e. local_error (''C string is not UTF-8: '' @ e)) (from_utf8 bytes)) (\<lambda>s. Inr (Some s)))"

definition c_required_string :: "string option \<Rightarrow> string \<Rightarrow> error + string" where
  "c_required_string pointer name =
     and_then (c_optional_string pointer) (\<lambda>v. ok_or v (local_error (name @ '' is null or not UTF-8'')))"

definition c_call_options :: "string option \<Rightarrow> string option \<Rightarrow> error + call_options" where
  "c_call_options workspace_id idempotency_key =
     and_then (c_optional_string workspace_id) (\<lambda>workspace.
     and_then (c_optional_string idempotency_key) (\<lambda>key.
       Inr (default_call_options\<lparr>co_workspace_id := workspace, co_idempotency_key := key\<rparr>)))"

definition client_ref :: "('u, 'c) client option \<Rightarrow> error + ('u, 'c) client" where
  "client_ref client = ok_or client (local_error ''client is null'')"

definition generated_idempotency_key :: "string \<Rightarrow> string" where
  "generated_idempotency_key uuid = ''tr-req-'' @ uuid"

definition auto_key :: "string \<Rightarrow> bool \<Rightarrow> call_options \<Rightarrow> call_options" where
  "auto_key uuid auto_idempotency options =
     (if auto_idempotency \<and> co_idempotency_key options = None
      then options\<lparr>co_idempotency_key := Some (generated_idempotency_key uuid)\<rparr> else options)"

definition tr_client_new ::
    "string + unit \<Rightarrow> 'u libs \<Rightarrow> ('a, 'c) http_maker \<Rightarrow> (string \<Rightarrow> string option) \<Rightarrow> string \<Rightarrow> string option \<Rightarrow>
     string option \<Rightarrow> string option \<Rightarrow> (('u, 'c) client \<times> ('u reporter_inner \<times> rep_state) option) option" where
  "tr_client_new runtime L R env token api_key api_base_url control_base_url =
     result_ok
       (and_then (c_optional_string api_key) (\<lambda>key.
        let builder = configure (SetApiKey (unwrap_or [] key)) (default_builder env) in
        and_then (c_optional_string api_base_url) (\<lambda>base.
        let builder = (case base of None \<Rightarrow> builder | Some v \<Rightarrow> configure (SetApiBaseUrl v) builder) in
        and_then (c_optional_string control_base_url) (\<lambda>control.
        let builder = (case control of None \<Rightarrow> builder | Some v \<Rightarrow> configure (SetControlBaseUrl v) builder) in
          from_builder runtime L R env token builder))))"

section \<open>Requests\<close>

definition c_request_call ::
    "ffi_libs \<Rightarrow> string \<Rightarrow> ('u, 'c) client option \<Rightarrow> int \<Rightarrow> string option \<Rightarrow> string option \<Rightarrow> string option \<Rightarrow>
     string option \<Rightarrow> string option \<Rightarrow> bool \<Rightarrow> error + ('u, 'c) call" where
  "c_request_call F uuid client plane method path body_json workspace_id idempotency_key auto_idempotency =
     and_then (client_ref client) (\<lambda>cl.
     and_then (c_required_string method ''method'') (\<lambda>name.
     and_then (map_err (\<lambda>e. local_error (''invalid method: '' @ e)) (ff_method F name)) (\<lambda>verb.
     and_then (c_required_string path ''path'') (\<lambda>target.
     and_then (c_optional_string body_json) (\<lambda>text.
     and_then (case text of
         None \<Rightarrow> Inr None
       | Some t \<Rightarrow> and_then (map_err (\<lambda>e. local_error (''invalid body JSON: '' @ e)) (ff_from_str F t))
           (\<lambda>v. Inr (Some v))) (\<lambda>body.
     and_then (c_call_options workspace_id idempotency_key) (\<lambda>options.
     and_then (if plane = 0 then Inr Inference else if plane = 1 then Inr Control
         else Inl (local_error ''plane must be 0 or 1'')) (\<lambda>which.
       Inr (api_call cl which verb target body (auto_key uuid auto_idempotency options))))))))))"

definition tr_request_json_with_policy ::
    "ffi_libs \<Rightarrow> 'u libs \<Rightarrow> ('u, 'c) net_env \<Rightarrow> string \<Rightarrow> ('u, 'c) client option \<Rightarrow> int \<Rightarrow> string option \<Rightarrow>
     string option \<Rightarrow> string option \<Rightarrow> string option \<Rightarrow> string option \<Rightarrow> bool \<Rightarrow> c_heap \<Rightarrow>
     ('u, 'c) net_event list \<times> tr_result \<times> c_heap" where
  "tr_request_json_with_policy F L E uuid client plane method path body_json workspace_id idempotency_key
      auto_idempotency h =
     (let (trace, response) =
        (case c_request_call F uuid client plane method path body_json workspace_id idempotency_key
            auto_idempotency of
           Inl e \<Rightarrow> ([], Inl e)
         | Inr c \<Rightarrow> client_request L E (ff_from_str F) c)
      in (trace, guarded (\<lambda>h. Returned (case response of Inl e \<Rightarrow> (Inl e, h) | Inr v \<Rightarrow> success_json F v h)) h))"

definition tr_request_json ::
    "ffi_libs \<Rightarrow> 'u libs \<Rightarrow> ('u, 'c) net_env \<Rightarrow> string \<Rightarrow> ('u, 'c) client option \<Rightarrow> int \<Rightarrow> string option \<Rightarrow>
     string option \<Rightarrow> string option \<Rightarrow> string option \<Rightarrow> string option \<Rightarrow> c_heap \<Rightarrow>
     ('u, 'c) net_event list \<times> tr_result \<times> c_heap" where
  "tr_request_json F L E uuid client plane method path body_json workspace_id idempotency_key h =
     tr_request_json_with_policy F L E uuid client plane method path body_json workspace_id idempotency_key False h"

definition tr_chat_completions ::
    "ffi_libs \<Rightarrow> 'u libs \<Rightarrow> ('u, 'c) net_env \<Rightarrow> string \<Rightarrow> ('u, 'c) client option \<Rightarrow> string option \<Rightarrow>
     string option \<Rightarrow> string option \<Rightarrow> c_heap \<Rightarrow> ('u, 'c) net_event list \<times> tr_result \<times> c_heap" where
  "tr_chat_completions F L E uuid client request_json workspace_id idempotency_key h =
     tr_request_json_with_policy F L E uuid client 0 (Some ''POST'') (Some ''/chat/completions'') request_json
       workspace_id idempotency_key True h"

definition tr_responses ::
    "ffi_libs \<Rightarrow> 'u libs \<Rightarrow> ('u, 'c) net_env \<Rightarrow> string \<Rightarrow> ('u, 'c) client option \<Rightarrow> string option \<Rightarrow>
     string option \<Rightarrow> string option \<Rightarrow> c_heap \<Rightarrow> ('u, 'c) net_event list \<times> tr_result \<times> c_heap" where
  "tr_responses F L E uuid client request_json workspace_id idempotency_key h =
     tr_request_json_with_policy F L E uuid client 0 (Some ''POST'') (Some ''/responses'') request_json
       workspace_id idempotency_key True h"

section \<open>Streams\<close>

definition event_json :: "sse_event \<Rightarrow> json" where
  "event_json event =
     obj [(''event'', enc_opt JString (sse_name event)), (''data'', JString (sse_data event)),
          (''id'', enc_opt JString (sse_id event))]"

definition c_callback :: "ffi_libs \<Rightarrow> ('s \<Rightarrow> string \<Rightarrow> 's \<times> int) \<Rightarrow> 's \<Rightarrow> sse_event \<Rightarrow> 's \<times> bool" where
  "c_callback F callback user_data event =
     (case Option.bind (result_ok (ff_to_string F (event_json event))) c_string_new of
        None \<Rightarrow> (user_data, False)
      | Some text \<Rightarrow> (let (user_data', answer) = callback user_data text in (user_data', answer \<noteq> 0)))"

definition c_stream_request ::
    "ffi_libs \<Rightarrow> string \<Rightarrow> ('u, 'c) client option \<Rightarrow> string option \<Rightarrow> string option \<Rightarrow> string option \<Rightarrow>
     string option \<Rightarrow> 'f option \<Rightarrow> error + ('u, 'c) client \<times> string \<times> json \<times> call_options \<times> 'f" where
  "c_stream_request F uuid client path body_json workspace_id idempotency_key callback =
     and_then (client_ref client) (\<lambda>cl.
     and_then (c_required_string path ''path'') (\<lambda>target.
     and_then (c_required_string body_json ''body_json'') (\<lambda>text.
     and_then (map_err (\<lambda>e. local_error (''invalid body JSON: '' @ e)) (ff_from_str F text)) (\<lambda>body.
     let body = (case body of JObject m \<Rightarrow> JObject (fmupd ''stream'' (JBool True) m) | _ \<Rightarrow> body) in
     and_then (c_call_options workspace_id idempotency_key) (\<lambda>options.
     and_then (ok_or callback (local_error ''callback is required'')) (\<lambda>cb.
       Inr (cl, target, body, auto_key uuid True options, cb)))))))"

text \<open>\<open>None\<close> if the call never returns.\<close>

definition tr_stream_json ::
    "ffi_libs \<Rightarrow> 'u libs \<Rightarrow> ('u, 'c) net_env \<Rightarrow> 'u stream_env \<Rightarrow> (nat \<Rightarrow> nat) \<Rightarrow> string \<Rightarrow>
     ('u, 'c) client option \<Rightarrow> string option \<Rightarrow> string option \<Rightarrow> string option \<Rightarrow> string option \<Rightarrow>
     ('s \<Rightarrow> string \<Rightarrow> 's \<times> int) option \<Rightarrow> 's \<Rightarrow> c_heap \<Rightarrow>
     (('u, 'c) net_event list \<times> 's \<times> tr_result \<times> c_heap) option" where
  "tr_stream_json F L E V clock uuid client path body_json workspace_id idempotency_key callback user_data h =
     (case c_stream_request F uuid client path body_json workspace_id idempotency_key callback of
        Inl e \<Rightarrow> Some ([], user_data, guarded (\<lambda>h. Returned (Inl e, h)) h)
      | Inr (cl, target, body, options, cb) \<Rightarrow>
          map_option
            (\<lambda>(user_data', result, _).
               (fst (validated_raw_sse L E V cl uuid target body options), user_data',
                guarded (\<lambda>h. Returned (case result of
                    Inl e \<Rightarrow> (Inl e, h)
                  | Inr _ \<Rightarrow> success_json F (obj [(''completed'', JBool True)]) h)) h))
            (blocking_validated_raw_sse L E V (ff_from_str F) clock (c_callback F cb) user_data cl uuid target body
              options))"

section \<open>Results and their memory\<close>

text \<open>What a C caller may rely on for a result: the code tells which of the two texts is there, that text
  is one new cell of the heap without a NUL in it, and releasing the result gives the heap back.\<close>

definition c_result :: "c_heap \<Rightarrow> tr_result \<Rightarrow> c_heap \<Rightarrow> bool" where
  "c_result h r h' \<longleftrightarrow>
     (\<exists>p s. ch_cells h p = None \<and> ch_cells h' = (ch_cells h)(p \<mapsto> s) \<and> NUL \<notin> set s \<and>
        (if tr_code r = 0 then tr_http_status r = 200 \<and> tr_data r = Some p \<and> tr_error r = None
         else tr_code r \<le> 13 \<and> tr_data r = None \<and> tr_error r = Some p)) \<and>
     heap_ok h' \<and> ch_cells (tr_result_free r h') = ch_cells h"

lemma escape_nul_clean: "NUL \<notin> set (escape_nul s)"
  by (auto simp: escape_nul_def NUL_def)

lemma owned_c_string_eq:
  "owned_c_string v h =
     (Some (ch_next h), h\<lparr>ch_next := ch_next h + 1, ch_cells := (ch_cells h)(ch_next h \<mapsto> escape_nul v)\<rparr>)"
  by (simp add: owned_c_string_def c_string_new_def escape_nul_clean)

lemma error_code_range: "0 < error_code e \<and> error_code e \<le> 13"
  by (simp add: error_code_def split: error_kind.split)

lemma error_code_kinds: "error_code e = error_code e' \<longleftrightarrow> kind e = kind e'"
  by (cases "kind e"; cases "kind e'") (simp_all add: error_code_def)

lemma c_result_allocated:
  assumes "heap_ok h" and "ch_next h = p"
    and "if tr_code r = 0 then tr_http_status r = 200 \<and> tr_data r = Some p \<and> tr_error r = None
         else tr_code r \<le> 13 \<and> tr_data r = None \<and> tr_error r = Some p"
  shows "c_result h r (h\<lparr>ch_next := p + 1, ch_cells := (ch_cells h)(p \<mapsto> escape_nul v)\<rparr>)"
proof -
  have free: "ch_cells h p = None" using assms(1,2) by (auto simp: heap_ok_def)
  then have "(ch_cells h)(p := None) = ch_cells h" by auto
  moreover have "heap_ok (h\<lparr>ch_next := p + 1, ch_cells := (ch_cells h)(p \<mapsto> escape_nul v)\<rparr>)"
    using assms(1,2) by (auto simp: heap_ok_def)
  ultimately show ?thesis using free assms(3) escape_nul_clean [of v]
    unfolding c_result_def by (auto simp: tr_result_free_def split: if_splits)
qed

lemma failure_result_ok:
  assumes "heap_ok h" and "failure_result e h = (r, h')"
  shows "c_result h r h' \<and> tr_code r = error_code e"
  using assms(2) c_result_allocated [OF assms(1) refl, of r "error_text e"] error_code_range [of e]
  by (auto simp: failure_result_def owned_c_string_eq)

lemma success_json_ok:
  assumes "heap_ok h" and "success_json F v h = (Inr r, h')"
  shows "c_result h r h' \<and> tr_code r = 0"
  using assms(2) c_result_allocated [OF assms(1) refl, of r]
  by (auto simp: success_json_def owned_c_string_eq split: sum.splits)

lemma success_json_Inl: "success_json F v h = (Inl e, h') \<Longrightarrow> h' = h \<and> error_code e = 11"
  by (auto simp: success_json_def local_error_def error_code_def split: sum.splits prod.splits)

text \<open>The two shapes an operation has inside \<open>guarded\<close>.\<close>

lemma guarded_failure:
  "heap_ok h \<Longrightarrow> guarded (\<lambda>h. Returned (Inl e, h)) h = (r, h') \<Longrightarrow> c_result h r h' \<and> tr_code r = error_code e"
  by (simp add: guarded_def failure_result_ok)

lemma guarded_response:
  assumes "heap_ok h"
    and "guarded (\<lambda>h. Returned (case response of Inl e \<Rightarrow> (Inl e, h) | Inr v \<Rightarrow> success_json F (f v) h)) h = (r, h')"
  shows "c_result h r h' \<and> (case response of Inl e \<Rightarrow> tr_code r = error_code e | Inr v \<Rightarrow> tr_code r \<in> {0, 11})"
  using assms success_json_ok [OF assms(1)] failure_result_ok [OF assms(1)] success_json_Inl
  by (fastforce simp: guarded_def split: sum.splits prod.splits)

lemma blocking_validated_returns:
  "\<exists>s' res n es. blocking_validated_raw_sse L E V J clock callback s cl uuid path body options = Some (s', res, n, es)"
proof (cases "snd (validated_raw_sse L E V cl uuid path body options)")
  case (Inr x)
  obtain route g where o: "x = (route, g)" by (cases x)
  with Inr opened_streams(3) obtain items h where "g = open_generator items h" by metis
  with o Inr pump_raw [of J route callback clock s items h] show ?thesis
    by (auto simp: blocking_validated_raw_sse_def blocking_stream_def)
qed (simp add: blocking_validated_raw_sse_def)

lemma c_strings_errors:
  "c_optional_string p = Inl e \<Longrightarrow> error_code e = 11"
  "c_required_string p name = Inl e \<Longrightarrow> error_code e = 11"
  "c_call_options w k = Inl e \<Longrightarrow> error_code e = 11"
  by (auto simp: c_optional_string_def c_required_string_def c_call_options_def result_simps local_error_def
      error_code_def and_then_def map_err_def ok_or_def split: option.splits sum.splits)

lemma c_request_call_errors:
  "c_request_call F uuid client plane method path body_json w k auto = Inl e \<Longrightarrow> error_code e = 11"
  by (auto simp: c_request_call_def client_ref_def and_then_def map_err_def ok_or_def local_error_def
      split: sum.splits option.splits if_splits dest: c_strings_errors)
     (auto simp: error_code_def)

text \<open>Every request of an operation is a POST that carries the one key; an empty key is no key, and then
  there is at most one request.\<close>

definition posts_with_key :: "string \<Rightarrow> ('u, 'c) request list \<Rightarrow> bool" where
  "posts_with_key key requests \<longleftrightarrow>
     list_all (\<lambda>rq. rq_method rq = POST) requests \<and>
     (if key = [] then length requests \<le> 1
      else list_all (\<lambda>rq. rq_headers rq ''idempotency-key'' = [key]) requests)"

lemma posts_with_key_Nil [simp]: "posts_with_key key []"
  by (simp add: posts_with_key_def)

lemma execute_posts:
  assumes "http_api_ok (lib_http L)" and "build_keeps E" and "execute L E c = (tr, res)"
    and "cl_api_base_urls (call_client c) \<noteq> []" and "call_method c = POST"
    and key: "co_idempotency_key (call_options c) = Some key"
  shows "posts_with_key key (sends tr)"
proof -
  have "rq_method rq = POST" if "rq \<in> set (sends tr)" for rq
    using execute_sent [OF assms(3) that] assms(4,5) by (metis sent_by_def)
  moreover have "length (sends tr) \<le> 1" if "key = []"
    using execute_once [OF assms(3)] assms(5) key that by (auto simp: request_replay_safe_def is_some_and_def)
  moreover have "rq_headers rq ''idempotency-key'' = [key]" if "key \<noteq> []" "rq \<in> set (sends tr)" for rq
    using execute_keyed [OF assms(1-3) _ key that] assms(4) by simp
  ultimately show ?thesis by (auto simp: posts_with_key_def list_all_iff)
qed

lemma auto_key_key:
  "c_call_options w k = Inr options \<Longrightarrow>
   co_idempotency_key (auto_key uuid True options) = Some (unwrap_or (''tr-req-'' @ uuid) k)"
  by (cases k) (auto simp: c_call_options_def c_optional_string_def auto_key_def generated_idempotency_key_def
      unwrap_or_def result_simps default_call_options_def)

lemma c_prompt_call:
  assumes "c_request_call F uuid (Some cl) 0 (Some ''POST'') (Some path) b w k True = Inr c"
    and "ff_method F ''POST'' = Inr POST"
  shows "call_client c = cl \<and> call_plane c = Inference \<and> call_method c = POST \<and> \<not> call_streaming c \<and>
    co_idempotency_key (call_options c) = Some (unwrap_or (''tr-req-'' @ uuid) k)"
  using assms from_utf8_ascii [of "''POST''"]
  by (auto simp: c_request_call_def client_ref_def api_call_def c_required_string_def c_optional_string_def is_ascii_def
      result_simps dest!: auto_key_key)

lemma stream_sends:
  assumes "http_api_ok (lib_http L)" and "build_keeps E" and "cl_api_base_urls cl \<noteq> []"
    and "co_idempotency_key options = Some key"
  shows "posts_with_key key (sends (fst (validated_raw_sse L E V cl uuid path body options)))"
proof -
  let ?c = "api_call cl Inference POST path (Some body) (ensure_idempotency_key uuid options)"
  obtain tr res where ex: "execute L E (?c\<lparr>call_streaming := True\<rparr>) = (tr, res)" by fastforce
  then have "fst (validated_raw_sse L E V cl uuid path body options) = tr"
    by (auto simp: validated_raw_sse_def open_raw_sse_def open_sse_def open_stream_def Let_def
        split: prod.splits sum.splits)
  with execute_posts [OF assms(1,2) ex] assms(3,4) show ?thesis
    by (simp add: api_call_def ensure_idempotency_key_def)
qed

lemma c_stream_key:
  assumes "c_stream_request F uuid (Some cl) path body w k callback = Inr (cl', target, b, options, cb)"
  shows "cl' = cl \<and> co_idempotency_key options = Some (unwrap_or (''tr-req-'' @ uuid) k)"
  using assms by (auto simp: c_stream_request_def client_ref_def result_simps Let_def dest!: auto_key_key)

text \<open>A C environment for evaluating the model: JSON texts are kept as JSON strings.\<close>

definition example_ffi :: ffi_libs where
  "example_ffi = \<lparr>ff_method = (\<lambda>s. if s = ''POST'' then Inr POST else Inl ''invalid HTTP method''),
     ff_from_str = (\<lambda>s. Inr (JString s)),
     ff_to_string = (\<lambda>v. case v of JString s \<Rightarrow> Inr s | _ \<Rightarrow> Inr ''{}'')\<rparr>"

definition empty_heap :: c_heap where
  "empty_heap = \<lparr>ch_next = 0, ch_cells = Map.empty\<rparr>"

lemma empty_heap_ok: "heap_ok empty_heap"
  by (simp add: heap_ok_def empty_heap_def)

lemma request_result:
  assumes "heap_ok h"
  shows "case tr_request_json_with_policy F L E uuid client plane verb path body w k auto h of
      (trace, r, h') \<Rightarrow> c_result h r h' \<and>
        (case c_request_call F uuid client plane verb path body w k auto of
           Inl e \<Rightarrow> trace = [] \<and> tr_code r = 11
         | Inr c \<Rightarrow> (case snd (client_request L E (ff_from_str F) c) of
             Inl e \<Rightarrow> tr_code r = error_code e | Inr v \<Rightarrow> tr_code r \<in> {0, 11}))"
proof (cases "c_request_call F uuid client plane verb path body w k auto")
  case (Inl e)
  with c_request_call_errors [OF Inl] guarded_failure [OF assms, of e] show ?thesis
    by (simp add: tr_request_json_with_policy_def split: prod.split)
next
  case (Inr c)
  obtain trace response where run: "client_request L E (ff_from_str F) c = (trace, response)"
    by (cases "client_request L E (ff_from_str F) c")
  let ?op = "\<lambda>h. Returned (case response of Inl e \<Rightarrow> (Inl e, h) | Inr v \<Rightarrow> success_json F v h)"
  obtain r h' where g: "guarded ?op h = (r, h')" by (cases "guarded ?op h")
  have "tr_request_json_with_policy F L E uuid client plane verb path body w k auto h = (trace, r, h')"
    unfolding tr_request_json_with_policy_def Inr sum.case run Let_def prod.case g ..
  with guarded_response [OF assms g] show ?thesis unfolding Inr by (simp only: prod.case sum.case run snd_conv)
qed

lemma stream_result:
  assumes "heap_ok h"
  shows "\<exists>trace user_data' r h'.
      tr_stream_json F L E V clock uuid client path body w k callback user_data h = Some (trace, user_data', r, h') \<and>
      c_result h r h'"
proof (cases "c_stream_request F uuid client path body w k callback")
  case (Inl e)
  obtain r h' where g: "guarded (\<lambda>h. Returned (Inl e, h)) h = (r, h')"
    by (cases "guarded (\<lambda>h. Returned (Inl e, h)) h")
  have "tr_stream_json F L E V clock uuid client path body w k callback user_data h = Some ([], user_data, r, h')"
    unfolding tr_stream_json_def Inl sum.case g ..
  with guarded_failure [OF assms g] show ?thesis by blast
next
  case (Inr x)
  obtain cl target b options cb where x: "x = (cl, target, b, options, cb)" by (cases x)
  obtain s' res n es where run: "blocking_validated_raw_sse L E V (ff_from_str F) clock (c_callback F cb) user_data cl
      uuid target b options = Some (s', res, n, es)" using blocking_validated_returns by metis
  let ?op = "\<lambda>h. Returned (case res of Inl e \<Rightarrow> (Inl e, h)
    | Inr _ \<Rightarrow> success_json F (obj [(''completed'', JBool True)]) h)"
  obtain r h' where g: "guarded ?op h = (r, h')" by (cases "guarded ?op h")
  have "tr_stream_json F L E V clock uuid client path body w k callback user_data h =
      Some (fst (validated_raw_sse L E V cl uuid target b options), s', r, h')"
    unfolding tr_stream_json_def Inr x sum.case prod.case run option.map g ..
  with guarded_response [OF assms g] show ?thesis by blast
qed

lemma panic_result:
  assumes "heap_ok h"
  shows "case guarded (\<lambda>_. Panicked) h of (r, h') \<Rightarrow> c_result h r h' \<and> tr_code r = 11"
proof -
  let ?e = "local_error ''panic contained at C ABI boundary''"
  obtain r h' where g: "failure_result ?e h = (r, h')" by (cases "failure_result ?e h")
  have "error_code (local_error t) = 11" for t by (simp add: local_error_def error_code_def)
  with failure_result_ok [OF assms g] show ?thesis by (simp add: guarded_def g)
qed

section \<open>Properties\<close>



text \<open>C18: A prompt sent through the C interface is never sent twice under two identities. Every request of
  a chat, Responses or stream call, over all retries and failovers, is a POST that carries one and the
  same idempotency key: the caller's, or the generated one when the caller passed null. A caller who
  passes an empty key has none, and then at most one request goes out.\<close>

theorem ffi_prompts_keyed:
  assumes "http_api_ok (lib_http L)" and "build_keeps E" and "ff_method F ''POST'' = Inr POST"
    and "cl_api_base_urls cl \<noteq> []"
    and "trace \<in> {fst (tr_chat_completions F L E uuid (Some cl) body w k h),
      fst (tr_responses F L E uuid (Some cl) body w k h)} \<or>
      map_option fst (tr_stream_json F L E V clock uuid (Some cl) path body w k callback user_data h) = Some trace"
  shows "posts_with_key (unwrap_or (''tr-req-'' @ uuid) k) (sends trace)"
proof -
  have prompt: "posts_with_key (unwrap_or (''tr-req-'' @ uuid) k) (sends (fst
      (tr_request_json_with_policy F L E uuid (Some cl) 0 (Some ''POST'') (Some p) body w k True h)))" for p
  proof (cases "c_request_call F uuid (Some cl) 0 (Some ''POST'') (Some p) body w k True")
    case (Inr c)
    note shape = c_prompt_call [OF Inr assms(3)]
    obtain tr res where run: "client_request L E (ff_from_str F) c = (tr, res)" by fastforce
    from client_request_execute [OF run] shape obtain tr0 res0 where
      "execute L E c = (tr0, res0)" "sends tr = sends tr0" by auto
    with execute_posts [OF assms(1,2)] shape assms(4) run Inr show ?thesis
      by (auto simp: tr_request_json_with_policy_def)
  qed (simp add: tr_request_json_with_policy_def)
  from assms(5) show ?thesis
  proof
    assume "map_option fst (tr_stream_json F L E V clock uuid (Some cl) path body w k callback user_data h) = Some trace"
    then show ?thesis using stream_sends [OF assms(1,2,4)]
      by (auto simp: tr_stream_json_def split: sum.splits dest!: c_stream_key)
  qed (use prompt in \<open>auto simp: tr_chat_completions_def tr_responses_def\<close>)
qed

definition ffi_prompt_trace :: "(plain_url, nat http_config) net_event list" where
  "ffi_prompt_trace = fst (tr_chat_completions example_ffi example_libs example_net ''u1'' (Some built)
     (Some ''{}'') None None empty_heap)"

lemma ffi_prompt_sends: "length (sends ffi_prompt_trace) = 2"
  by code_simp

text \<open>A refused connection and the retry, under one generated key.\<close>

theorem ffi_prompts_keyed_witness:
  "map (\<lambda>rq. rq_headers rq ''idempotency-key'') (sends ffi_prompt_trace) = [[''tr-req-u1''], [''tr-req-u1'']]"
proof -
  have "ff_method example_ffi ''POST'' = Inr POST" by (simp add: example_ffi_def)
  from ffi_prompts_keyed [OF example_net_ok this example_sends(2), where trace = ffi_prompt_trace and
      uuid = "''u1''" and k = None and body = "Some ''{}''" and w = None and h = empty_heap]
  have "posts_with_key ''tr-req-u1'' (sends ffi_prompt_trace)" by (simp add: ffi_prompt_trace_def unwrap_or_def)
  with ffi_prompt_sends show ?thesis
    by (cases "sends ffi_prompt_trace"; cases "tl (sends ffi_prompt_trace)") (auto simp: posts_with_key_def)
qed

end
