(* ===== verification/TR_Tools.thy ===== *)
theory TR_Tools
  imports TR_Serde
begin

text \<open>
  The orchestration tool builders (\<open>tools.rs\<close>): each takes an options struct, leaves out what is not
  set, and wraps the rest as the parameters of a tool of a fixed type. The options have no flattened
  fields.
\<close>

section \<open>Options\<close>

datatype selection_strategy = Synthesize | SynthesizeNonRefusals | FirstSuccess | FirstNonRefusal

fun selection_strategy_to_json :: "selection_strategy \<Rightarrow> json" where
  "selection_strategy_to_json Synthesize = JString ''synthesize''"
| "selection_strategy_to_json SynthesizeNonRefusals = JString ''synthesize_non_refusals''"
| "selection_strategy_to_json FirstSuccess = JString ''first_success''"
| "selection_strategy_to_json FirstNonRefusal = JString ''first_non_refusal''"

record synth_tool_options =
  synth_enabled :: "bool option"
  synth_analysis_models :: "string list"
  synth_model :: "string option"
  synth_selection_strategy :: "selection_strategy option"
  synth_fallback_judges :: "string list"
  synth_fallback_final_models :: "string list"
  synth_max_completion_tokens :: "(32 word) option"
  synth_max_tool_calls :: "(32 word) option"
  synth_preset :: "string option"
  synth_panel_prompt :: "string option"
  synth_synthesis_prompt :: "string option"

definition synth_tool_options_to_json :: "synth_tool_options \<Rightarrow> json" where
  "synth_tool_options_to_json c = struct
     [unless_none ''enabled'' JBool (synth_enabled c),
      unless_empty ''analysis_models'' JString (synth_analysis_models c),
      unless_none ''model'' JString (synth_model c),
      unless_none ''selection_strategy'' selection_strategy_to_json (synth_selection_strategy c),
      unless_empty ''fallback_judges'' JString (synth_fallback_judges c),
      unless_empty ''fallback_final_models'' JString (synth_fallback_final_models c),
      unless_none ''max_completion_tokens'' enc_uint (synth_max_completion_tokens c),
      unless_none ''max_tool_calls'' enc_uint (synth_max_tool_calls c),
      unless_none ''preset'' JString (synth_preset c),
      unless_none ''panel_prompt'' JString (synth_panel_prompt c),
      unless_none ''synthesis_prompt'' JString (synth_synthesis_prompt c)]
     fmempty"

record advisor_tool_options =
  adv_enabled :: "bool option"
  adv_depth :: "(8 word) option"
  adv_worker_models :: "string list"
  adv_advisor_models :: "string list"
  adv_max_get_advice_calls :: "(8 word) option"
  adv_advisor_max_tokens :: "(32 word) option"
  adv_worker_timeout_ms :: "(64 word) option"
  adv_advisor_timeout_ms :: "(64 word) option"
  adv_auto_initial_advice :: "bool option"

definition advisor_tool_options_to_json :: "advisor_tool_options \<Rightarrow> json" where
  "advisor_tool_options_to_json c = struct
     [unless_none ''enabled'' JBool (adv_enabled c), unless_none ''depth'' enc_uint (adv_depth c),
      unless_empty ''worker_models'' JString (adv_worker_models c),
      unless_empty ''advisor_models'' JString (adv_advisor_models c),
      unless_none ''max_get_advice_calls'' enc_uint (adv_max_get_advice_calls c),
      unless_none ''advisor_max_tokens'' enc_uint (adv_advisor_max_tokens c),
      unless_none ''worker_timeout_ms'' enc_uint (adv_worker_timeout_ms c),
      unless_none ''advisor_timeout_ms'' enc_uint (adv_advisor_timeout_ms c),
      unless_none ''auto_initial_advice'' JBool (adv_auto_initial_advice c)]
     fmempty"

record selector_tool_options =
  sel_enabled :: "bool option"
  sel_analysis_models :: "string list"
  sel_selector_models :: "string list"
  sel_selector_prompt :: "string option"
  sel_max_completion_tokens :: "(32 word) option"

definition selector_tool_options_to_json :: "selector_tool_options \<Rightarrow> json" where
  "selector_tool_options_to_json c = struct
     [unless_none ''enabled'' JBool (sel_enabled c),
      unless_empty ''analysis_models'' JString (sel_analysis_models c),
      unless_empty ''selector_models'' JString (sel_selector_models c),
      unless_none ''selector_prompt'' JString (sel_selector_prompt c),
      unless_none ''max_completion_tokens'' enc_uint (sel_max_completion_tokens c)]
     fmempty"

record map_reduce_tool_options =
  mapred_enabled :: "bool option"
  mapred_mapper_models :: "string list"
  mapred_parallel_models :: "string list"
  mapred_reducer_models :: "string list"
  mapred_max_parts :: "(8 word) option"
  mapred_mapper_prompt :: "string option"
  mapred_parallel_prompt :: "string option"
  mapred_reducer_prompt :: "string option"
  mapred_max_completion_tokens :: "(32 word) option"

definition map_reduce_tool_options_to_json :: "map_reduce_tool_options \<Rightarrow> json" where
  "map_reduce_tool_options_to_json c = struct
     [unless_none ''enabled'' JBool (mapred_enabled c),
      unless_empty ''mapper_models'' JString (mapred_mapper_models c),
      unless_empty ''parallel_models'' JString (mapred_parallel_models c),
      unless_empty ''reducer_models'' JString (mapred_reducer_models c),
      unless_none ''max_parts'' enc_uint (mapred_max_parts c),
      unless_none ''mapper_prompt'' JString (mapred_mapper_prompt c),
      unless_none ''parallel_prompt'' JString (mapred_parallel_prompt c),
      unless_none ''reducer_prompt'' JString (mapred_reducer_prompt c),
      unless_none ''max_completion_tokens'' enc_uint (mapred_max_completion_tokens c)]
     fmempty"

record subagent_tool_options =
  sub_enabled :: "bool option"
  sub_controller_model :: "string option"
  sub_model :: "string option"
  sub_instructions :: "string option"
  sub_depth :: "(8 word) option"
  sub_max_subagent_calls :: "(8 word) option"
  sub_max_completion_tokens :: "(32 word) option"
  sub_temperature :: "(rat option) option"
  sub_reasoning :: "json option"
  sub_tools :: "json list"

definition subagent_tool_options_to_json :: "subagent_tool_options \<Rightarrow> json" where
  "subagent_tool_options_to_json c = struct
     [unless_none ''enabled'' JBool (sub_enabled c),
      unless_none ''controller_model'' JString (sub_controller_model c),
      unless_none ''model'' JString (sub_model c),
      unless_none ''instructions'' JString (sub_instructions c),
      unless_none ''depth'' enc_uint (sub_depth c),
      unless_none ''max_subagent_calls'' enc_uint (sub_max_subagent_calls c),
      unless_none ''max_completion_tokens'' enc_uint (sub_max_completion_tokens c),
      unless_none ''temperature'' enc_f64 (sub_temperature c),
      unless_none ''reasoning'' (\<lambda>v. v) (sub_reasoning c),
      unless_empty ''tools'' (\<lambda>v. v) (sub_tools c)]
     fmempty"

section \<open>Tools\<close>

definition synth_tool :: "synth_tool_options \<Rightarrow> json" where
  "synth_tool options =
     obj [(''type'', JString ''trustedrouter:fusion''), (''parameters'', synth_tool_options_to_json options)]"

definition advisor_tool :: "advisor_tool_options \<Rightarrow> json" where
  "advisor_tool options =
     obj [(''type'', JString ''trustedrouter:advisor''), (''parameters'', advisor_tool_options_to_json options)]"

definition selector_tool :: "selector_tool_options \<Rightarrow> json" where
  "selector_tool options =
     obj [(''type'', JString ''trustedrouter:selector''), (''parameters'', selector_tool_options_to_json options)]"

definition map_reduce_tool :: "map_reduce_tool_options \<Rightarrow> json" where
  "map_reduce_tool options =
     obj [(''type'', JString ''trustedrouter:mapreduce''), (''parameters'', map_reduce_tool_options_to_json options)]"

definition subagent_tool :: "subagent_tool_options \<Rightarrow> json" where
  "subagent_tool options =
     obj [(''type'', JString ''trustedrouter:subagent''), (''parameters'', subagent_tool_options_to_json options)]"

end
