(* ===== verification/TR_Beacon.thy ===== *)
theory TR_Beacon
  imports TR_Reporter
begin

text \<open>
  What every method of the reporter's state keeps (\<open>telemetry/reporter.rs\<close>): bounded buffers, unique
  identifiers, exact byte accounting, and delays within their limits. \<open>rep_inv\<close> collects it. Retiring a
  selection is reduced to one filter over the windows, and selecting a batch to prefixes of the buffer
  and of the waiting rows.
\<close>

section \<open>Retiring rows\<close>

definition keep :: "(nat \<times> counter_key) set \<Rightarrow> counter_window \<Rightarrow> counter_window" where
  "keep R w = w\<lparr>cw_rows := filter (\<lambda>(key, _). (cw_id w, key) \<notin> R) (cw_rows w)\<rparr>"

definition touched :: "(nat \<times> counter_key) set \<Rightarrow> counter_window \<Rightarrow> bool" where
  "touched R w \<longleftrightarrow> (\<exists>key \<in> fst ` set (cw_rows w). (cw_id w, key) \<in> R)"

definition keyed :: "counter_window list \<Rightarrow> bool" where
  "keyed ws \<longleftrightarrow> distinct (map cw_id ws) \<and> (\<forall>w \<in> set ws. distinct (map fst (cw_rows w)))"

lemma keep_simps [simp]:
  "cw_id (keep R w) = cw_id w" "cw_window_start (keep R w) = cw_window_start w"
  "cw_size_bytes (keep R w) = cw_size_bytes w"
  by (simp_all add: keep_def)

lemma keep_keep: "keep R (keep S w) = keep (R \<union> S) w"
  by (auto simp: keep_def intro!: counter_window.equality filter_cong)

lemma keep_untouched: "\<not> touched R w \<Longrightarrow> keep R w = w"
  by (force simp: keep_def touched_def filter_id_conv intro!: counter_window.equality)

lemma keep_empty [simp]: "keep {} w = w"
  by (rule keep_untouched) (simp add: touched_def)

lemma keyed_keep: "keyed ws \<Longrightarrow> keyed (map (keep R) ws)"
  by (auto simp: keyed_def keep_def o_def distinct_map_filter)

lemma keep_keys: "fst ` set (cw_rows (keep R w)) = {key \<in> fst ` set (cw_rows w). (cw_id w, key) \<notin> R}"
  by (force simp: keep_def)

lemma touched_insert: "touched (insert r R) w \<longleftrightarrow> touched {r} w \<or> touched R (keep {r} w)"
  by (auto simp: touched_def keep_keys simp del: set_map)

lemma touched_single: "touched {(wid, key)} w \<Longrightarrow> wid = cw_id w"
  by (auto simp: touched_def)

lemma filter_key_remove_at:
  assumes d: "distinct (map fst rows)" and i: "i < length rows"
  shows "filter (\<lambda>(key, _). key \<noteq> fst (rows ! i)) rows = remove_at i rows"
proof -
  have s: "rows = take i rows @ rows ! i # drop (Suc i) rows" by (rule split_at_index [OF i])
  then have "map fst rows = map fst (take i rows) @ fst (rows ! i) # map fst (drop (Suc i) rows)"
    by (metis list.simps(9) map_append)
  with d have n: "fst (rows ! i) \<notin> fst ` set (take i rows)" "fst (rows ! i) \<notin> fst ` set (drop (Suc i) rows)"
    by auto
  have id: "x \<notin> fst ` set ys \<Longrightarrow> filter (\<lambda>(key, _). key \<noteq> x) ys = ys" for x and ys :: "('a \<times> 'b) list"
    by (force simp: filter_id_conv)
  have "filter (\<lambda>(key, _). key \<noteq> fst (rows ! i)) (take i rows @ rows ! i # drop (Suc i) rows) =
      take i rows @ drop (Suc i) rows"
    using id [OF n(1)] id [OF n(2)] by (simp add: split_beta)
  with s show ?thesis by (simp add: remove_at_def)
qed

lemma remove_row_eq:
  "keyed ws \<Longrightarrow>
   remove_row r ws = (map (keep {r}) ws, \<exists>w \<in> set ws. touched {r} w)"
proof (induction r ws rule: remove_row.induct)
  case (2 wid key w ws)
  show ?case
  proof (cases "cw_id w = wid")
    case True
    from 2(2) True have "wid \<notin> cw_id ` set ws" by (auto simp: keyed_def)
    then have "\<forall>w \<in> set ws. \<not> touched {(wid, key)} w" using touched_single by blast
    then have others: "map (keep {(wid, key)}) ws = ws" "\<not> (\<exists>w \<in> set ws. touched {(wid, key)} w)"
      by (auto intro!: map_idI keep_untouched)
    show ?thesis
    proof (cases "position (\<lambda>(existing, _). existing = key) (cw_rows w)")
      case None
      then have "\<not> touched {(wid, key)} w"
        by (auto simp: position_None_iff touched_def)
      with None True others show ?thesis by (simp add: keep_untouched)
    next
      case (Some i)
      then have i: "i < length (cw_rows w)" and k: "fst (cw_rows w ! i) = key"
        using position_SomeD [OF Some] by (auto simp: split_beta)
      have "touched {(wid, key)} w"
        using i k True by (force simp: touched_def)
      moreover have "filter (\<lambda>(existing, _). existing \<noteq> key) (cw_rows w) = remove_at i (cw_rows w)"
        using filter_key_remove_at [OF _ i] 2(2) k by (simp add: keyed_def)
      then have "keep {(wid, key)} w = w\<lparr>cw_rows := remove_at i (cw_rows w)\<rparr>" using True by (simp add: keep_def)
      ultimately show ?thesis using Some True others by simp
    qed
  next
    case False
    with 2 have "remove_row (wid, key) ws = (map (keep {(wid, key)}) ws, \<exists>w \<in> set ws. touched {(wid, key)} w)"
      by (simp add: keyed_def)
    moreover have "\<not> touched {(wid, key)} w" using False by (simp add: touched_def)
    ultimately show ?thesis using False by (simp add: keep_untouched)
  qed
qed simp

lemma fold_retire_row:
  "keyed ws \<Longrightarrow> fold retire_row refs (ws, changed) = (ws', changed') \<Longrightarrow>
   ws' = map (keep (set refs)) ws \<and>
   set changed' = set changed \<union> cw_id ` {w \<in> set ws. touched (set refs) w}"
proof (induction refs arbitrary: ws changed)
  case Nil
  then show ?case by (auto simp: touched_def map_idI)
next
  case (Cons r refs)
  define changed1 where "changed1 = (if \<exists>w \<in> set ws. touched {r} w then fst r # changed else changed)"
  have one: "retire_row r (ws, changed) = (map (keep {r}) ws, changed1)"
    using remove_row_eq [OF Cons.prems(1), of r] by (simp add: retire_row_def changed1_def)
  have c1: "set changed1 = set changed \<union> cw_id ` {w \<in> set ws. touched {r} w}"
    by (auto simp: changed1_def touched_def)
  from Cons.prems(2) one have "fold retire_row refs (map (keep {r}) ws, changed1) = (ws', changed')" by simp
  from Cons.IH [OF keyed_keep [OF Cons.prems(1)] this]
  have "ws' = map (keep (set refs)) (map (keep {r}) ws)"
    and "set changed' = set changed1 \<union> cw_id ` {w \<in> set (map (keep {r}) ws). touched (set refs) w}" by auto
  moreover have "{w \<in> set (map (keep {r}) ws). touched (set refs) w} =
      keep {r} ` {w \<in> set ws. touched (set refs) (keep {r} w)}" by auto
  moreover have "{w \<in> set ws. touched (set (r # refs)) w} =
      {w \<in> set ws. touched {r} w} \<union> {w \<in> set ws. touched (set refs) (keep {r} w)}"
    using touched_insert [of r "set refs"] by auto
  ultimately show ?case
    using c1 by (simp add: keep_keep image_Un image_image Un_assoc)
qed

definition resized :: "reporter_libs \<Rightarrow> counter_window \<Rightarrow> counter_window" where
  "resized L w = w\<lparr>cw_size_bytes := (if cw_rows w = [] then 0 else window_size L (cw_rows w))\<rparr>"

lemma resized_simps [simp]:
  "cw_id (resized L w) = cw_id w" "cw_rows (resized L w) = cw_rows w"
  "cw_window_start (resized L w) = cw_window_start w"
  by (simp_all add: resized_def)

lemma resize_windows_eq:
  "sum_list (map cw_size_bytes ws) \<le> retained \<Longrightarrow>
   fst (resize_windows L changed ws retained) = map (\<lambda>w. if cw_id w \<in> set changed then resized L w else w) ws \<and>
   snd (resize_windows L changed ws retained) + sum_list (map cw_size_bytes ws) =
     retained + sum_list (map cw_size_bytes (fst (resize_windows L changed ws retained)))"
proof (induction ws arbitrary: retained)
  case (Cons w ws)
  let ?r = "if cw_id w \<in> set changed then retained - cw_size_bytes w + cw_size_bytes (resized L w) else retained"
  from Cons.prems have "sum_list (map cw_size_bytes ws) \<le> ?r" by auto
  obtain ws' r' where r: "resize_windows L changed ws ?r = (ws', r')" by (cases "resize_windows L changed ws ?r")
  from Cons.IH [OF \<open>sum_list (map cw_size_bytes ws) \<le> ?r\<close>] r
  have "ws' = map (\<lambda>w. if cw_id w \<in> set changed then resized L w else w) ws"
    and "r' + sum_list (map cw_size_bytes ws) = ?r + sum_list (map cw_size_bytes ws')" by simp_all
  moreover have "resize_windows L changed (w # ws) retained =
      ((if cw_id w \<in> set changed then resized L w else w) # ws', r')"
    using r by (auto simp: Let_def resized_def split: if_splits)
  ultimately show ?case using Cons.prems by (auto split: if_splits)
qed simp

definition windows_ok :: "reporter_libs \<Rightarrow> rep_state \<Rightarrow> bool" where
  "windows_ok L st \<longleftrightarrow>
     distinct (map cw_id (st_closed_windows st)) \<and>
     (\<forall>w \<in> set (st_closed_windows st).
        cw_id w < st_next_window_id st \<and> cw_rows w \<noteq> [] \<and> open_rows_ok (cw_rows w) \<and>
        cw_size_bytes w = window_size L (cw_rows w)) \<and>
     st_retained_window_bytes st = sum_list (map cw_size_bytes (st_closed_windows st))"

lemma windows_ok_cong:
  "st_closed_windows a = st_closed_windows b \<Longrightarrow> st_next_window_id a = st_next_window_id b \<Longrightarrow>
   st_retained_window_bytes a = st_retained_window_bytes b \<Longrightarrow> windows_ok L a \<longleftrightarrow> windows_ok L b"
  by (simp only: windows_ok_def)

lemma windows_ok_keyed: "windows_ok L st \<Longrightarrow> keyed (st_closed_windows st)"
  by (simp add: windows_ok_def keyed_def open_rows_ok_def)

lemma sum_nonempty_windows:
  "sum_list (map cw_size_bytes (map (resized L) ws)) =
   sum_list (map cw_size_bytes (filter (\<lambda>w. cw_rows w \<noteq> []) (map (resized L) ws)))"
  by (induction ws) (auto simp: resized_def)

text \<open>Retiring a selection, as one expression: the referenced rows are filtered out, windows left empty
  disappear, and the sizes are those of the remaining rows.\<close>

lemma remove_selected_eq:
  assumes ok: "windows_ok L st"
  shows "remove_selected L ids refs st =
    (let events = filter (\<lambda>b. bf_id b \<notin> set ids) (st_events st);
         ws = filter (\<lambda>w. cw_rows w \<noteq> []) (map (\<lambda>w. resized L (keep (set refs) w)) (st_closed_windows st))
     in st\<lparr>st_events := events, st_events_size_bytes := sum_list (map bf_estimated_bytes events),
           st_closed_windows := ws, st_retained_window_bytes := sum_list (map cw_size_bytes ws)\<rparr>)"
proof -
  let ?ws = "st_closed_windows st"
  obtain ws' changed where f: "fold retire_row refs (?ws, []) = (ws', changed)"
    by (cases "fold retire_row refs (?ws, [])")
  from fold_retire_row [OF windows_ok_keyed [OF ok] f]
  have w: "ws' = map (keep (set refs)) ?ws" and c: "set changed = cw_id ` {w \<in> set ?ws. touched (set refs) w}"
    by auto
  have same: "(if cw_id w \<in> set changed then resized L (keep (set refs) w) else keep (set refs) w) =
      resized L (keep (set refs) w)" if "w \<in> set ?ws" for w
  proof (cases "cw_id w \<in> set changed")
    case False
    with c that have "keep (set refs) w = w" by (auto intro: keep_untouched)
    with ok that show ?thesis by (auto simp: windows_ok_def resized_def intro!: counter_window.equality)
  qed simp
  have sizes: "sum_list (map cw_size_bytes ws') = st_retained_window_bytes st"
    using ok by (simp add: w windows_ok_def o_def)
  have "fst (resize_windows L changed ws' (st_retained_window_bytes st)) =
      map (\<lambda>w. resized L (keep (set refs) w)) ?ws"
    using resize_windows_eq [of ws' "st_retained_window_bytes st" L changed] sizes same by (simp add: w)
  moreover from this have "snd (resize_windows L changed ws' (st_retained_window_bytes st)) =
      sum_list (map cw_size_bytes (filter (\<lambda>w. cw_rows w \<noteq> []) (map (\<lambda>w. resized L (keep (set refs) w)) ?ws)))"
    using resize_windows_eq [of ws' "st_retained_window_bytes st" L changed] sizes
      sum_nonempty_windows [of L "map (keep (set refs)) ?ws"] by (simp add: o_def)
  ultimately show ?thesis by (simp add: remove_selected_def f split_beta Let_def)
qed


section \<open>Frames\<close>

text \<open>The window operations leave everything but the windows and the drop count alone.\<close>

definition rest :: "rep_state \<Rightarrow> rep_state" where
  "rest st =
     st\<lparr>st_current_counters := [], st_current_window_start := None, st_closed_windows := [],
        st_next_window_id := 0, st_retained_window_bytes := 0, st_dropped_since_last := 0\<rparr>"

lemma rest_fields [simp]:
  "st_events (rest st) = st_events st" "st_events_size_bytes (rest st) = st_events_size_bytes st"
  "st_next_event_id (rest st) = st_next_event_id st" "st_success_sample_rate (rest st) = st_success_sample_rate st"
  "st_flush_interval (rest st) = st_flush_interval st" "st_backoff (rest st) = st_backoff st"
  "st_backoff_until (rest st) = st_backoff_until st" "st_paused_until (rest st) = st_paused_until st"
  "st_next_flush_at (rest st) = st_next_flush_at st" "st_urgent_not_before (rest st) = st_urgent_not_before st"
  "st_urgent_flush (rest st) = st_urgent_flush st" "st_disabled (rest st) = st_disabled st"
  "st_closed (rest st) = st_closed st" "st_worker_started (rest st) = st_worker_started st"
  "st_seq (rest st) = st_seq st" "st_instance_id (rest st) = st_instance_id st"
  by (simp_all add: rest_def)

lemma rest_start [simp]: "rest (st\<lparr>st_current_window_start := x\<rparr>) = rest st"
  by (simp add: rest_def)

lemma drop_window_rest [simp]:
  "rest (drop_window w st) = rest st" "st_current_counters (drop_window w st) = st_current_counters st"
  "st_current_window_start (drop_window w st) = st_current_window_start st"
  "st_next_window_id (drop_window w st) = st_next_window_id st"
  by (simp_all add: rest_def drop_window_def)

lemma drop_aged_rest [simp]:
  "rest (drop_aged now ws st) = rest st" "st_current_counters (drop_aged now ws st) = st_current_counters st"
  "st_current_window_start (drop_aged now ws st) = st_current_window_start st"
  "st_next_window_id (drop_aged now ws st) = st_next_window_id st"
  by (induction now ws st rule: drop_aged.induct) (simp_all, simp_all add: rest_def)

lemma drop_excess_rest [simp]:
  "rest (drop_excess b ws st) = rest st" "st_current_counters (drop_excess b ws st) = st_current_counters st"
  "st_current_window_start (drop_excess b ws st) = st_current_window_start st"
  "st_next_window_id (drop_excess b ws st) = st_next_window_id st"
  by (induction b ws st rule: drop_excess.induct) (simp_all, simp_all add: rest_def)

lemma prune_windows_rest [simp]:
  "rest (prune_windows now b st) = rest st" "st_current_counters (prune_windows now b st) = st_current_counters st"
  "st_current_window_start (prune_windows now b st) = st_current_window_start st"
  "st_next_window_id (prune_windows now b st) = st_next_window_id st"
  by (simp_all add: prune_windows_def Let_def)

lemma close_current_window_rest [simp]: "rest (close_current_window L now b st) = rest st"
  by (auto simp: close_current_window_def Let_def split: option.split) (simp add: rest_def)

lemma roll_window_rest [simp]: "rest (roll_window L now b st) = rest st"
  by (simp add: roll_window_def split: option.split)

lemma merge_counters_rest [simp]: "rest (merge_counters counters st) = rest st"
  by (simp add: merge_counters_def rest_def)

text \<open>A field that \<open>rest\<close> keeps is kept by an operation that keeps \<open>rest\<close>.\<close>

lemma rest_eqD:
  assumes "rest a = rest b"
  shows "st_events a = st_events b" "st_events_size_bytes a = st_events_size_bytes b"
    "st_next_event_id a = st_next_event_id b" "st_success_sample_rate a = st_success_sample_rate b"
    "st_flush_interval a = st_flush_interval b" "st_backoff a = st_backoff b"
    "st_backoff_until a = st_backoff_until b" "st_paused_until a = st_paused_until b"
    "st_next_flush_at a = st_next_flush_at b" "st_urgent_not_before a = st_urgent_not_before b"
    "st_urgent_flush a = st_urgent_flush b" "st_disabled a = st_disabled b" "st_closed a = st_closed b"
    "st_worker_started a = st_worker_started b" "st_seq a = st_seq b" "st_instance_id a = st_instance_id b"
  using assms by (metis rest_fields)+

lemmas prune_fields [simp] = rest_eqD [OF prune_windows_rest(1)]
lemmas close_fields [simp] = rest_eqD [OF close_current_window_rest]
lemmas roll_fields [simp] = rest_eqD [OF roll_window_rest]
lemmas merge_fields [simp] = rest_eqD [OF merge_counters_rest]

section \<open>Invariants of the windows\<close>

lemma drop_window_ok:
  "windows_ok L (st\<lparr>st_closed_windows := w # ws\<rparr>) \<Longrightarrow> windows_ok L ((drop_window w st)\<lparr>st_closed_windows := ws\<rparr>)"
  by (auto simp: windows_ok_def drop_window_def)

lemma drop_aged_ok:
  "windows_ok L (st\<lparr>st_closed_windows := ws\<rparr>) \<Longrightarrow> windows_ok L (drop_aged now ws st)"
  by (induction now ws st rule: drop_aged.induct) (auto dest: drop_window_ok)

lemma drop_excess_ok:
  "windows_ok L (st\<lparr>st_closed_windows := ws\<rparr>) \<Longrightarrow>
   windows_ok L (drop_excess b ws st) \<and> st_retained_window_bytes (drop_excess b ws st) \<le> b"
proof (induction b ws st rule: drop_excess.induct)
  case (1 b st)
  then show ?case by (simp add: windows_ok_def)
next
  case (2 b w ws st)
  then show ?case using drop_window_ok [OF 2(2)] by simp
qed

lemma prune_windows_ok:
  "windows_ok L st \<Longrightarrow>
   windows_ok L (prune_windows now b st) \<and> st_retained_window_bytes (prune_windows now b st) \<le> b"
proof -
  assume "windows_ok L st"
  then have "windows_ok L (drop_aged now (st_closed_windows st) st)" by (intro drop_aged_ok) simp
  then show ?thesis
    unfolding prune_windows_def Let_def by (intro drop_excess_ok) simp
qed


lemma close_current_window_ok:
  assumes ok: "windows_ok L st" and rows: "open_rows_ok (st_current_counters st)"
    and bound: "st_retained_window_bytes st \<le> b"
  shows "windows_ok L (close_current_window L now b st) \<and>
    st_retained_window_bytes (close_current_window L now b st) \<le> b"
proof (cases "st_current_window_start st = None \<or> st_current_counters st = []")
  case True
  with ok bound show ?thesis by (auto simp: close_current_window_def split: option.split)
next
  case False
  then obtain window_start where s: "st_current_window_start st = Some window_start" and r: "st_current_counters st \<noteq> []"
    by auto
  let ?st = "st\<lparr>st_current_counters := [],
      st_closed_windows := st_closed_windows st @
        [\<lparr>cw_id = st_next_window_id st, cw_window_start = window_start, cw_rows = st_current_counters st,
          cw_size_bytes = window_size L (st_current_counters st)\<rparr>],
      st_next_window_id := st_next_window_id st + 1,
      st_retained_window_bytes := st_retained_window_bytes st + window_size L (st_current_counters st),
      st_current_window_start := Some (minute_start now)\<rparr>"
  from ok rows r have "windows_ok L ?st"
    unfolding windows_ok_def by (auto simp: less_Suc_eq)
  from prune_windows_ok [OF this, of now b] s r show ?thesis by (simp add: close_current_window_def Let_def)
qed

lemma close_current_window_open:
  "st_current_counters (close_current_window L now b st) =
     (if st_current_window_start st = None then st_current_counters st else [])"
  "st_current_window_start (close_current_window L now b st) = None \<longleftrightarrow> st_current_window_start st = None"
  by (auto simp: close_current_window_def Let_def split: option.split)

lemma roll_window_ok:
  assumes ok: "windows_ok L st" and rows: "open_rows_ok (st_current_counters st)"
    and bound: "st_retained_window_bytes st \<le> b"
  shows "windows_ok L (roll_window L now b st) \<and> st_retained_window_bytes (roll_window L now b st) \<le> b"
  using close_current_window_ok [OF assms, of now] ok bound
  by (auto simp: roll_window_def windows_ok_def split: option.split)

lemma roll_window_open:
  "open_rows_ok (st_current_counters st) \<Longrightarrow> open_rows_ok (st_current_counters (roll_window L now b st))"
  "st_current_window_start (roll_window L now b st) \<noteq> None"
  by (auto simp: roll_window_def close_current_window_open open_rows_ok_def split: option.split)

text \<open>A counter always prints: its shape has string keys and bounded integers only.\<close>

definition counters_print :: "reporter_libs \<Rightarrow> bool" where
  "counters_print L \<longleftrightarrow> (\<forall>c. rp_counter_json L c \<noteq> None)"

lemma length_join_with: "length (join_with [d] bs) = sum_list (map length bs) + (length bs - 1)"
  by (induction "[d]" bs rule: join_with.induct) auto

lemma those_map_total: "\<forall>x. f x \<noteq> None \<Longrightarrow> those (map f xs) = Some (map (\<lambda>x. the (f x)) xs)"
  by (induction xs) (auto split: option.split)

lemma window_size_eq:
  assumes "counters_print L"
  shows "window_size L rows =
    2 + sum_list (map (\<lambda>kr. length (the (rp_counter_json L (from_row (fst kr) (snd kr) 0)))) rows) + (length rows - 1)"
proof -
  have "those (map (\<lambda>(key, row). rp_counter_json L (from_row key row 0)) rows) =
      Some (map (\<lambda>x. the (case x of (key, row) \<Rightarrow> rp_counter_json L (from_row key row 0))) rows)"
    using assms by (intro those_map_total) (auto simp: counters_print_def)
  then show ?thesis
    by (simp add: window_size_def json_array_def length_join_with o_def split_beta)
qed

lemma window_size_filter: "counters_print L \<Longrightarrow> window_size L (filter P rows) \<le> window_size L rows"
proof -
  assume L: "counters_print L"
  let ?f = "\<lambda>kr. length (the (rp_counter_json L (from_row (fst kr) (snd kr) 0)))"
  have "sum_list (map ?f (filter P rows)) \<le> sum_list (map ?f rows)" by (rule sum_list_filter_le_nat)
  with length_filter_le [of P rows] show ?thesis
    unfolding window_size_eq [OF L] by linarith
qed

lemma open_rows_ok_filter: "open_rows_ok rows \<Longrightarrow> open_rows_ok (filter P rows)"
  unfolding open_rows_ok_def
  by (intro conjI distinct_map_filter order_trans [OF length_filter_le]) blast+

lemma windows_ok_replace:
  assumes "sum_list (map cw_size_bytes ws) \<le> b" and "distinct (map cw_id ws)"
    and "\<forall>w \<in> set ws. cw_id w < st_next_window_id st \<and> cw_rows w \<noteq> [] \<and> open_rows_ok (cw_rows w) \<and>
      cw_size_bytes w = window_size L (cw_rows w)"
  shows "windows_ok L (st\<lparr>st_events := events, st_events_size_bytes := n,
      st_closed_windows := ws, st_retained_window_bytes := sum_list (map cw_size_bytes ws)\<rparr>) \<and>
    st_retained_window_bytes (st\<lparr>st_events := events, st_events_size_bytes := n,
      st_closed_windows := ws, st_retained_window_bytes := sum_list (map cw_size_bytes ws)\<rparr>) \<le> b"
  using assms unfolding windows_ok_def by simp

lemma remove_selected_ok:
  assumes L: "counters_print L" and ok: "windows_ok L st" and bound: "st_retained_window_bytes st \<le> b"
  shows "windows_ok L (remove_selected L ids refs st) \<and>
    st_retained_window_bytes (remove_selected L ids refs st) \<le> b"
proof -
  let ?f = "\<lambda>w. resized L (keep (set refs) w)"
  let ?ws = "filter (\<lambda>w. cw_rows w \<noteq> []) (map ?f (st_closed_windows st))"
  have "sum_list (map cw_size_bytes ?ws) \<le> sum_list (map cw_size_bytes (map ?f (st_closed_windows st)))"
    by (rule sum_list_filter_le_nat)
  also have "\<dots> \<le> sum_list (map cw_size_bytes (st_closed_windows st))"
    using ok window_size_filter [OF L]
    by (auto simp: windows_ok_def resized_def keep_def o_def intro!: sum_list_mono)
  finally have "sum_list (map cw_size_bytes ?ws) \<le> b" using ok bound by (simp add: windows_ok_def)
  moreover have "distinct (map cw_id ?ws)"
    using ok by (simp add: windows_ok_def distinct_map_filter o_def)
  moreover have "\<forall>w \<in> set ?ws. cw_id w < st_next_window_id st \<and> cw_rows w \<noteq> [] \<and> open_rows_ok (cw_rows w) \<and>
      cw_size_bytes w = window_size L (cw_rows w)"
  proof
    fix w assume "w \<in> set ?ws"
    then obtain v where v: "v \<in> set (st_closed_windows st)" "w = ?f v" "cw_rows (keep (set refs) v) \<noteq> []" by auto
    from ok v(1) have "cw_id v < st_next_window_id st" "open_rows_ok (cw_rows v)" by (auto simp: windows_ok_def)
    with v show "cw_id w < st_next_window_id st \<and> cw_rows w \<noteq> [] \<and> open_rows_ok (cw_rows w) \<and>
        cw_size_bytes w = window_size L (cw_rows w)"
      by (simp add: resized_def) (simp add: keep_def open_rows_ok_filter)
  qed
  ultimately show ?thesis
    unfolding remove_selected_eq [OF ok] Let_def by (intro windows_ok_replace)
qed


section \<open>The invariant of the reporter's state\<close>

definition events_ok :: "rep_state \<Rightarrow> bool" where
  "events_ok st \<longleftrightarrow>
     length (st_events st) \<le> TELEMETRY_MAX_EVENTS \<and> distinct (map bf_id (st_events st)) \<and>
     (\<forall>b \<in> set (st_events st). bf_id b < st_next_event_id st \<and> wire_event_ok (bf_wire b)) \<and>
     st_events_size_bytes st = sum_list (map bf_estimated_bytes (st_events st))"

definition pace_ok :: "rep_state \<Rightarrow> bool" where
  "pace_ok st \<longleftrightarrow>
     from_secs 60 \<le> st_backoff st \<and> st_backoff st \<le> from_secs 600 \<and> st_flush_interval st \<le> from_secs 600 \<and>
     0 \<le> st_success_sample_rate st \<and> st_success_sample_rate st \<le> 1"

definition open_ok :: "rep_state \<Rightarrow> bool" where
  "open_ok st \<longleftrightarrow>
     open_rows_ok (st_current_counters st) \<and> (st_current_window_start st = None \<longrightarrow> st_current_counters st = [])"

definition emptied :: "rep_state \<Rightarrow> bool" where
  "emptied st \<longleftrightarrow> st_events st = [] \<and> st_current_counters st = [] \<and> st_closed_windows st = []"

definition rep_inv :: "reporter_libs \<Rightarrow> nat \<Rightarrow> rep_state \<Rightarrow> bool" where
  "rep_inv L b st \<longleftrightarrow>
     events_ok st \<and> open_ok st \<and> windows_ok L st \<and> st_retained_window_bytes st \<le> b \<and> pace_ok st \<and>
     (st_disabled st \<longrightarrow> emptied st)"

lemma events_ok_rest: assumes "rest a = rest b" shows "events_ok a \<longleftrightarrow> events_ok b"
  by (simp only: events_ok_def rest_eqD [OF assms])

lemma pace_ok_rest: assumes "rest a = rest b" shows "pace_ok a \<longleftrightarrow> pace_ok b"
  by (simp only: pace_ok_def rest_eqD [OF assms])

lemma rep_inv_live: "rep_inv L b st \<Longrightarrow> \<not> st_disabled st \<Longrightarrow> rest st' = rest st \<Longrightarrow>
    open_ok st' \<Longrightarrow> windows_ok L st' \<and> st_retained_window_bytes st' \<le> b \<Longrightarrow> rep_inv L b st'"
  using events_ok_rest [of st' st] pace_ok_rest [of st' st] rest_eqD(12) [of st' st] by (simp add: rep_inv_def)

lemma rep_invD:
  assumes "rep_inv L b st"
  shows "events_ok st" "open_ok st" "open_rows_ok (st_current_counters st)" "windows_ok L st"
    "st_retained_window_bytes st \<le> b" "pace_ok st"
  using assms by (simp_all add: rep_inv_def open_ok_def)

lemma open_ok_close: "open_ok st \<Longrightarrow> open_ok (close_current_window L now b st)"
  by (auto simp: open_ok_def close_current_window_open open_rows_ok_def)

lemma open_ok_roll: "open_ok st \<Longrightarrow> open_ok (roll_window L now b st)"
  using roll_window_open(1) [of st L now b] roll_window_open(2) [of L now b st] by (auto simp: open_ok_def)

lemma rep_inv_roll: "rep_inv L b st \<Longrightarrow> \<not> st_disabled st \<Longrightarrow> rep_inv L b (roll_window L now b st)"
  by (frule rep_invD(2), frule rep_invD(3), frule rep_invD(4), frule rep_invD(5), erule rep_inv_live)
    (simp_all add: open_ok_roll roll_window_ok)

lemma rep_inv_close: "rep_inv L b st \<Longrightarrow> \<not> st_disabled st \<Longrightarrow> rep_inv L b (close_current_window L now b st)"
  by (frule rep_invD(2), frule rep_invD(3), frule rep_invD(4), frule rep_invD(5), erule rep_inv_live)
    (simp_all add: open_ok_close close_current_window_ok)

lemma rep_inv_prune: "rep_inv L b st \<Longrightarrow> \<not> st_disabled st \<Longrightarrow> rep_inv L b (prune_windows now b st)"
  by (frule rep_invD(2), frule rep_invD(4), erule rep_inv_live) (simp_all add: open_ok_def prune_windows_ok)

lemma rep_inv_merge:
  "rep_inv L b st \<Longrightarrow> \<not> st_disabled st \<Longrightarrow> st_current_window_start st \<noteq> None \<Longrightarrow> rep_inv L b (merge_counters counters st)"
proof -
  assume inv: "rep_inv L b st" and on: "\<not> st_disabled st" and start: "st_current_window_start st \<noteq> None"
  have "open_ok (merge_counters counters st)"
    using merge_all_ok [OF rep_invD(3) [OF inv], of counters] start by (auto simp: open_ok_def merge_counters_def)
  moreover have "windows_ok L (merge_counters counters st) \<and> st_retained_window_bytes (merge_counters counters st) \<le> b"
    using rep_invD(5) [OF inv] windows_ok_cong [of "merge_counters counters st" st L] rep_invD(4) [OF inv]
    by (simp add: merge_counters_def)
  ultimately show ?thesis by (rule rep_inv_live [OF inv on merge_counters_rest])
qed

lemma drop_buffered_event_ok:
  assumes ok: "events_ok st" and full: "st_events st \<noteq> []"
  shows "events_ok (drop_buffered_event st) \<and> length (st_events (drop_buffered_event st)) = length (st_events st) - 1"
proof -
  define i where "i = unwrap_or 0 (position bf_ok (st_events st))"
  have i: "i < length (st_events st)"
    using full by (cases "position bf_ok (st_events st)") (auto simp: i_def dest: position_SomeD)
  have "sum_list (map bf_estimated_bytes (remove_at i (st_events st))) =
      st_events_size_bytes st - bf_estimated_bytes (st_events st ! i)"
    using sum_list_remove_at [OF i, of bf_estimated_bytes] ok by (simp add: events_ok_def)
  with ok i set_remove_at [of i "st_events st"] show ?thesis
    unfolding drop_buffered_event_def Let_def i_def [symmetric]
    by (auto simp: events_ok_def map_remove_at)
qed

lemma drop_buffered_event_fields [simp]:
  "st_current_counters (drop_buffered_event st) = st_current_counters st"
  "st_current_window_start (drop_buffered_event st) = st_current_window_start st"
  "st_closed_windows (drop_buffered_event st) = st_closed_windows st"
  "st_next_window_id (drop_buffered_event st) = st_next_window_id st"
  "st_retained_window_bytes (drop_buffered_event st) = st_retained_window_bytes st"
  "st_next_event_id (drop_buffered_event st) = st_next_event_id st"
  "st_disabled (drop_buffered_event st) = st_disabled st" "st_closed (drop_buffered_event st) = st_closed st"
  "st_backoff (drop_buffered_event st) = st_backoff st"
  "st_flush_interval (drop_buffered_event st) = st_flush_interval st"
  "st_success_sample_rate (drop_buffered_event st) = st_success_sample_rate st"
  "st_backoff_until (drop_buffered_event st) = st_backoff_until st"
  "st_paused_until (drop_buffered_event st) = st_paused_until st"
  "st_worker_started (drop_buffered_event st) = st_worker_started st"
  by (simp_all add: drop_buffered_event_def Let_def)

lemma drop_buffered_event_subset: "set (st_events (drop_buffered_event st)) \<subseteq> set (st_events st)"
  by (auto simp: drop_buffered_event_def Let_def dest: subsetD [OF set_remove_at])

lemma append_event_ok: "events_ok st \<Longrightarrow> wire_event_ok wire \<Longrightarrow> events_ok (append_event L wire now st)"
proof -
  assume ok: "events_ok st" and wire: "wire_event_ok wire"
  let ?full = "TELEMETRY_MAX_EVENTS \<le> length (st_events st)"
  define st1 where "st1 = (if ?full then drop_buffered_event st else st)"
  have "events_ok st1 \<and> length (st_events st1) < TELEMETRY_MAX_EVENTS"
  proof (cases ?full)
    case True
    then have "st_events st \<noteq> []" by (auto simp: TELEMETRY_MAX_EVENTS_def)
    from drop_buffered_event_ok [OF ok this] ok True this show ?thesis
      by (cases "st_events st") (auto simp: st1_def events_ok_def [of st])
  next
    case False
    with ok show ?thesis by (simp add: st1_def)
  qed
  then show ?thesis
    using wire unfolding append_event_def Let_def st1_def [symmetric]
    by (auto simp: events_ok_def less_Suc_eq)
qed

lemma append_event_fields [simp]:
  "st_current_counters (append_event L wire now st) = st_current_counters st"
  "st_current_window_start (append_event L wire now st) = st_current_window_start st"
  "st_closed_windows (append_event L wire now st) = st_closed_windows st"
  "st_next_window_id (append_event L wire now st) = st_next_window_id st"
  "st_retained_window_bytes (append_event L wire now st) = st_retained_window_bytes st"
  "st_disabled (append_event L wire now st) = st_disabled st" "st_closed (append_event L wire now st) = st_closed st"
  "st_backoff (append_event L wire now st) = st_backoff st"
  "st_flush_interval (append_event L wire now st) = st_flush_interval st"
  "st_success_sample_rate (append_event L wire now st) = st_success_sample_rate st"
  "st_backoff_until (append_event L wire now st) = st_backoff_until st"
  "st_paused_until (append_event L wire now st) = st_paused_until st"
  "st_worker_started (append_event L wire now st) = st_worker_started st"
  "st_next_event_id (append_event L wire now st) = Suc (st_next_event_id st)"
  by (simp_all add: append_event_def Let_def)


lemma rep_inv_cong:
  assumes "rep_inv L b st"
    and "st_events st' = st_events st" "st_next_event_id st' = st_next_event_id st"
    "st_events_size_bytes st' = st_events_size_bytes st"
    "st_current_counters st' = st_current_counters st"
    "st_current_window_start st' = st_current_window_start st"
    "st_closed_windows st' = st_closed_windows st" "st_next_window_id st' = st_next_window_id st"
    "st_retained_window_bytes st' = st_retained_window_bytes st"
    "pace_ok st'" "st_disabled st' = st_disabled st"
  shows "rep_inv L b st'"
  using assms(1,10) unfolding rep_inv_def events_ok_def open_ok_def emptied_def windows_ok_def assms(2-9,11) by blast

lemma rep_inv_append:
  assumes inv: "rep_inv L b st" and on: "\<not> st_disabled st" and wire: "wire_event_ok wire"
  shows "rep_inv L b (append_event L wire now st)"
  using append_event_ok [OF rep_invD(1) [OF inv] wire, of L now] rep_invD [OF inv] on
    windows_ok_cong [of "append_event L wire now st" st L]
  by (simp add: rep_inv_def open_ok_def pace_ok_def)

lemma rep_inv_on_request:
  assumes inv: "rep_inv L b st"
  shows "rep_inv L b (on_request L b now draw runtime ev counters st)"
proof (cases "st_disabled st \<or> st_closed st")
  case True
  with inv show ?thesis by (simp add: on_request_def Let_def)
next
  case False
  define sampled where
    "sampled = Option.bind (choose_sample draw ev (st_success_sample_rate st)) (\<lambda>(reason, rate). from_event ev reason rate)"
  define st1 where "st1 = merge_counters counters (roll_window L now b st)"
  define st2 where
    "st2 = (if choose_sample draw ev (st_success_sample_rate st) \<noteq> None \<and> sampled = None
            then st1\<lparr>st_dropped_since_last := saturating_add (st_dropped_since_last st1) 1\<rparr> else st1)"
  define st3 where "st3 = (case sampled of None \<Rightarrow> st2 | Some wire \<Rightarrow> append_event L wire now st2)"
  define st4 where "st4 = start_worker now runtime st3"
  from False have on: "\<not> st_disabled st1" by (simp add: st1_def)
  have i1: "rep_inv L b st1"
    unfolding st1_def using False by (intro rep_inv_merge rep_inv_roll inv roll_window_open) simp_all
  then have i2: "rep_inv L b st2"
    by (rule rep_inv_cong) (simp_all add: st2_def rep_invD(6) [OF i1, unfolded pace_ok_def] pace_ok_def)
  have "\<not> st_disabled st2" using on by (simp add: st2_def)
  moreover have "sampled = Some wire \<Longrightarrow> wire_event_ok wire" for wire
    by (auto simp: sampled_def from_event_ok bind_eq_Some_conv)
  ultimately have i3: "rep_inv L b st3" using i2 by (simp add: st3_def rep_inv_append split: option.split)
  then have i4: "rep_inv L b st4"
    by (rule rep_inv_cong) (use rep_invD(6) [OF i3] in \<open>simp_all add: st4_def start_worker_def pace_ok_def\<close>)
  then have "rep_inv L b (if urgent st4 then st4\<lparr>st_urgent_flush := True\<rparr> else st4)"
    by (rule rep_inv_cong) (use rep_invD(6) [OF i4] in \<open>simp_all add: pace_ok_def\<close>)
  then show ?thesis
    using False unfolding on_request_def Let_def st4_def st3_def st2_def st1_def sampled_def by simp
qed

section \<open>Delays\<close>

lemma from_secs_f64_numeral [simp]: "from_secs_f64 (numeral n) = from_secs (numeral n)"
proof -
  have "(numeral n * 1000000000 :: rat) = of_int (numeral n * 1000000000)" by simp
  then have "round (numeral n * 1000000000 :: rat) = numeral n * 1000000000" by (simp only: round_of_int)
  then show ?thesis by (simp add: from_secs_f64_def from_secs_def nat_mult_distrib)
qed

lemma from_secs_f64_mono: "s \<le> t \<Longrightarrow> from_secs_f64 s \<le> from_secs_f64 t"
  by (simp add: from_secs_f64_def nat_mono round_mono)

lemma set_backoff_fields [simp]:
  "st_events (set_backoff now r st) = st_events st" "st_next_event_id (set_backoff now r st) = st_next_event_id st"
  "st_events_size_bytes (set_backoff now r st) = st_events_size_bytes st"
  "st_current_counters (set_backoff now r st) = st_current_counters st"
  "st_current_window_start (set_backoff now r st) = st_current_window_start st"
  "st_closed_windows (set_backoff now r st) = st_closed_windows st"
  "st_next_window_id (set_backoff now r st) = st_next_window_id st"
  "st_retained_window_bytes (set_backoff now r st) = st_retained_window_bytes st"
  "st_disabled (set_backoff now r st) = st_disabled st" "st_closed (set_backoff now r st) = st_closed st"
  "st_flush_interval (set_backoff now r st) = st_flush_interval st"
  "st_success_sample_rate (set_backoff now r st) = st_success_sample_rate st"
  "st_paused_until (set_backoff now r st) = st_paused_until st"
  "st_worker_started (set_backoff now r st) = st_worker_started st"
  by (simp_all add: set_backoff_def Let_def)

lemma set_backoff_delay:
  "pace_ok st \<Longrightarrow> now + from_secs 60 \<le> st_backoff_until (set_backoff now r st) \<and>
   st_backoff_until (set_backoff now r st) \<le> now + from_secs 600"
  by (auto simp: set_backoff_def Let_def pace_ok_def TELEMETRY_BACKOFF_MAX_SECONDS_def from_secs_def split: option.split)

lemma set_backoff_pace: "pace_ok st \<Longrightarrow> pace_ok (set_backoff now r st)"
  by (auto simp: pace_ok_def set_backoff_def Let_def TELEMETRY_BACKOFF_MAX_SECONDS_def
      TELEMETRY_BACKOFF_MIN_SECONDS_def from_secs_def)

lemma rep_inv_backoff: "rep_inv L b st \<Longrightarrow> rep_inv L b (set_backoff now r st)"
  by (frule rep_invD(6), erule rep_inv_cong) (simp_all add: set_backoff_pace)


text \<open>A policy only lowers the sample rate, lengthens the flush interval and moves the end of the pause
  later, each within its limit.\<close>

lemma apply_policy_fields [simp]:
  "st_events (apply_policy L p now st) = st_events st" "st_next_event_id (apply_policy L p now st) = st_next_event_id st"
  "st_events_size_bytes (apply_policy L p now st) = st_events_size_bytes st"
  "st_current_counters (apply_policy L p now st) = st_current_counters st"
  "st_current_window_start (apply_policy L p now st) = st_current_window_start st"
  "st_closed_windows (apply_policy L p now st) = st_closed_windows st"
  "st_next_window_id (apply_policy L p now st) = st_next_window_id st"
  "st_retained_window_bytes (apply_policy L p now st) = st_retained_window_bytes st"
  "st_disabled (apply_policy L p now st) = st_disabled st" "st_closed (apply_policy L p now st) = st_closed st"
  "st_backoff (apply_policy L p now st) = st_backoff st"
  "st_backoff_until (apply_policy L p now st) = st_backoff_until st"
  "st_worker_started (apply_policy L p now st) = st_worker_started st"
  by (simp_all add: apply_policy_def Let_def split: option.split)

lemma as_secs_round_trip: "from_secs_f64 (as_secs_f64 d) = d"
proof -
  have "as_secs_f64 d * 1000000000 = of_int (int d)" by (simp add: as_secs_f64_def)
  then show ?thesis by (simp only: from_secs_f64_def round_of_int nat_int)
qed

lemma apply_policy_rate:
  "0 \<le> st_success_sample_rate st \<Longrightarrow>
   0 \<le> st_success_sample_rate (apply_policy L p now st) \<and>
   st_success_sample_rate (apply_policy L p now st) \<le> st_success_sample_rate st"
  by (simp add: apply_policy_def Let_def split: option.split)

lemma apply_policy_interval:
  "st_flush_interval st \<le> from_secs 600 \<Longrightarrow>
   st_flush_interval st \<le> st_flush_interval (apply_policy L p now st) \<and>
   st_flush_interval (apply_policy L p now st) \<le> from_secs 600"
proof -
  assume bound: "st_flush_interval st \<le> from_secs 600"
  have max: "TELEMETRY_BACKOFF_MAX_SECONDS = 600" by (simp add: TELEMETRY_BACKOFF_MAX_SECONDS_def)
  have upper: "from_secs_f64 (min s 600) \<le> from_secs 600" for s
    using from_secs_f64_mono [of "min s 600" 600] by simp
  have lower: "st_flush_interval st \<le> from_secs_f64 (min s 600)" if "as_secs_f64 (st_flush_interval st) < s" for s
  proof (cases "s \<le> 600")
    case True
    with that from_secs_f64_mono [of "as_secs_f64 (st_flush_interval st)" s] show ?thesis
      by (simp add: as_secs_round_trip)
  qed (use bound in simp)
  show ?thesis
    using bound upper lower by (simp add: apply_policy_def Let_def max split: option.split)
qed

lemma apply_policy_pause:
  "st_paused_until st \<le> st_paused_until (apply_policy L p now st) \<and>
   st_paused_until (apply_policy L p now st) \<le> max (st_paused_until st) (now + from_secs 86400)"
proof -
  have "s \<le> MAX_PAUSE_SECONDS \<Longrightarrow> from_secs_f64 s \<le> from_secs 86400" for s
    using from_secs_f64_mono [of s 86400] by (simp add: MAX_PAUSE_SECONDS_def)
  moreover have "st_paused_until (apply_policy L p now st) =
      (case policy_value L ''pause_seconds'' p of
         Some s \<Rightarrow> if 0 \<le> s \<and> s \<le> MAX_PAUSE_SECONDS then max (st_paused_until st) (now + from_secs_f64 s)
                  else st_paused_until st
       | None \<Rightarrow> st_paused_until st)"
    by (simp add: apply_policy_def Let_def split: option.split)
  ultimately show ?thesis
    by (cases "policy_value L ''pause_seconds'' p") (simp_all add: max.coboundedI2)
qed

lemma apply_policy_pace: "pace_ok st \<Longrightarrow> pace_ok (apply_policy L p now st)"
  using apply_policy_rate [of st L p now] apply_policy_interval [of st L p now] by (auto simp: pace_ok_def)

lemma rep_inv_policy: "rep_inv L b st \<Longrightarrow> rep_inv L b (apply_policy L p now st)"
  by (frule rep_invD(6), erule rep_inv_cong) (simp_all add: apply_policy_pace)

section \<open>Answers\<close>

lemma rep_inv_disable: "rep_inv L b st \<Longrightarrow> rep_inv L b (disable st)"
  by (simp add: rep_inv_def disable_def events_ok_def open_ok_def open_rows_ok_def windows_ok_def pace_ok_def emptied_def)

lemma remove_selected_events:
  "st_events (remove_selected L ids refs st) = filter (\<lambda>e. bf_id e \<notin> set ids) (st_events st)"
  "st_events_size_bytes (remove_selected L ids refs st) =
     sum_list (map bf_estimated_bytes (filter (\<lambda>e. bf_id e \<notin> set ids) (st_events st)))"
  by (simp_all add: remove_selected_def Let_def split_beta)

lemma remove_selected_fields [simp]:
  "st_next_event_id (remove_selected L ids refs st) = st_next_event_id st"
  "st_current_counters (remove_selected L ids refs st) = st_current_counters st"
  "st_current_window_start (remove_selected L ids refs st) = st_current_window_start st"
  "st_next_window_id (remove_selected L ids refs st) = st_next_window_id st"
  "st_disabled (remove_selected L ids refs st) = st_disabled st" "st_closed (remove_selected L ids refs st) = st_closed st"
  "st_backoff (remove_selected L ids refs st) = st_backoff st"
  "st_flush_interval (remove_selected L ids refs st) = st_flush_interval st"
  "st_success_sample_rate (remove_selected L ids refs st) = st_success_sample_rate st"
  "st_backoff_until (remove_selected L ids refs st) = st_backoff_until st"
  "st_paused_until (remove_selected L ids refs st) = st_paused_until st"
  "st_worker_started (remove_selected L ids refs st) = st_worker_started st"
  by (simp_all add: remove_selected_def Let_def split_beta)

lemma length_filter_bound: "length xs \<le> n \<Longrightarrow> length (filter P xs) \<le> n"
  using length_filter_le order_trans by blast

lemma remove_selected_events_ok: "events_ok st \<Longrightarrow> events_ok (remove_selected L ids refs st)"
  by (auto simp: events_ok_def remove_selected_events distinct_map_filter length_filter_bound)

lemma rep_inv_remove:
  assumes L: "counters_print L" and inv: "rep_inv L b st"
  shows "rep_inv L b (remove_selected L ids refs st)"
proof -
  have "emptied (remove_selected L ids refs st)" if "emptied st"
    using that remove_selected_eq [OF rep_invD(4) [OF inv], of ids refs]
    by (simp add: emptied_def remove_selected_events Let_def)
  with remove_selected_ok [OF L rep_invD(4,5) [OF inv], of ids refs] inv
    remove_selected_events_ok [OF rep_invD(1) [OF inv], of L ids refs]
  show ?thesis by (simp add: rep_inv_def open_ok_def pace_ok_def)
qed

lemma rep_inv_handle:
  assumes L: "counters_print L" and inv: "rep_inv L b st"
  shows "rep_inv L b (handle_response L H status headers body now sel st)"
proof -
  let ?st = "remove_selected L (sl_event_ids sel) (sl_counter_refs sel) st"
  have r: "rep_inv L b ?st" by (rule rep_inv_remove [OF L inv])
  have accepted: "rep_inv L b (?st\<lparr>st_dropped_since_last := d,
      st_backoff := from_secs_f64 TELEMETRY_BACKOFF_MIN_SECONDS, st_backoff_until := 0\<rparr>)" for d
    by (rule rep_inv_cong [OF r])
      (use rep_invD(6) [OF r] in \<open>simp_all add: pace_ok_def TELEMETRY_BACKOFF_MIN_SECONDS_def from_secs_def\<close>)
  have refused: "rep_inv L b (?st\<lparr>st_dropped_since_last := d\<rparr>)" for d
    by (rule rep_inv_cong [OF r]) (use rep_invD(6) [OF r] in \<open>simp_all add: pace_ok_def\<close>)
  show ?thesis
    unfolding handle_response_def Let_def
    using rep_inv_disable [OF inv] accepted refused rep_inv_backoff [OF inv] rep_inv_policy [OF accepted]
    by (auto split: option.split)
qed


section \<open>Selecting a batch\<close>

lemma take_butlast_le: "n \<le> length xs - 1 \<Longrightarrow> take n (butlast xs) = take n xs"
  by (simp add: butlast_conv_take min_def)

lemma trim_batch_SomeD:
  "trim_batch L batch ids refs d = Some sel \<Longrightarrow>
   length ids = length (wb_events batch) \<Longrightarrow> length refs = length (wb_counters batch) \<Longrightarrow>
   \<exists>n m body. sel = \<lparr>sl_body = body, sl_event_ids = take n ids, sl_counter_refs = take m refs, sl_dropped = d\<rparr> \<and>
     rp_batch_json L (batch\<lparr>wb_events := take n (wb_events batch), wb_counters := take m (wb_counters batch)\<rparr>) =
       Some body \<and>
     length body \<le> MAX_BATCH_BYTES \<and> n \<le> length ids \<and> m \<le> length refs"
proof (induction L batch ids refs d rule: trim_batch.induct)
  case (1 L batch ids refs d)
  from 1(3) obtain body where body: "rp_batch_json L batch = Some body"
    by (cases "rp_batch_json L batch") (simp_all add: trim_batch.simps [of L batch])
  show ?case
  proof (cases "length body \<le> MAX_BATCH_BYTES")
    case True
    with 1(3) body have "sel = \<lparr>sl_body = body, sl_event_ids = ids, sl_counter_refs = refs, sl_dropped = d\<rparr>"
      by (simp add: trim_batch.simps [of L batch])
    with True body 1(4,5) show ?thesis
      by (intro exI [of _ "length ids"] exI [of _ "length refs"] exI [of _ body]) simp
  next
    case big: False
    show ?thesis
    proof (cases "wb_events batch = []")
      case False
      with big body 1(3) have "trim_batch L (batch\<lparr>wb_events := butlast (wb_events batch)\<rparr>) (butlast ids) refs d = Some sel"
        by (simp add: trim_batch.simps [of L batch])
      from 1(1) [OF body big False this] 1(4,5) obtain n m body' where
        "sel = \<lparr>sl_body = body', sl_event_ids = take n (butlast ids), sl_counter_refs = take m refs, sl_dropped = d\<rparr>"
        "rp_batch_json L (batch\<lparr>wb_events := take n (butlast (wb_events batch)), wb_counters := take m (wb_counters batch)\<rparr>) =
           Some body'" "length body' \<le> MAX_BATCH_BYTES" "n \<le> length ids - 1" "m \<le> length refs"
        by auto
      with 1(4) show ?thesis
        by (intro exI [of _ n] exI [of _ m] exI [of _ body']) (simp add: take_butlast_le)
    next
      case none: True
      with big body 1(3) have "wb_counters batch \<noteq> []" by (auto simp: trim_batch.simps [of L batch])
      with none big body 1(3)
      have "trim_batch L (batch\<lparr>wb_counters := butlast (wb_counters batch)\<rparr>) ids (butlast refs) d = Some sel"
        by (simp add: trim_batch.simps [of L batch])
      from 1(2) [OF body big _ \<open>wb_counters batch \<noteq> []\<close> this] none 1(4,5) obtain n m body' where
        "sel = \<lparr>sl_body = body', sl_event_ids = take n ids, sl_counter_refs = take m (butlast refs), sl_dropped = d\<rparr>"
        "rp_batch_json L (batch\<lparr>wb_events := take n (wb_events batch), wb_counters := take m (butlast (wb_counters batch))\<rparr>) =
           Some body'" "length body' \<le> MAX_BATCH_BYTES" "n \<le> length ids" "m \<le> length refs - 1"
        by auto
      with 1(5) show ?thesis
        by (intro exI [of _ n] exI [of _ m] exI [of _ body']) (simp add: take_butlast_le)
    qed
  qed
qed

text \<open>The trimmed selection exists whenever every batch prints and the empty batch fits.\<close>

lemma trim_batch_total:
  assumes "\<And>batch. rp_batch_json L batch \<noteq> None"
    and "\<And>body. rp_batch_json L (batch\<lparr>wb_events := [], wb_counters := []\<rparr>) = Some body \<Longrightarrow> length body \<le> MAX_BATCH_BYTES"
  shows "trim_batch L batch ids refs d \<noteq> None"
  using assms
proof (induction L batch ids refs d rule: trim_batch.induct)
  case (1 L batch ids refs d)
  obtain body where body: "rp_batch_json L batch = Some body" using 1(3) [of batch] by auto
  show ?case
  proof (cases "length body \<le> MAX_BATCH_BYTES")
    case big: False
    have "wb_events batch \<noteq> [] \<or> wb_counters batch \<noteq> []"
    proof (rule ccontr)
      assume "\<not> ?thesis"
      then have "batch\<lparr>wb_events := [], wb_counters := []\<rparr> = batch" by simp
      with 1(4) [of body] body big show False by simp
    qed
    with 1 body big show ?thesis by (auto simp: trim_batch.simps [of L batch])
  qed (simp add: trim_batch.simps [of L batch] body)
qed

definition prepared :: "reporter_libs \<Rightarrow> duration \<Rightarrow> nat \<Rightarrow> rep_state \<Rightarrow> rep_state" where
  "prepared L now b st = prune_windows now b (close_current_window L now b (roll_window L now b st))"

lemma prepared_rest [simp]: "rest (prepared L now b st) = rest st"
  by (simp add: prepared_def)

lemmas prepared_fields [simp] = rest_eqD [OF prepared_rest]

lemma rep_inv_prepared: "rep_inv L b st \<Longrightarrow> \<not> st_disabled st \<Longrightarrow> rep_inv L b (prepared L now b st)"
  unfolding prepared_def by (intro rep_inv_prune rep_inv_close rep_inv_roll) simp_all

definition row_refs :: "counter_window list \<Rightarrow> (nat \<times> counter_key) list" where
  "row_refs ws = concat (map (\<lambda>w. map (\<lambda>kr. (cw_id w, fst kr)) (cw_rows w)) ws)"

lemma waiting_rows_refs: "map fst (waiting_rows now ws) = row_refs ws"
  by (simp add: waiting_rows_def row_refs_def map_concat o_def split_beta)

lemma select_batch_state:
  "\<exists>s. snd (select_batch L now b sdk token sent st) = (prepared L now b st)\<lparr>st_seq := s\<rparr>"
proof -
  have "snd (select_batch L now b sdk token sent st) =
      (prepared L now b st)\<lparr>st_seq := st_seq (snd (select_batch L now b sdk token sent st))\<rparr>"
    by (simp add: select_batch_def prepared_def Let_def)
  then show ?thesis by blast
qed

lemma select_batch_SomeD:
  assumes "select_batch L now b sdk token sent st = (Some sel, st')"
  shows "\<exists>n m batch. n \<le> TELEMETRY_MAX_BATCH_EVENTS \<and> m \<le> TELEMETRY_MAX_BATCH_COUNTERS \<and>
    sl_event_ids sel = take n (map bf_id (st_events st)) \<and>
    sl_counter_refs sel = take m (row_refs (st_closed_windows (prepared L now b st))) \<and>
    rp_batch_json L batch = Some (sl_body sel) \<and> length (sl_body sel) \<le> MAX_BATCH_BYTES \<and>
    batch = (batch_new sent token (st_instance_id st) (st_seq st) sdk)
      \<lparr>wb_dropped_since_last := sl_dropped sel,
       wb_events := map (\<lambda>e. aged (millis (now - bf_completed_at e)) (bf_wire e)) (take n (st_events st)),
       wb_counters := map snd (take m (waiting_rows now (st_closed_windows (prepared L now b st))))\<rparr>"
proof -
  let ?st = "prepared L now b st"
  let ?taken = "take TELEMETRY_MAX_BATCH_EVENTS (st_events st)"
  let ?rows = "take TELEMETRY_MAX_BATCH_COUNTERS (waiting_rows now (st_closed_windows ?st))"
  let ?batch = "(batch_new sent token (st_instance_id st) (st_seq st) sdk)
      \<lparr>wb_dropped_since_last := st_dropped_since_last ?st,
       wb_events := map (\<lambda>e. aged (millis (now - bf_completed_at e)) (bf_wire e)) ?taken,
       wb_counters := map snd ?rows\<rparr>"
  from assms have
    t: "trim_batch L ?batch (map bf_id ?taken) (map fst ?rows) (st_dropped_since_last ?st) = Some sel"
    by (auto simp: select_batch_def prepared_def [symmetric] Let_def split: if_splits)
  from trim_batch_SomeD [OF t] obtain n m where
    "sl_event_ids sel = take n (map bf_id ?taken)" "sl_counter_refs sel = take m (map fst ?rows)"
    "rp_batch_json L (?batch\<lparr>wb_events := take n (wb_events ?batch), wb_counters := take m (wb_counters ?batch)\<rparr>) =
       Some (sl_body sel)" "sl_dropped sel = st_dropped_since_last ?st"
    "length (sl_body sel) \<le> MAX_BATCH_BYTES" by auto
  then show ?thesis
    by (intro exI [of _ "min n TELEMETRY_MAX_BATCH_EVENTS"] exI [of _ "min m TELEMETRY_MAX_BATCH_COUNTERS"] exI conjI)
      (simp_all add: waiting_rows_refs [symmetric, of _ now] take_map)
qed

text \<open>A batch within the schema.\<close>

definition batch_ok :: "wire_batch \<Rightarrow> bool" where
  "batch_ok batch \<longleftrightarrow>
     wb_schema_version batch = 1 \<and> \<not> wb_synthetic batch \<and>
     length (wb_events batch) \<le> 100 \<and> list_all wire_event_ok (wb_events batch) \<and>
     length (wb_counters batch) \<le> 200 \<and> list_all wire_counter_ok (wb_counters batch)"

lemma select_batch_in_schema:
  assumes s: "select_batch L now b sdk token sent st = (Some sel, st')" and ok: "events_ok st"
  shows "\<exists>batch. rp_batch_json L batch = Some (sl_body sel) \<and> batch_ok batch \<and>
    length (wb_events batch) = length (sl_event_ids sel) \<and> length (wb_counters batch) = length (sl_counter_refs sel)"
proof -
  from select_batch_SomeD [OF s] obtain n m batch where
    n: "n \<le> TELEMETRY_MAX_BATCH_EVENTS" "m \<le> TELEMETRY_MAX_BATCH_COUNTERS"
    and sel: "sl_event_ids sel = take n (map bf_id (st_events st))"
    "sl_counter_refs sel = take m (row_refs (st_closed_windows (prepared L now b st)))"
    and j: "rp_batch_json L batch = Some (sl_body sel)"
    and batch: "batch = (batch_new sent token (st_instance_id st) (st_seq st) sdk)
      \<lparr>wb_dropped_since_last := sl_dropped sel,
       wb_events := map (\<lambda>e. aged (millis (now - bf_completed_at e)) (bf_wire e)) (take n (st_events st)),
       wb_counters := map snd (take m (waiting_rows now (st_closed_windows (prepared L now b st))))\<rparr>"
    by blast
  have "length (waiting_rows now ws) = length (row_refs ws)" for ws
    using arg_cong [OF waiting_rows_refs [of now ws], of length] by simp
  moreover have "list_all wire_counter_ok (map snd (take m (waiting_rows now ws)))" for ws
    by (auto simp: list_all_iff waiting_rows_def from_row_ok dest!: in_set_takeD)
  moreover have "list_all wire_event_ok (map (\<lambda>e. aged (millis (now - bf_completed_at e)) (bf_wire e)) (take n (st_events st)))"
    using ok by (auto simp: list_all_iff events_ok_def aged_ok dest: in_set_takeD)
  ultimately have "batch_ok batch \<and> length (wb_events batch) = length (sl_event_ids sel) \<and>
      length (wb_counters batch) = length (sl_counter_refs sel)"
    using n sel unfolding batch
    by (auto simp: batch_ok_def batch_new_def TELEMETRY_SCHEMA_VERSION_def TELEMETRY_MAX_BATCH_EVENTS_def
        TELEMETRY_MAX_BATCH_COUNTERS_def list_all_iff dest: in_set_takeD)
  with j show ?thesis by blast
qed

end
