(* ===== verification/TR_Delivery.thy ===== *)
theory TR_Delivery
  imports TR_Beacon
begin

text \<open>
  Runs of the beacon reporter. Recording calls, the turns of the worker, the flushes of the worker and
  of the closing thread, the answers of the server and failed sends interleave in any order. One step is
  one critical section of \<open>telemetry/reporter.rs\<close>; the flush lock is held while a selection is in flight,
  so a flush begins only when none is. Dropping the runtime cancels the worker at any point and loses
  its request. Every property holds of every sequence of steps.
\<close>

section \<open>The system\<close>

datatype flusher = ByWorker | ByCloser

datatype worker_phase = WkNone | WkRunning | WkFlushing | WkSending | WkSettling | WkStopped

record rep_sys =
  sy_state :: rep_state
  sy_flight :: "(flusher \<times> selected) option"
  sy_worker :: worker_phase
  sy_closing :: "duration option"

datatype rep_op =
  Record duration rat bool request_event counter_rows
  | WorkerTurn duration bool
  | FlushBegin flusher duration string nat
  | SendFailed duration
  | Answered duration nat header_map string
  | WorkerSettle duration
  | WorkerCancelled
  | CloseCall duration bool

datatype 'u rep_effect = Posted "'u beacon_request" | Accepted selected

definition may_begin :: "flusher \<Rightarrow> rep_sys \<Rightarrow> bool" where
  "may_begin who sy \<longleftrightarrow>
     sy_flight sy = None \<and>
     (case who of ByWorker \<Rightarrow> sy_worker sy = WkFlushing | ByCloser \<Rightarrow> sy_closing sy \<noteq> None)"

definition after_begin :: "flusher \<Rightarrow> worker_phase \<Rightarrow> rep_sys \<Rightarrow> rep_sys" where
  "after_begin who phase sy =
     (case who of ByWorker \<Rightarrow> sy\<lparr>sy_worker := phase\<rparr> | ByCloser \<Rightarrow> sy\<lparr>sy_closing := None\<rparr>)"

definition after_flight :: "flusher \<Rightarrow> rep_sys \<Rightarrow> rep_sys" where
  "after_flight who sy =
     (case who of ByWorker \<Rightarrow> sy\<lparr>sy_flight := None, sy_worker := WkSettling\<rparr> | ByCloser \<Rightarrow> sy\<lparr>sy_flight := None\<rparr>)"

fun rep_step ::
    "reporter_libs \<Rightarrow> http_api \<Rightarrow> build_env \<Rightarrow> 'u reporter_inner \<Rightarrow> rep_op \<Rightarrow> rep_sys \<Rightarrow>
     rep_sys \<times> 'u rep_effect option" where
  "rep_step L H B I (Record now draw runtime ev counters) sy =
     (let st = on_request L (in_retention_bytes I) now draw runtime ev counters (sy_state sy)
      in (sy\<lparr>sy_state := st,
             sy_worker := (if st_worker_started st \<and> \<not> st_worker_started (sy_state sy) then WkRunning
                           else sy_worker sy)\<rparr>, None))"
| "rep_step L H B I (WorkerTurn now http) sy =
     (if sy_worker sy = WkRunning
      then (let (turn, st) = worker_decide now (sy_state sy)
            in case turn of
                 TurnStop \<Rightarrow> (sy\<lparr>sy_worker := WkStopped\<rparr>, None)
               | TurnWait _ \<Rightarrow> (sy\<lparr>sy_state := st\<rparr>, None)
               | TurnFlush \<Rightarrow>
                   if http then (sy\<lparr>sy_state := st, sy_worker := WkFlushing\<rparr>, None)
                   else (sy\<lparr>sy_state := set_backoff now None st, sy_worker := WkSettling\<rparr>, None))
      else (sy, None))"
| "rep_step L H B I (FlushBegin who now token sent_at_ms) sy =
     (if may_begin who sy
      then (let timeout = (case who of ByWorker \<Rightarrow> None | ByCloser \<Rightarrow> sy_closing sy);
                (begun, st) = flush_begin L B I now token sent_at_ms timeout (sy_state sy)
            in case begun of
                 None \<Rightarrow> (after_begin who WkSettling (sy\<lparr>sy_state := st\<rparr>), None)
               | Some (request, sel) \<Rightarrow>
                   (after_begin who WkSending (sy\<lparr>sy_state := st, sy_flight := Some (who, sel)\<rparr>), Some (Posted request)))
      else (sy, None))"
| "rep_step L H B I (SendFailed now) sy =
     (case sy_flight sy of
        None \<Rightarrow> (sy, None)
      | Some (who, sel) \<Rightarrow> (after_flight who (sy\<lparr>sy_state := set_backoff now None (sy_state sy)\<rparr>), None))"
| "rep_step L H B I (Answered now status headers body) sy =
     (case sy_flight sy of
        None \<Rightarrow> (sy, None)
      | Some (who, sel) \<Rightarrow>
          (after_flight who (sy\<lparr>sy_state := handle_response L H status headers body now sel (sy_state sy)\<rparr>),
           if status = 202 then Some (Accepted sel) else None))"
| "rep_step L H B I (WorkerSettle now) sy =
     (if sy_worker sy = WkSettling
      then (sy\<lparr>sy_state := worker_settle now (sy_state sy), sy_worker := WkRunning\<rparr>, None)
      else (sy, None))"
| "rep_step L H B I WorkerCancelled sy =
     (if sy_worker sy = WkNone then (sy, None)
      else (sy\<lparr>sy_worker := WkStopped,
               sy_flight := opt_filter (\<lambda>(who, _). who = ByCloser) (sy_flight sy)\<rparr>, None))"
| "rep_step L H B I (CloseCall timeout spawned) sy =
     (case close_begin (sy_state sy) of
        None \<Rightarrow> (sy, None)
      | Some st \<Rightarrow> (sy\<lparr>sy_state := st, sy_closing := (if spawned then Some timeout else None)\<rparr>, None))"

definition sys_new :: "rep_state \<Rightarrow> rep_sys" where
  "sys_new st = \<lparr>sy_state = st, sy_flight = None, sy_worker = WkNone, sy_closing = None\<rparr>"

definition posted :: "'u rep_effect list \<Rightarrow> 'u beacon_request list" where
  "posted es = concat (map (\<lambda>e. case e of Posted r \<Rightarrow> [r] | Accepted _ \<Rightarrow> []) es)"

fun accepted_events :: "'u rep_effect \<Rightarrow> nat list" where
  "accepted_events (Posted _) = []"
| "accepted_events (Accepted sel) = sl_event_ids sel"

fun accepted_rows :: "'u rep_effect \<Rightarrow> (nat \<times> counter_key) list" where
  "accepted_rows (Posted _) = []"
| "accepted_rows (Accepted sel) = sl_counter_refs sel"

section \<open>The invariant of the system\<close>

definition flight_ok :: "rep_sys \<Rightarrow> bool" where
  "flight_ok sy \<longleftrightarrow>
     (case sy_flight sy of
        None \<Rightarrow> True
      | Some (who, sel) \<Rightarrow>
          distinct (sl_event_ids sel) \<and> (\<forall>i \<in> set (sl_event_ids sel). i < st_next_event_id (sy_state sy)) \<and>
          distinct (sl_counter_refs sel) \<and>
          (\<forall>r \<in> set (sl_counter_refs sel). fst r < st_next_window_id (sy_state sy)) \<and>
          \<not> st_disabled (sy_state sy) \<and> (who = ByWorker \<longrightarrow> sy_worker sy = WkSending))"

definition sys_inv :: "reporter_libs \<Rightarrow> nat \<Rightarrow> rep_sys \<Rightarrow> bool" where
  "sys_inv L b sy \<longleftrightarrow>
     counters_print L \<and> rep_inv L b (sy_state sy) \<and> flight_ok sy \<and>
     (sy_worker sy \<noteq> WkNone \<longrightarrow> st_worker_started (sy_state sy))"


text \<open>Identifiers only grow: what an operation adds to the buffers is new.\<close>

definition event_ids_of :: "rep_state \<Rightarrow> nat set" where
  "event_ids_of st = bf_id ` set (st_events st)"

definition row_refs_of :: "rep_state \<Rightarrow> (nat \<times> counter_key) set" where
  "row_refs_of st = set (row_refs (st_closed_windows st))"

definition grows :: "rep_state \<Rightarrow> rep_state \<Rightarrow> bool" where
  "grows st st' \<longleftrightarrow>
     st_next_event_id st \<le> st_next_event_id st' \<and> st_next_window_id st \<le> st_next_window_id st' \<and>
     event_ids_of st' \<subseteq> event_ids_of st \<union> {i. st_next_event_id st \<le> i} \<and>
     row_refs_of st' \<subseteq> row_refs_of st \<union> {r. st_next_window_id st \<le> fst r}"

lemma grows_refl [simp]: "grows st st"
  by (simp add: grows_def)

lemma grows_trans: "grows a b \<Longrightarrow> grows b c \<Longrightarrow> grows a c"
  unfolding grows_def by (intro conjI) (auto dest!: subsetD)

lemma grows_same:
  "st_events st' = st_events st \<Longrightarrow> st_next_event_id st' = st_next_event_id st \<Longrightarrow>
   st_closed_windows st' = st_closed_windows st \<Longrightarrow> st_next_window_id st' = st_next_window_id st \<Longrightarrow> grows st st'"
  by (simp add: grows_def event_ids_of_def row_refs_of_def)

lemma row_refs_Cons: "set (row_refs (w # ws)) = (\<lambda>kr. (cw_id w, fst kr)) ` set (cw_rows w) \<union> set (row_refs ws)"
  by (simp add: row_refs_def)

lemma row_refs_append: "set (row_refs (vs @ ws)) = set (row_refs vs) \<union> set (row_refs ws)"
  by (simp add: row_refs_def)

lemma drop_aged_refs: "row_refs_of (drop_aged now ws st) \<subseteq> set (row_refs ws)"
  by (induction now ws st rule: drop_aged.induct) (auto simp: row_refs_of_def row_refs_Cons)

lemma drop_excess_refs: "row_refs_of (drop_excess b ws st) \<subseteq> set (row_refs ws)"
  by (induction b ws st rule: drop_excess.induct) (auto simp: row_refs_of_def row_refs_Cons)

lemma prune_refs: "row_refs_of (prune_windows now b st) \<subseteq> row_refs_of st"
  using drop_excess_refs [of b] drop_aged_refs [of now "st_closed_windows st" st]
  unfolding prune_windows_def Let_def row_refs_of_def by blast

lemma grows_prune: "grows st (prune_windows now b st)"
  using prune_refs [of now b st] by (auto simp: grows_def event_ids_of_def)

lemma grows_close: "grows st (close_current_window L now b st)"
proof (cases "st_current_window_start st")
  case (Some window_start)
  show ?thesis
  proof (cases "st_current_counters st = []")
    case False
    let ?st = "st\<lparr>st_current_counters := [],
        st_closed_windows := st_closed_windows st @
          [\<lparr>cw_id = st_next_window_id st, cw_window_start = window_start, cw_rows = st_current_counters st,
            cw_size_bytes = window_size L (st_current_counters st)\<rparr>],
        st_next_window_id := st_next_window_id st + 1,
        st_retained_window_bytes := st_retained_window_bytes st + window_size L (st_current_counters st),
        st_current_window_start := Some (minute_start now)\<rparr>"
    have step: "grows st ?st"
      by (auto simp: grows_def event_ids_of_def row_refs_of_def row_refs_append row_refs_def)
    have "close_current_window L now b st = prune_windows now b ?st"
      using Some False by (simp add: close_current_window_def Let_def)
    with grows_trans [OF step grows_prune] show ?thesis by simp
  qed (simp add: Some close_current_window_def)
qed (simp add: close_current_window_def)

lemma grows_roll: "grows st (roll_window L now b st)"
proof (cases "st_current_window_start st")
  case (Some current)
  have "grows (close_current_window L now b st)
      ((close_current_window L now b st)\<lparr>st_current_window_start := Some (minute_start now)\<rparr>)"
    by (rule grows_same) simp_all
  then show ?thesis
    using Some grows_trans [OF grows_close [of st L now b]] by (simp add: roll_window_def)
qed (simp add: roll_window_def grows_same)

lemma grows_prepared: "grows st (prepared L now b st)"
  unfolding prepared_def by (rule grows_trans [OF grows_trans [OF grows_roll grows_close] grows_prune])

lemma grows_append: "grows st (append_event L wire now st)"
proof -
  define st1 where "st1 = (if TELEMETRY_MAX_EVENTS \<le> length (st_events st) then drop_buffered_event st else st)"
  have "event_ids_of st1 \<subseteq> event_ids_of st"
    using drop_buffered_event_subset [of st] by (auto simp: st1_def event_ids_of_def)
  moreover have "event_ids_of (append_event L wire now st) = insert (st_next_event_id st) (event_ids_of st1)"
    by (simp add: append_event_def Let_def st1_def event_ids_of_def)
  ultimately show ?thesis by (auto simp: grows_def row_refs_of_def)
qed

lemma grows_merge: "grows st (merge_counters counters st)"
  by (simp add: merge_counters_def grows_same)

lemma grows_on_request: "grows st (on_request L b now draw runtime ev counters st)"
proof -
  let ?s1 = "merge_counters counters (roll_window L now b st)"
  have "grows st ?s1" by (rule grows_trans [OF grows_roll grows_merge])
  then have s2: "grows st (?s1\<lparr>st_dropped_since_last := d\<rparr>)" for d
    by (rule grows_trans) (simp add: grows_same)
  have start: "grows s t \<Longrightarrow> grows s (start_worker now runtime t)" for s t
    by (erule grows_trans) (simp add: start_worker_def grows_same)
  have flag: "grows s t \<Longrightarrow> grows s (t\<lparr>st_urgent_flush := True\<rparr>)" for s t
    by (erule grows_trans) (simp add: grows_same)
  have app: "grows s t \<Longrightarrow> grows s (append_event L wire now t)" for s t wire
    using grows_trans grows_append by blast
  show ?thesis
    unfolding on_request_def Let_def
    using \<open>grows st ?s1\<close> s2 by (auto intro!: start flag app split: option.split)
qed

lemma row_refs_of_remove:
  assumes ok: "windows_ok L st"
  shows "row_refs_of (remove_selected L ids refs st) = row_refs_of st - set refs"
proof -
  have one: "(\<lambda>kr. (cw_id w, fst kr)) ` set (cw_rows (keep R w)) = (\<lambda>kr. (cw_id w, fst kr)) ` set (cw_rows w) - R"
    for R w by (force simp: keep_def)
  have "set (row_refs (filter (\<lambda>w. cw_rows w \<noteq> []) (map (\<lambda>w. resized L (keep R w)) ws))) = set (row_refs ws) - R" for R ws
  proof (induction ws)
    case (Cons w ws)
    then show ?case
      using one [of w R]
      by (cases "cw_rows (keep R w) = []") (simp_all add: row_refs_Cons Un_Diff, blast)
  qed (simp add: row_refs_def)
  then show ?thesis by (simp add: remove_selected_eq [OF ok] Let_def row_refs_of_def)
qed

lemma grows_remove: "windows_ok L st \<Longrightarrow> grows st (remove_selected L ids refs st)"
  by (auto simp: grows_def event_ids_of_def remove_selected_events row_refs_of_remove)

lemma grows_handle:
  assumes ok: "windows_ok L st"
  shows "grows st (handle_response L H status headers body now sel st)"
proof -
  let ?st = "remove_selected L (sl_event_ids sel) (sl_counter_refs sel) st"
  have r: "grows st ?st" by (rule grows_remove [OF ok])
  have "grows st (disable st)" by (auto simp: grows_def disable_def event_ids_of_def row_refs_of_def row_refs_def)
  moreover have "grows st (set_backoff now x st)" for x by (simp add: grows_same)
  moreover have a: "grows st (?st\<lparr>st_dropped_since_last := d, st_backoff := x, st_backoff_until := y\<rparr>)" for d x y
    using r by (rule grows_trans) (simp add: grows_same)
  moreover have "grows st (?st\<lparr>st_dropped_since_last := d\<rparr>)" for d
    using r by (rule grows_trans) (simp add: grows_same)
  moreover have "grows st (apply_policy L p now (?st\<lparr>st_dropped_since_last := d, st_backoff := x, st_backoff_until := y\<rparr>))"
    for p d x y using a by (rule grows_trans) (simp add: grows_same)
  ultimately show ?thesis unfolding handle_response_def Let_def by (auto split: option.split)
qed


section \<open>Every step keeps the invariant\<close>

lemma start_worker_fields [simp]:
  "st_disabled (start_worker now runtime st) = st_disabled st" "st_closed (start_worker now runtime st) = st_closed st"
  "st_backoff_until (start_worker now runtime st) = st_backoff_until st"
  "st_paused_until (start_worker now runtime st) = st_paused_until st"
  "st_worker_started st \<Longrightarrow> start_worker now runtime st = st"
  by (simp_all add: start_worker_def)

lemma on_request_fields [simp]:
  "st_disabled (on_request L b now draw runtime ev counters st) = st_disabled st"
  "st_closed (on_request L b now draw runtime ev counters st) = st_closed st"
  "st_backoff_until (on_request L b now draw runtime ev counters st) = st_backoff_until st"
  "st_paused_until (on_request L b now draw runtime ev counters st) = st_paused_until st"
  by (simp_all add: on_request_def Let_def split: option.split)

lemma on_request_started:
  "st_worker_started st \<Longrightarrow> st_worker_started (on_request L b now draw runtime ev counters st)"
  by (simp add: on_request_def Let_def start_worker_def split: option.split)

lemma on_request_gate [simp]: "gate (on_request L b now draw runtime ev counters st) = gate st"
  by (simp add: gate_def)

lemma flush_begin_state:
  "flush_begin L B I now token sent timeout st = (begun, st') \<Longrightarrow>
   st' = st \<or> \<not> st_disabled st \<and> (\<exists>s. st' = (prepared L now (in_retention_bytes I) st)\<lparr>st_seq := s\<rparr>)"
  using select_batch_state [of L now "in_retention_bytes I" "in_sdk I" token sent st]
  by (auto simp: flush_begin_def split: if_splits option.splits prod.splits)

lemma flush_begin_SomeE:
  assumes "flush_begin L B I now token sent timeout st = (Some (request, sel), st')"
  obtains api_key s n m where
    "\<not> st_disabled st" and "gate st \<le> now" and "in_api_key I = Some api_key" and "api_key \<noteq> []"
    and "request = beacon_request B I api_key timeout sel"
    and "st' = (prepared L now (in_retention_bytes I) st)\<lparr>st_seq := s\<rparr>"
    and "n \<le> TELEMETRY_MAX_BATCH_EVENTS" and "m \<le> TELEMETRY_MAX_BATCH_COUNTERS"
    and "sl_event_ids sel = take n (map bf_id (st_events st))"
    and "sl_counter_refs sel = take m (row_refs (st_closed_windows (prepared L now (in_retention_bytes I) st)))"
    and "length (sl_body sel) \<le> MAX_BATCH_BYTES"
proof -
  from assms obtain api_key where g: "\<not> st_disabled st" "gate st \<le> now"
    and k: "in_api_key I = Some api_key" "api_key \<noteq> []"
    and s: "select_batch L now (in_retention_bytes I) (in_sdk I) token sent st = (Some sel, st')"
    and r: "request = beacon_request B I api_key timeout sel"
    by (auto simp: flush_begin_def split: if_splits option.splits prod.splits)
  obtain n where st': "st' = (prepared L now (in_retention_bytes I) st)\<lparr>st_seq := n\<rparr>"
    using select_batch_state [of L now "in_retention_bytes I" "in_sdk I" token sent st] s by auto
  from select_batch_SomeD [OF s] that [OF g k r st'] show thesis by blast
qed

lemma rep_inv_seq: "rep_inv L b st \<Longrightarrow> rep_inv L b (st\<lparr>st_seq := s\<rparr>)"
  by (frule rep_invD(6), erule rep_inv_cong) (simp_all add: pace_ok_def)

lemma grows_seq: "grows st st' \<Longrightarrow> grows st (st'\<lparr>st_seq := s\<rparr>)"
  by (erule grows_trans) (simp add: grows_same)

lemma distinct_row_refs: "keyed ws \<Longrightarrow> distinct (row_refs ws)"
proof (induction ws)
  case (Cons w ws)
  then have "cw_id w \<notin> cw_id ` set ws" by (simp add: keyed_def)
  then have "set (map (\<lambda>kr. (cw_id w, fst kr)) (cw_rows w)) \<inter> set (row_refs ws) = {}"
    by (auto simp: row_refs_def)
  moreover have "distinct (map (\<lambda>kr. (cw_id w, fst kr)) (cw_rows w))"
    using Cons.prems by (auto simp: keyed_def distinct_map inj_on_def)
  moreover have "distinct (row_refs ws)" using Cons by (simp add: keyed_def)
  ultimately show ?case by (simp add: row_refs_def)
qed (simp add: row_refs_def)

lemma row_refs_used: "windows_ok L st \<Longrightarrow> r \<in> row_refs_of st \<Longrightarrow> fst r < st_next_window_id st"
  by (auto simp: windows_ok_def row_refs_of_def row_refs_def)

lemma event_ids_used: "events_ok st \<Longrightarrow> i \<in> event_ids_of st \<Longrightarrow> i < st_next_event_id st"
  by (auto simp: events_ok_def event_ids_of_def)


lemma worker_decide_cases:
  "snd (worker_decide now st) = st \<or> snd (worker_decide now st) = st\<lparr>st_urgent_flush := False\<rparr>"
  by (simp add: worker_decide_def Let_def)

lemma rep_inv_flag: "rep_inv L b st \<Longrightarrow> rep_inv L b (st\<lparr>st_urgent_flush := x\<rparr>)"
  by (frule rep_invD(6), erule rep_inv_cong) (simp_all add: pace_ok_def)

lemma rep_inv_settle: "rep_inv L b st \<Longrightarrow> rep_inv L b (worker_settle now st)"
  by (frule rep_invD(6), erule rep_inv_cong) (simp_all add: pace_ok_def worker_settle_def)

lemma rep_inv_closed: "rep_inv L b st \<Longrightarrow> rep_inv L b (st\<lparr>st_closed := x\<rparr>)"
  by (frule rep_invD(6), erule rep_inv_cong) (simp_all add: pace_ok_def)

lemma handle_response_started [simp]:
  "st_worker_started (handle_response L H status headers body now sel st) = st_worker_started st"
  by (simp add: handle_response_def Let_def disable_def split: option.split)

text \<open>What a step changes of the reporter's state, whatever the step.\<close>

lemma rep_step_state:
  assumes inv: "sys_inv L (in_retention_bytes I) sy"
  shows "rep_inv L (in_retention_bytes I) (sy_state (fst (rep_step L H B I a sy))) \<and>
    grows (sy_state sy) (sy_state (fst (rep_step L H B I a sy))) \<and>
    (st_worker_started (sy_state sy) \<longrightarrow> st_worker_started (sy_state (fst (rep_step L H B I a sy))))"
proof -
  let ?b = "in_retention_bytes I" and ?st = "sy_state sy"
  from inv have L: "counters_print L" and r: "rep_inv L ?b ?st" by (simp_all add: sys_inv_def)
  show ?thesis
  proof (cases a)
    case (Record now draw runtime ev counters)
    then show ?thesis
      by (simp add: Let_def rep_inv_on_request [OF r] grows_on_request on_request_started)
  next
    case (WorkerTurn now http)
    obtain turn st where w: "worker_decide now ?st = (turn, st)" by (cases "worker_decide now ?st")
    with worker_decide_cases [of now ?st] have "st = ?st \<or> st = ?st\<lparr>st_urgent_flush := False\<rparr>" by simp
    then have "rep_inv L ?b st" "grows ?st st" "st_worker_started st = st_worker_started ?st"
      using r by (auto intro: rep_inv_flag grows_same)
    moreover from this have "grows ?st (set_backoff now None st)"
      by (intro grows_trans [OF \<open>grows ?st st\<close>] grows_same) simp_all
    ultimately show ?thesis
      using WorkerTurn r w by (simp add: rep_inv_backoff split: worker_turn.split)
  next
    case (FlushBegin who now token sent)
    define timeout where "timeout = (case who of ByWorker \<Rightarrow> None | ByCloser \<Rightarrow> sy_closing sy)"
    obtain begun st where f: "flush_begin L B I now token sent timeout ?st = (begun, st)"
      by (cases "flush_begin L B I now token sent timeout ?st")
    have "st = ?st \<or> \<not> st_disabled ?st \<and> (\<exists>s. st = (prepared L now ?b ?st)\<lparr>st_seq := s\<rparr>)"
      by (rule flush_begin_state [OF f])
    then have "rep_inv L ?b st" "grows ?st st" "st_worker_started st = st_worker_started ?st"
      using r by (auto intro: rep_inv_seq rep_inv_prepared grows_seq grows_prepared)
    then show ?thesis
      using FlushBegin f r
      by (auto simp: timeout_def [symmetric] after_begin_def split: option.split flusher.split)
  next
    case (SendFailed now)
    then show ?thesis
      using r by (auto simp: rep_inv_backoff grows_same after_flight_def split: option.split flusher.split)
  next
    case (Answered now status headers body)
    then show ?thesis
      using r rep_inv_handle [OF L r] grows_handle [OF rep_invD(4) [OF r]]
      by (auto simp: after_flight_def split: option.split flusher.split)
  next
    case (WorkerSettle now)
    then show ?thesis
      using r rep_inv_settle [OF r, of now] by (auto simp: worker_settle_def grows_same)
  next
    case WorkerCancelled
    then show ?thesis using r by simp
  next
    case (CloseCall timeout spawned)
    then show ?thesis using r by (auto simp: close_begin_def rep_inv_closed grows_same)
  qed
qed


text \<open>The selection in flight: unchanged and unharmed, dropped, or newly taken from the buffers.\<close>

lemma flight_ok_grows:
  assumes "flight_ok sy" and "sy_flight sy' = sy_flight sy" and "grows (sy_state sy) (sy_state sy')"
    and "st_disabled (sy_state sy') = st_disabled (sy_state sy)"
    and "sy_worker sy = WkSending \<Longrightarrow> sy_worker sy' = WkSending"
  shows "flight_ok sy'"
  using assms by (fastforce simp: flight_ok_def grows_def split: option.splits)

lemma flight_ok_new:
  assumes r: "rep_inv L (in_retention_bytes I) st"
    and f: "flush_begin L B I now token sent timeout st = (Some (request, sel), st')"
    and w: "who = ByWorker \<Longrightarrow> sy_worker sy = WkSending"
    and sy: "sy_state sy = st'" "sy_flight sy = Some (who, sel)"
  shows "flight_ok sy \<and> set (sl_event_ids sel) \<subseteq> event_ids_of st' \<and> set (sl_counter_refs sel) \<subseteq> row_refs_of st'"
  using f
proof (elim flush_begin_SomeE)
  let ?st = "prepared L now (in_retention_bytes I) st"
  fix s n m
  assume on: "\<not> st_disabled st" and st': "st' = ?st\<lparr>st_seq := s\<rparr>"
    and e: "sl_event_ids sel = take n (map bf_id (st_events st))"
    and c: "sl_counter_refs sel = take m (row_refs (st_closed_windows ?st))"
  have inv: "rep_inv L (in_retention_bytes I) ?st" by (rule rep_inv_prepared [OF r on])
  have es: "set (sl_event_ids sel) \<subseteq> event_ids_of ?st"
    using set_take_subset [of n "map bf_id (st_events st)"] by (simp add: e event_ids_of_def)
  have rs: "set (sl_counter_refs sel) \<subseteq> row_refs_of ?st"
    by (simp add: c row_refs_of_def set_take_subset)
  have "distinct (sl_event_ids sel)"
    using rep_invD(1) [OF r] by (simp add: e events_ok_def)
  moreover have "distinct (sl_counter_refs sel)"
    using distinct_row_refs [OF windows_ok_keyed [OF rep_invD(4) [OF inv]]] by (simp add: c)
  moreover have "\<forall>i \<in> set (sl_event_ids sel). i < st_next_event_id ?st"
    using es event_ids_used [OF rep_invD(1) [OF inv]] by blast
  moreover have "\<forall>i \<in> set (sl_counter_refs sel). fst i < st_next_window_id ?st"
    using rs row_refs_used [OF rep_invD(4) [OF inv]] by blast
  ultimately show ?thesis
    using es rs w on sy by (simp add: flight_ok_def st' event_ids_of_def row_refs_of_def)
qed

lemma flight_ok_None: "sy_flight sy = None \<Longrightarrow> flight_ok sy"
  by (simp add: flight_ok_def)

lemma flight_ok_step:
  assumes inv: "sys_inv L (in_retention_bytes I) sy"
  shows "flight_ok (fst (rep_step L H B I a sy))"
proof -
  from inv have f: "flight_ok sy" and r: "rep_inv L (in_retention_bytes I) (sy_state sy)"
    and started: "sy_worker sy \<noteq> WkNone \<longrightarrow> st_worker_started (sy_state sy)" by (simp_all add: sys_inv_def)
  note g = rep_step_state [OF inv, of H B a, THEN conjunct2, THEN conjunct1]
  show ?thesis
  proof (cases a)
    case (Record now draw runtime ev counters)
    show ?thesis
      by (rule flight_ok_grows [OF f _ g]) (use started in \<open>simp_all add: Record Let_def\<close>)
  next
    case (WorkerTurn now http)
    have d: "st_disabled (snd (worker_decide now (sy_state sy))) = st_disabled (sy_state sy)"
      using worker_decide_cases [of now "sy_state sy"] by auto
    show ?thesis
      by (rule flight_ok_grows [OF f _ g])
        (use d in \<open>auto simp: WorkerTurn split: prod.split worker_turn.split\<close>)
  next
    case (FlushBegin who now token sent)
    define timeout where "timeout = (case who of ByWorker \<Rightarrow> None | ByCloser \<Rightarrow> sy_closing sy)"
    obtain begun st where b: "flush_begin L B I now token sent timeout (sy_state sy) = (begun, st)"
      by (cases "flush_begin L B I now token sent timeout (sy_state sy)")
    show ?thesis
    proof (cases "may_begin who sy")
      case may: True
      show ?thesis
      proof (cases begun)
        case None
        with may b FlushBegin show ?thesis
          by (intro flight_ok_None) (auto simp: timeout_def [symmetric] may_begin_def after_begin_def split: flusher.splits)
      next
        case (Some p)
        obtain request sel where p: "p = (request, sel)" by (cases p)
        have "fst (rep_step L H B I a sy) = after_begin who WkSending (sy\<lparr>sy_state := st, sy_flight := Some (who, sel)\<rparr>)"
          using may b Some p FlushBegin by (simp add: timeout_def [symmetric])
        with flight_ok_new [OF r b [unfolded Some p], of who "fst (rep_step L H B I a sy)"]
        show ?thesis by (auto simp: after_begin_def split: flusher.splits)
      qed
    qed (use f FlushBegin in simp)
  next
    case (SendFailed now)
    with f show ?thesis
      by (cases "sy_flight sy") (auto simp: after_flight_def intro!: flight_ok_None split: flusher.split)
  next
    case (Answered now status headers body)
    with f show ?thesis
      by (cases "sy_flight sy") (auto simp: after_flight_def intro!: flight_ok_None split: flusher.split)
  next
    case (WorkerSettle now)
    show ?thesis
      by (rule flight_ok_grows [OF f _ g]) (simp_all add: WorkerSettle worker_settle_def)
  next
    case WorkerCancelled
    with f show ?thesis
      by (cases "sy_flight sy") (auto simp: flight_ok_def split: option.splits)
  next
    case (CloseCall timeout spawned)
    show ?thesis
      by (rule flight_ok_grows [OF f _ g]) (simp_all add: CloseCall close_begin_def)
  qed
qed


lemma sys_inv_step:
  assumes inv: "sys_inv L (in_retention_bytes I) sy"
  shows "sys_inv L (in_retention_bytes I) (fst (rep_step L H B I a sy))"
proof -
  have "sy_worker (fst (rep_step L H B I a sy)) \<noteq> WkNone \<Longrightarrow>
      st_worker_started (sy_state (fst (rep_step L H B I a sy)))"
  proof (cases "sy_worker sy = WkNone")
    case True
    assume "sy_worker (fst (rep_step L H B I a sy)) \<noteq> WkNone"
    moreover have "flight_ok sy" using inv by (simp add: sys_inv_def)
    ultimately show ?thesis
      using True
      by (cases a)
        (auto simp: Let_def may_begin_def after_begin_def after_flight_def flight_ok_def close_begin_def
          split: if_splits flusher.splits option.splits prod.splits)
  next
    case False
    with inv rep_step_state [OF inv, of H B a] show ?thesis by (simp add: sys_inv_def)
  qed
  with inv rep_step_state [OF inv, of H B a] flight_ok_step [OF inv, of H B a]
  show ?thesis by (simp add: sys_inv_def)
qed

lemma sys_inv_new:
  "counters_print L \<Longrightarrow> sys_inv L b (sys_new (snd (reporter_new U c token)))"
proof -
  assume L: "counters_print L"
  have "normalise_flush_interval d \<le> from_secs 600" for d
    using from_secs_f64_mono [of "min (as_secs_f64 d) 600" 600]
    by (simp add: normalise_flush_interval_def TELEMETRY_BACKOFF_MAX_SECONDS_def TELEMETRY_FLUSH_SECONDS_def from_secs_def)
  with L show ?thesis
    by (simp add: sys_inv_def sys_new_def reporter_new_def rep_inv_def events_ok_def open_ok_def open_rows_ok_def
        windows_ok_def pace_ok_def flight_ok_def normalise_sample_rate_def TELEMETRY_BACKOFF_MIN_SECONDS_def
        from_secs_def split: option.split)
qed

section \<open>Deliveries\<close>

definition flying :: "(selected \<Rightarrow> 'i list) \<Rightarrow> rep_sys \<Rightarrow> 'i set" where
  "flying items sy = (case sy_flight sy of None \<Rightarrow> {} | Some (_, sel) \<Rightarrow> set (items sel))"

definition live_events :: "rep_sys \<Rightarrow> nat set" where
  "live_events sy = event_ids_of (sy_state sy) \<union> flying sl_event_ids sy"

definition used_events :: "rep_sys \<Rightarrow> nat set" where
  "used_events sy = {i. i < st_next_event_id (sy_state sy)}"

definition live_rows :: "rep_sys \<Rightarrow> (nat \<times> counter_key) set" where
  "live_rows sy = row_refs_of (sy_state sy) \<union> flying sl_counter_refs sy"

definition used_rows :: "rep_sys \<Rightarrow> (nat \<times> counter_key) set" where
  "used_rows sy = {r. fst r < st_next_window_id (sy_state sy)}"

lemma handle_accepted:
  assumes ok: "windows_ok L st"
  shows "event_ids_of (handle_response L H 202 headers body now sel st) \<inter> set (sl_event_ids sel) = {}"
    and "row_refs_of (handle_response L H 202 headers body now sel st) \<inter> set (sl_counter_refs sel) = {}"
proof -
  have policy: "row_refs_of (apply_policy L p now s) = row_refs_of s"
    "event_ids_of (apply_policy L p now s) = event_ids_of s" for p s
    by (simp_all add: row_refs_of_def event_ids_of_def)
  have same: "row_refs_of (s\<lparr>st_dropped_since_last := d, st_backoff := x, st_backoff_until := y\<rparr>) = row_refs_of s"
    "event_ids_of (s\<lparr>st_dropped_since_last := d, st_backoff := x, st_backoff_until := y\<rparr>) = event_ids_of s" for s d x y
    by (simp_all add: row_refs_of_def event_ids_of_def)
  have off: "row_refs_of (disable st) = {}" "event_ids_of (disable st) = {}"
    by (simp_all add: disable_def row_refs_of_def row_refs_def event_ids_of_def)
  have "event_ids_of (remove_selected L (sl_event_ids sel) (sl_counter_refs sel) st) \<inter> set (sl_event_ids sel) = {}"
    by (auto simp: event_ids_of_def remove_selected_events)
  then show "event_ids_of (handle_response L H 202 headers body now sel st) \<inter> set (sl_event_ids sel) = {}"
    by (simp add: handle_response_def Let_def off policy same split: option.split)
  show "row_refs_of (handle_response L H 202 headers body now sel st) \<inter> set (sl_counter_refs sel) = {}"
    by (auto simp: handle_response_def Let_def off policy same row_refs_of_remove [OF ok] split: option.split)
qed

lemma rep_step_accepted:
  assumes "rep_step L H B I a sy = (sy', Some (Accepted sel))"
  obtains who now headers body where
    "sy_flight sy = Some (who, sel)" and "sy_flight sy' = None"
    and "sy_state sy' = handle_response L H 202 headers body now sel (sy_state sy)"
  using assms that
  by (cases a)
    (auto simp: Let_def after_begin_def after_flight_def split: if_splits option.splits prod.splits worker_turn.splits flusher.splits)

text \<open>What is in flight after a step was in flight before, or was just taken from the buffers.\<close>

lemma rep_step_flight:
  assumes inv: "sys_inv L (in_retention_bytes I) sy" and f: "sy_flight (fst (rep_step L H B I a sy)) = Some (who, sel)"
  shows "sy_flight sy = Some (who, sel) \<or>
    set (sl_event_ids sel) \<subseteq> event_ids_of (sy_state (fst (rep_step L H B I a sy))) \<and>
    set (sl_counter_refs sel) \<subseteq> row_refs_of (sy_state (fst (rep_step L H B I a sy)))"
proof (cases a)
  case (FlushBegin by_whom now token sent)
  define timeout where "timeout = (case by_whom of ByWorker \<Rightarrow> None | ByCloser \<Rightarrow> sy_closing sy)"
  obtain begun st where b: "flush_begin L B I now token sent timeout (sy_state sy) = (begun, st)"
    by (cases "flush_begin L B I now token sent timeout (sy_state sy)")
  from inv have r: "rep_inv L (in_retention_bytes I) (sy_state sy)" by (simp add: sys_inv_def)
  show ?thesis
  proof (cases "may_begin by_whom sy \<and> begun \<noteq> None")
    case True
    then obtain request s where p: "begun = Some (request, s)" by auto
    with True b FlushBegin have e: "fst (rep_step L H B I a sy) =
        after_begin by_whom WkSending (sy\<lparr>sy_state := st, sy_flight := Some (by_whom, s)\<rparr>)"
      by (simp add: timeout_def [symmetric])
    with f have "s = sel" "who = by_whom" by (auto simp: after_begin_def split: flusher.splits)
    with e flight_ok_new [OF r b [unfolded p], of by_whom "fst (rep_step L H B I a sy)"]
    show ?thesis by (auto simp: after_begin_def split: flusher.splits)
  next
    case False
    with f b FlushBegin show ?thesis
      by (cases begun) (auto simp: timeout_def [symmetric] after_begin_def split: if_splits flusher.splits)
  qed
qed (use f in \<open>auto simp: Let_def after_flight_def close_begin_def
      split: if_splits option.splits prod.splits worker_turn.splits flusher.splits\<close>)


lemma flying_step:
  assumes inv: "sys_inv L (in_retention_bytes I) sy"
  shows "flying sl_event_ids (fst (rep_step L H B I a sy)) \<subseteq>
      flying sl_event_ids sy \<union> event_ids_of (sy_state (fst (rep_step L H B I a sy)))"
    and "flying sl_counter_refs (fst (rep_step L H B I a sy)) \<subseteq>
      flying sl_counter_refs sy \<union> row_refs_of (sy_state (fst (rep_step L H B I a sy)))"
  using rep_step_flight [OF inv, of H B a] by (auto simp: flying_def split: option.splits prod.splits)

lemma grows_step:
  "sys_inv L (in_retention_bytes I) sy \<Longrightarrow> grows (sy_state sy) (sy_state (fst (rep_step L H B I a sy)))"
  using rep_step_state by blast

lemma accepted_ledger:
  assumes inv: "sys_inv L (in_retention_bytes I) sy" and step: "rep_step L H B I a sy = (sy', Some (Accepted sel))"
  shows "distinct (sl_event_ids sel) \<and> set (sl_event_ids sel) \<subseteq> live_events sy \<and>
      set (sl_event_ids sel) \<inter> live_events sy' = {} \<and>
    distinct (sl_counter_refs sel) \<and> set (sl_counter_refs sel) \<subseteq> live_rows sy \<and>
      set (sl_counter_refs sel) \<inter> live_rows sy' = {}"
  using step
proof (elim rep_step_accepted)
  fix who now headers body
  assume f: "sy_flight sy = Some (who, sel)" "sy_flight sy' = None"
    and st: "sy_state sy' = handle_response L H 202 headers body now sel (sy_state sy)"
  from inv have ok: "flight_ok sy" and w: "windows_ok L (sy_state sy)" by (auto simp: sys_inv_def dest: rep_invD)
  from ok f have "distinct (sl_event_ids sel)" "distinct (sl_counter_refs sel)" by (auto simp: flight_ok_def)
  with f handle_accepted [OF w, of H headers body now sel] show ?thesis
    by (auto simp: live_events_def live_rows_def flying_def st)
qed

interpretation events_ledger: ledger "rep_step L H B I" "sys_inv L (in_retention_bytes I)"
    live_events used_events accepted_events for L H B I
proof unfold_locales
  fix sy a
  assume inv: "sys_inv L (in_retention_bytes I) sy"
  show "sys_inv L (in_retention_bytes I) (fst (rep_step L H B I a sy))" by (rule sys_inv_step [OF inv])
  from inv have e: "events_ok (sy_state sy)" and f: "flight_ok sy" and w: "windows_ok L (sy_state sy)"
    by (auto simp: sys_inv_def dest: rep_invD)
  show "live_events sy \<subseteq> used_events sy"
    using event_ids_used [OF e] f by (auto simp: live_events_def used_events_def flying_def flight_ok_def split: option.splits)
  show "used_events sy \<subseteq> used_events (fst (rep_step L H B I a sy))"
    using grows_step [OF inv, of H B a] by (auto simp: used_events_def grows_def)
  show "live_events (fst (rep_step L H B I a sy)) \<subseteq> live_events sy \<union> - used_events sy"
    using flying_step(1) [OF inv, of H B a] grows_step [OF inv, of H B a]
    by (fastforce simp: live_events_def used_events_def grows_def)
  fix sy' and e :: "'a rep_effect"
  assume "rep_step L H B I a sy = (sy', Some e)"
  then show "distinct (accepted_events e) \<and> set (accepted_events e) \<subseteq> live_events sy \<and>
      set (accepted_events e) \<inter> live_events sy' = {}"
    by (cases e) (use accepted_ledger [OF inv, of H B a sy'] in auto)
qed

interpretation rows_ledger: ledger "rep_step L H B I" "sys_inv L (in_retention_bytes I)"
    live_rows used_rows accepted_rows for L H B I
proof unfold_locales
  fix sy a
  assume inv: "sys_inv L (in_retention_bytes I) sy"
  from inv have f: "flight_ok sy" and w: "windows_ok L (sy_state sy)"
    by (auto simp: sys_inv_def dest: rep_invD)
  show "live_rows sy \<subseteq> used_rows sy"
    using row_refs_used [OF w] f by (auto simp: live_rows_def used_rows_def flying_def flight_ok_def split: option.splits)
  show "used_rows sy \<subseteq> used_rows (fst (rep_step L H B I a sy))"
    using grows_step [OF inv, of H B a] by (auto simp: used_rows_def grows_def)
  show "live_rows (fst (rep_step L H B I a sy)) \<subseteq> live_rows sy \<union> - used_rows sy"
    using flying_step(2) [OF inv, of H B a] grows_step [OF inv, of H B a]
    by (fastforce simp: live_rows_def used_rows_def grows_def)
  fix sy' and e :: "'a rep_effect"
  assume "rep_step L H B I a sy = (sy', Some e)"
  then show "distinct (accepted_rows e) \<and> set (accepted_rows e) \<subseteq> live_rows sy \<and>
      set (accepted_rows e) \<inter> live_rows sy' = {}"
    by (cases e) (use accepted_ledger [OF inv, of H B a sy'] in auto)
qed

end
