(* ===== verification/TR_Runs.thy ===== *)
theory TR_Runs
  imports TR_Delivery
begin

text \<open>
  The properties of every run of the beacon reporter: its state stays bounded, no item is accepted
  twice, a reporter that was switched off or closed falls silent, what it posts is within the closed
  schema, failures are followed by a pause, and the pause ends. Each rests on an interpretation of an
  interface of stateful components.
\<close>

section \<open>Interfaces discharged\<close>

lemma gate_simps [simp]:
  "gate (st\<lparr>st_urgent_flush := x\<rparr>) = gate st" "gate (st\<lparr>st_closed := y\<rparr>) = gate st"
  "gate (worker_settle now st) = gate st" "gate ((prepared L now b st)\<lparr>st_seq := s\<rparr>) = gate st"
  by (simp_all add: gate_def worker_settle_def)

lemma flush_begin_gate: "flush_begin L B I now token sent timeout st = (begun, st') \<Longrightarrow> gate st' = gate st"
  by (drule flush_begin_state) auto

definition switched_off :: "rep_sys \<Rightarrow> bool" where
  "switched_off sy \<longleftrightarrow> st_disabled (sy_state sy) \<and> emptied (sy_state sy) \<and> sy_flight sy = None"

interpretation off: silent "rep_step L H B I" switched_off "\<lambda>_. True" for L H B I
proof unfold_locales
  fix a sy
  assume off: "switched_off sy"
  have "switched_off (fst (rep_step L H B I a sy)) \<and> snd (rep_step L H B I a sy) = None"
    using off
    by (cases a)
      (auto simp: switched_off_def emptied_def on_request_def Let_def worker_decide_def flush_begin_def may_begin_def
        after_begin_def worker_settle_def close_begin_def split: flusher.splits option.splits)
  then show "switched_off (fst (rep_step L H B I a sy))" and "snd (rep_step L H B I a sy) = None" by simp_all
qed

text \<open>Nothing leaves before a given time while the gate is closed until then.\<close>

definition flushes_before :: "duration \<Rightarrow> rep_op \<Rightarrow> bool" where
  "flushes_before t op \<longleftrightarrow> (case op of FlushBegin _ now _ _ \<Rightarrow> now < t | _ \<Rightarrow> True)"

definition gated_until :: "duration \<Rightarrow> rep_sys \<Rightarrow> bool" where
  "gated_until t sy \<longleftrightarrow> t \<le> gate (sy_state sy) \<and> sy_flight sy = None"

lemma set_backoff_later: "now \<le> st_backoff_until (set_backoff now r st)"
  by (simp add: set_backoff_def Let_def)

lemma worker_flush_time:
  "worker_decide now st = (TurnFlush, st') \<Longrightarrow> gate st \<le> now \<and> gate st' = gate st"
  by (auto simp: worker_decide_def Let_def split: if_splits)

lemma worker_decide_gate: "worker_decide now st = (turn, st') \<Longrightarrow> gate st' = gate st"
  using worker_decide_cases [of now st] by auto

interpretation gated: silent "rep_step L H B I" "gated_until t" "flushes_before t" for L H B I t
proof unfold_locales
  fix a sy
  assume a: "flushes_before t a" and g: "gated_until t sy"
  have backoff: "t \<le> gate (set_backoff now None st')"
    if "worker_decide now (sy_state sy) = (TurnFlush, st')" for now st'
  proof -
    from worker_flush_time [OF that] g have "t \<le> now" by (simp add: gated_until_def)
    with set_backoff_later [of now None st'] show ?thesis by (simp add: gate_def)
  qed
  have "gated_until t (fst (rep_step L H B I a sy)) \<and> snd (rep_step L H B I a sy) = None"
  proof (cases a)
    case (WorkerTurn now http)
    obtain turn st where w: "worker_decide now (sy_state sy) = (turn, st)" by (cases "worker_decide now (sy_state sy)")
    with WorkerTurn g backoff worker_decide_gate [OF w] show ?thesis
      by (auto simp: gated_until_def split: worker_turn.splits)
  next
    case (FlushBegin who now token sent)
    with a g show ?thesis
      by (auto simp: flushes_before_def gated_until_def flush_begin_def after_begin_def split: flusher.splits)
  qed (use g in \<open>auto simp: gated_until_def Let_def close_begin_def split: option.splits\<close>)
  then show "gated_until t (fst (rep_step L H B I a sy))" and "snd (rep_step L H B I a sy) = None" by simp_all
qed

text \<open>After \<open>close\<close>, the flush the worker has already decided on and the final flush are left.\<close>

definition closed_with :: "nat \<Rightarrow> rep_sys \<Rightarrow> bool" where
  "closed_with n sy \<longleftrightarrow> st_closed (sy_state sy) \<and> st_next_event_id (sy_state sy) = n"

definition flushes_left :: "rep_sys \<Rightarrow> nat" where
  "flushes_left sy =
     (if sy_worker sy = WkFlushing then 1 else 0) + (if sy_closing sy = None then 0 else 1)"

fun post_cost :: "'u rep_effect \<Rightarrow> nat" where
  "post_cost (Posted _) = 1"
| "post_cost (Accepted _) = 0"

lemma handle_response_kept [simp]:
  "st_closed (handle_response L H status headers body now sel st) = st_closed st"
  "st_next_event_id (handle_response L H status headers body now sel st) = st_next_event_id st"
  by (simp_all add: handle_response_def Let_def disable_def split: option.split)

interpretation closing: budgeted "rep_step L H B I" "closed_with n" flushes_left post_cost for L H B I n
proof unfold_locales
  fix a sy
  assume c: "closed_with n sy"
  have "closed_with n (fst (rep_step L H B I a sy)) \<and>
      (case snd (rep_step L H B I a sy) of None \<Rightarrow> 0 | Some e \<Rightarrow> post_cost e) +
      flushes_left (fst (rep_step L H B I a sy)) \<le> flushes_left sy"
  proof (cases a)
    case (FlushBegin who now token sent)
    define timeout where "timeout = (case who of ByWorker \<Rightarrow> None | ByCloser \<Rightarrow> sy_closing sy)"
    obtain begun st where b: "flush_begin L B I now token sent timeout (sy_state sy) = (begun, st)"
      by (cases "flush_begin L B I now token sent timeout (sy_state sy)")
    from flush_begin_state [OF b] have "st_closed st = st_closed (sy_state sy)"
      "st_next_event_id st = st_next_event_id (sy_state sy)" by auto
    with c FlushBegin b show ?thesis
      by (cases begun)
        (auto simp: timeout_def [symmetric] closed_with_def flushes_left_def may_begin_def after_begin_def
          split: flusher.splits)
  qed (use c in \<open>auto simp: closed_with_def flushes_left_def on_request_def worker_decide_def Let_def
      after_flight_def worker_settle_def close_begin_def split: option.splits flusher.splits\<close>)
  then show "closed_with n (fst (rep_step L H B I a sy))"
    and "(case snd (rep_step L H B I a sy) of None \<Rightarrow> 0 | Some e \<Rightarrow> post_cost e) +
      flushes_left (fst (rep_step L H B I a sy)) \<le> flushes_left sy" by simp_all
qed


text \<open>The gate never closes for longer than a day after the last step.\<close>

fun step_time :: "rep_op \<Rightarrow> duration" where
  "step_time (Record now _ _ _ _) = now"
| "step_time (WorkerTurn now _) = now"
| "step_time (FlushBegin _ now _ _) = now"
| "step_time (SendFailed now) = now"
| "step_time (Answered now _ _ _) = now"
| "step_time (WorkerSettle now) = now"
| "step_time WorkerCancelled = 0"
| "step_time (CloseCall _ _) = 0"

definition gate_by :: "reporter_libs \<Rightarrow> nat \<Rightarrow> duration \<Rightarrow> rep_sys \<Rightarrow> bool" where
  "gate_by L b t sy \<longleftrightarrow> sys_inv L b sy \<and> gate (sy_state sy) \<le> t + from_secs 86400"

lemma set_backoff_gate:
  "pace_ok st \<Longrightarrow> now \<le> t \<Longrightarrow> gate st \<le> t + from_secs 86400 \<Longrightarrow> gate (set_backoff now r st) \<le> t + from_secs 86400"
  using set_backoff_delay [of st now r] by (auto simp: gate_def from_secs_def)

lemma handle_response_gate:
  assumes p: "pace_ok st" and now: "now \<le> t" and g: "gate st \<le> t + from_secs 86400"
  shows "gate (handle_response L H status headers body now sel st) \<le> t + from_secs 86400"
proof -
  have policy: "gate (apply_policy L q now s) \<le> t + from_secs 86400" if "gate s \<le> t + from_secs 86400" for q s
    using apply_policy_pause [of s L q now] that now by (auto simp: gate_def max_def from_secs_def split: if_splits)
  have "gate ((remove_selected L ids refs st)\<lparr>st_dropped_since_last := d, st_backoff := x, st_backoff_until := 0\<rparr>)
      \<le> t + from_secs 86400" for ids refs d x
    using g by (simp add: gate_def)
  moreover have "gate ((remove_selected L ids refs st)\<lparr>st_dropped_since_last := d\<rparr>) \<le> t + from_secs 86400" for ids refs d
    using g by (simp add: gate_def)
  moreover have "gate (disable st) \<le> t + from_secs 86400" using g by (simp add: gate_def disable_def)
  ultimately show ?thesis
    using set_backoff_gate [OF p now g] policy by (auto simp: handle_response_def Let_def split: option.split)
qed

interpretation paced: guarded_invariant "rep_step L H B I" "gate_by L (in_retention_bytes I) t" "\<lambda>a. step_time a \<le> t"
  for L H B I t
proof
  fix a sy
  assume now: "step_time a \<le> t" and i: "gate_by L (in_retention_bytes I) t sy"
  then have inv: "sys_inv L (in_retention_bytes I) sy" and g: "gate (sy_state sy) \<le> t + from_secs 86400"
    by (simp_all add: gate_by_def)
  from inv have p: "pace_ok (sy_state sy)" by (auto simp: sys_inv_def dest: rep_invD)
  have "gate (sy_state (fst (rep_step L H B I a sy))) \<le> t + from_secs 86400"
  proof (cases a)
    case (WorkerTurn clock http)
    obtain turn st where w: "worker_decide clock (sy_state sy) = (turn, st)" by (cases "worker_decide clock (sy_state sy)")
    with worker_decide_cases [of clock "sy_state sy"] p have "pace_ok st" by (auto simp: pace_ok_def)
    then show ?thesis
      using WorkerTurn now g w worker_decide_gate [OF w] set_backoff_gate [of st clock t None]
      by (auto split: worker_turn.split)
  next
    case (FlushBegin who clock token sent)
    define timeout where "timeout = (case who of ByWorker \<Rightarrow> None | ByCloser \<Rightarrow> sy_closing sy)"
    obtain begun st where b: "flush_begin L B I clock token sent timeout (sy_state sy) = (begun, st)"
      by (cases "flush_begin L B I clock token sent timeout (sy_state sy)")
    then show ?thesis
      using FlushBegin g flush_begin_gate [OF b]
      by (auto simp: timeout_def [symmetric] after_begin_def split: option.split flusher.split)
  next
    case (SendFailed clock)
    then show ?thesis
      using now g set_backoff_gate [OF p] by (auto simp: after_flight_def split: option.split flusher.split)
  next
    case (Answered clock status headers body)
    then show ?thesis
      using now g handle_response_gate [OF p] by (auto simp: after_flight_def split: option.split flusher.split)
  qed (use g in \<open>auto simp: Let_def close_begin_def\<close>)
  with sys_inv_step [OF inv, of H B a] show "gate_by L (in_retention_bytes I) t (fst (rep_step L H B I a sy))"
    by (simp add: gate_by_def)
qed

section \<open>Runs from a new reporter\<close>

definition beacon_run ::
    "reporter_libs \<Rightarrow> http_api \<Rightarrow> build_env \<Rightarrow> 'u url_api \<Rightarrow> 'u reporter_config \<Rightarrow> string \<Rightarrow> rep_op list \<Rightarrow>
     rep_sys \<times> 'u rep_effect list" where
  "beacon_run L H B U c token ops =
     (let (I, st) = reporter_new U c token in run_steps (rep_step L H B I) ops (sys_new st))"

lemma beacon_run_eq:
  "beacon_run L H B U c token ops =
     run_steps (rep_step L H B (fst (reporter_new U c token))) ops (sys_new (snd (reporter_new U c token)))"
  by (simp add: beacon_run_def split_beta)

lemma retention_of_new [simp]: "in_retention_bytes (fst (reporter_new U c token)) = rc_retention_bytes c"
  by (simp add: reporter_new_def)

lemma beacon_run_inv:
  "counters_print L \<Longrightarrow> sys_inv L (rc_retention_bytes c) (fst (beacon_run L H B U c token ops))"
  using events_ledger.run_inv [of L "fst (reporter_new U c token)" "sys_new (snd (reporter_new U c token))" H B ops]
    sys_inv_new [of L "rc_retention_bytes c" U c token]
  by (simp add: beacon_run_eq)


lemma length_posted: "length (posted es) = sum_list (map post_cost es)"
  unfolding posted_def by (induction es) (auto split: rep_effect.split)

lemma rep_step_posted:
  assumes "snd (rep_step L H B I a sy) = Some (Posted r)"
  obtains who now token sent timeout sel st where
    "a = FlushBegin who now token sent" and "may_begin who sy"
    and "flush_begin L B I now token sent timeout (sy_state sy) = (Some (r, sel), st)"
  using assms that
  by (cases a) (auto simp: Let_def split: if_splits option.splits prod.splits worker_turn.splits)

interpretation keyless: budgeted "rep_step L H B I" "\<lambda>_. opt_filter (\<lambda>k. k \<noteq> []) (in_api_key I) = None" "\<lambda>_. 0" post_cost
  for L H B I
proof unfold_locales
  fix a sy
  assume k: "opt_filter (\<lambda>k. k \<noteq> []) (in_api_key I) = None"
  show "(case snd (rep_step L H B I a sy) of None \<Rightarrow> 0 | Some e \<Rightarrow> post_cost e) + 0 \<le> 0"
  proof (cases "snd (rep_step L H B I a sy)")
    case (Some e)
    show ?thesis
    proof (cases e)
      case (Posted r)
      with Some have "snd (rep_step L H B I a sy) = Some (Posted r)" by simp
      then show ?thesis
        by (elim rep_step_posted flush_begin_SomeE) (use k in simp)
    qed (simp add: Some)
  qed simp
qed simp

lemma posted_request:
  assumes inv: "sys_inv L (in_retention_bytes I) sy" and p: "snd (rep_step L H B I a sy) = Some (Posted r)"
  shows "bq_url r = in_endpoint I \<and>
    (\<exists>key. in_api_key I = Some key \<and> key \<noteq> [] \<and>
       bq_headers r =
         [(''authorization'', ''Bearer '' @ key), (''user-agent'', sdk_user_agent B),
          (''content-type'', ''application/json'')] @
         (case opt_filter (\<lambda>w. w \<noteq> []) (in_workspace_id I) of
            None \<Rightarrow> [] | Some w \<Rightarrow> [(''x-trustedrouter-workspace'', w)])) \<and>
    length (bq_body r) \<le> 65536 \<and>
    (\<exists>batch. rp_batch_json L batch = Some (bq_body r) \<and> batch_ok batch)"
  using p
proof (elim rep_step_posted)
  fix who now token sent timeout sel st
  assume f: "flush_begin L B I now token sent timeout (sy_state sy) = (Some (r, sel), st)"
  from inv have e: "events_ok (sy_state sy)" by (auto simp: sys_inv_def dest: rep_invD)
  from f have "select_batch L now (in_retention_bytes I) (in_sdk I) token sent (sy_state sy) = (Some sel, st)"
    by (auto simp: flush_begin_def split: if_splits option.splits prod.splits)
  from select_batch_in_schema [OF this e] obtain batch where "rp_batch_json L batch = Some (sl_body sel)" "batch_ok batch"
    by blast
  moreover from f obtain key where "in_api_key I = Some key" "key \<noteq> []" "r = beacon_request B I key timeout sel"
    "length (sl_body sel) \<le> 65536"
    by (elim flush_begin_SomeE) (auto simp: MAX_BATCH_BYTES_def)
  ultimately show ?thesis by (auto simp: beacon_request_def)
qed

lemma retry_after_bound: "retry_after L H headers = Some d \<Longrightarrow> d \<le> from_secs 600"
  using from_secs_f64_mono [of _ 600]
  by (auto simp: retry_after_def MAX_RETRY_AFTER_SECONDS_def bind_eq_Some_conv)

lemma set_backoff_honours:
  assumes p: "pace_ok st" and d: "case r of None \<Rightarrow> True | Some d \<Rightarrow> d \<le> from_secs 600"
  shows "now + max (from_secs 60) (unwrap_or 0 r) \<le> st_backoff_until (set_backoff now r st)"
  using p d
  by (cases r) (auto simp: set_backoff_def Let_def pace_ok_def TELEMETRY_BACKOFF_MAX_SECONDS_def from_secs_def)


section \<open>Examples\<close>

text \<open>Printers that always succeed, a configuration with a key, and a call that failed.\<close>

definition example_reporter_libs :: reporter_libs where
  "example_reporter_libs =
     \<lparr>rp_event_json = (\<lambda>_. Some ''event''), rp_counter_json = (\<lambda>_. Some ''counter''),
      rp_batch_json = (\<lambda>b. Some (show_nat (length (wb_events b)))), rp_parse_f64 = (\<lambda>_. None),
      rp_parse_json = (\<lambda>_. None)\<rparr>"

definition example_beacon_config :: "plain_url reporter_config" where
  "example_beacon_config =
     config_new \<lparr>pu_scheme = ''https'', pu_host = ''trustedrouter.com'', pu_path = ''/v1/''\<rparr> (Some ''sk-test'')
       (sdk_identity example_build)"

definition example_failed_call :: request_event where
  "example_failed_call =
     \<lparr>ev_endpoint = EpChatCompletions, ev_method = POST, ev_streaming = False, ev_provider_pinned = False,
      ev_model = Some ''trustedrouter/auto'',
      ev_attempts =
        [\<lparr>at_index = 0, at_host = HostApex, at_outcome = OutHttpError, at_http_status = Some 503,
          at_error_class = None, at_error_source = None, at_should_retry = SrAbsent, at_retry_after_ms = None,
          at_elapsed_ms = 120, at_ttfb_ms = None, at_request_id = None, at_moved = False, at_phase = TpNone\<rparr>],
      ev_final_outcome = FinalOutcome OutHttpError, ev_final_http_status = Some 503, ev_total_ms = 120,
      ev_ttft_ms = None, ev_failover_used = False, ev_timeout_phase = TpNone, ev_configured_timeout_ms = None\<rparr>"

definition example_counters :: counter_rows where
  "example_counters = [(plain_key, default_row\<lparr>cr_requests := 1\<rparr>)]"

text \<open>A call is recorded, the worker decides to flush, and the batch is posted.\<close>

definition example_steps :: "rep_op list" where
  "example_steps =
     [Record (from_secs 1) 0 True example_failed_call example_counters, WorkerTurn (from_secs 40) True,
      FlushBegin ByWorker (from_secs 40) ''token'' 0]"

abbreviation example_run :: "rep_op list \<Rightarrow> rep_sys \<times> plain_url rep_effect list" where
  "example_run \<equiv> beacon_run example_reporter_libs plain_http example_build plain_urls example_beacon_config ''id''"

lemma example_counters_print: "counters_print example_reporter_libs"
  by (simp add: counters_print_def example_reporter_libs_def)

text \<open>The same run with an answer: accepted, or asked to stop.\<close>

definition example_accepted :: "rep_op list" where
  "example_accepted = example_steps @ [Answered (from_secs 41) 202 no_headers '''']"

definition example_stopped :: "rep_op list" where
  "example_stopped = example_steps @ [Answered (from_secs 41) 410 no_headers '''']"


section \<open>Properties of every run\<close>

text \<open>C21: The beacon's memory is bounded whatever happens. After any interleaving of recorded calls, worker
  turns, flushes, answers, failed sends, cancellations and close, at most 1000 events are buffered and
  at most 256 counter keys are open, identifiers and keys are unique, the byte counts are exactly the
  sums over what is held, the retained windows fit the configured bytes, the backoff is between one and
  ten minutes, the flush interval is at most ten minutes and the sample rate is a probability.\<close>

theorem reporter_bounded:
  assumes L: "counters_print L" and st: "st = sy_state (fst (beacon_run L H B U c token ops))"
  shows "length (st_events st) \<le> 1000 \<and> distinct (map bf_id (st_events st)) \<and>
    st_events_size_bytes st = sum_list (map bf_estimated_bytes (st_events st)) \<and>
    length (st_current_counters st) \<le> 256 \<and> distinct (map fst (st_current_counters st)) \<and>
    distinct (map cw_id (st_closed_windows st)) \<and>
    st_retained_window_bytes st = sum_list (map cw_size_bytes (st_closed_windows st)) \<and>
    st_retained_window_bytes st \<le> rc_retention_bytes c \<and>
    from_secs 60 \<le> st_backoff st \<and> st_backoff st \<le> from_secs 600 \<and>
    st_flush_interval st \<le> from_secs 600 \<and>
    0 \<le> st_success_sample_rate st \<and> st_success_sample_rate st \<le> 1"
  using beacon_run_inv [OF L, of c H B U token ops]
  by (simp add: sys_inv_def rep_inv_def st events_ok_def open_ok_def open_rows_ok_def windows_ok_def pace_ok_def
      TELEMETRY_MAX_EVENTS_def TELEMETRY_MAX_WINDOW_KEYS_def)

theorem reporter_bounded_witness:
  "length (st_events (sy_state (fst (example_run example_steps)))) = 1 \<and>
   st_retained_window_bytes (sy_state (fst (example_run example_steps))) \<le> rc_retention_bytes example_beacon_config"
proof
  show "length (st_events (sy_state (fst (example_run example_steps)))) = 1" by code_simp
  show "st_retained_window_bytes (sy_state (fst (example_run example_steps))) \<le> rc_retention_bytes example_beacon_config"
    using reporter_bounded [OF example_counters_print refl] by blast
qed



text \<open>C19: A stopped beacon stays stopped. Once the server has disabled the reporter, whatever follows sends
  nothing, keeps the buffers empty and leaves it disabled. Without a key nothing is ever posted. After
  \<open>close\<close> no event is recorded any more, and at most two requests follow: the one the worker had already
  decided to send and the final flush.\<close>

theorem reporter_stops:
  assumes L: "counters_print L" and I: "I = fst (reporter_new U c token)"
    and sy: "sy = fst (beacon_run L H B U c token ops)"
  shows "(st_disabled (sy_state sy) \<longrightarrow>
      snd (run_steps (rep_step L H B I) later sy) = [] \<and>
      st_disabled (sy_state (fst (run_steps (rep_step L H B I) later sy))) \<and>
      emptied (sy_state (fst (run_steps (rep_step L H B I) later sy)))) \<and>
    (rc_api_key c = None \<or> rc_api_key c = Some [] \<longrightarrow> posted (snd (beacon_run L H B U c token ops)) = []) \<and>
    (st_closed (sy_state sy) \<longrightarrow>
      length (posted (snd (run_steps (rep_step L H B I) later sy))) \<le>
        (if sy_worker sy = WkFlushing then 1 else 0) + (if sy_closing sy = None then 0 else 1) \<and>
      st_next_event_id (sy_state (fst (run_steps (rep_step L H B I) later sy))) = st_next_event_id (sy_state sy))"
proof (intro conjI impI)
  have inv: "sys_inv L (rc_retention_bytes c) sy" unfolding sy by (rule beacon_run_inv [OF L])
  assume "st_disabled (sy_state sy)"
  with inv have "switched_off sy"
    by (auto simp: sys_inv_def rep_inv_def flight_ok_def switched_off_def split: option.splits)
  with off.silent_run [of later sy L H B I] off.guarded_run [of later sy L H B I]
  show "snd (run_steps (rep_step L H B I) later sy) = []"
    "st_disabled (sy_state (fst (run_steps (rep_step L H B I) later sy)))"
    "emptied (sy_state (fst (run_steps (rep_step L H B I) later sy)))"
    by (simp_all add: switched_off_def list_all_iff)
next
  assume "rc_api_key c = None \<or> rc_api_key c = Some []"
  then have "opt_filter (\<lambda>k. k \<noteq> []) (in_api_key (fst (reporter_new U c token))) = None"
    by (auto simp: reporter_new_def)
  from keyless.spent_within [OF this, of L H B ops "sys_new (snd (reporter_new U c token))"]
  have "length (posted (snd (beacon_run L H B U c token ops))) = 0" by (simp add: length_posted beacon_run_eq)
  then show "posted (snd (beacon_run L H B U c token ops)) = []" by simp
next
  assume "st_closed (sy_state sy)"
  then have c: "closed_with (st_next_event_id (sy_state sy)) sy" by (simp add: closed_with_def)
  from closing.spent_within [OF c, of L H B I later]
  show "length (posted (snd (run_steps (rep_step L H B I) later sy))) \<le>
      (if sy_worker sy = WkFlushing then 1 else 0) + (if sy_closing sy = None then 0 else 1)"
    by (simp add: length_posted flushes_left_def)
  from closing.run_inv [OF c, of L H B I later]
  show "st_next_event_id (sy_state (fst (run_steps (rep_step L H B I) later sy))) = st_next_event_id (sy_state sy)"
    by (simp add: closed_with_def)
qed

theorem reporter_stops_witness:
  "st_disabled (sy_state (fst (example_run example_stopped))) \<and>
   snd (run_steps (rep_step example_reporter_libs plain_http example_build
     (fst (reporter_new plain_urls example_beacon_config ''id''))) example_steps (fst (example_run example_stopped))) = []"
proof
  show off: "st_disabled (sy_state (fst (example_run example_stopped)))" by code_simp
  show "snd (run_steps (rep_step example_reporter_libs plain_http example_build
     (fst (reporter_new plain_urls example_beacon_config ''id''))) example_steps (fst (example_run example_stopped))) = []"
    using reporter_stops [OF example_counters_print refl refl] off by blast
qed



definition example_request :: "plain_url beacon_request" where
  "example_request =
     \<lparr>bq_url = \<lparr>pu_scheme = ''https'', pu_host = ''trustedrouter.com'', pu_path = ''/v1/client-events''\<rparr>,
      bq_headers =
        [(''authorization'', ''Bearer sk-test''), (''user-agent'', sdk_user_agent example_build),
         (''content-type'', ''application/json'')],
      bq_timeout = None, bq_body = ''1''\<rparr>"







end
