(* ===== verification/Spec2Isabelle.thy ===== *)
theory Spec2Isabelle
  imports TR_OAuth TR_Ffi TR_Tools TR_Runs
begin

text \<open>
  Verification of the TrustedRouter Rust SDK (\<open>src/crates/trusted-router\<close>) and of its C interface
  (\<open>src/crates/trusted-router-ffi\<close>).

  \<^bold>\<open>The program.\<close> A \<open>Client\<close> turns an endpoint method into one logical call. The call is routed to a list of
  candidate URLs of its plane, its headers are assembled, and the engine sends it, asking a pure policy
  after each failure whether to wait, retry and move to the next candidate. A recorder follows the call
  and hands one content-free event to a reporter, which folds events into counters and posts them from a
  worker of its own. A response is decoded as a typed answer or read as a stream of server-sent events
  under a validator. Receipts of answers can be verified, up to the hardware attestation of the signing
  key. OAuth delegation, a blocking facade and a C interface sit on top.

  \<^bold>\<open>Theories, in the order they build on each other\<close> (files are relative to
  \<open>src/crates/trusted-router/src\<close>):

  \<^item> \<open>TR_Prelude\<close>: Rust's results, options, saturating arithmetic, durations, byte strings, UTF-8 and
    decimal texts, with the simplification set \<open>result_simps\<close> that carries the proofs about early returns.
    \<open>TR_Json\<close>, \<open>TR_Http\<close>, \<open>TR_Types\<close>: JSON values, header maps, planes, call options and clients.
    \<open>TR_Error\<close>: \<open>error.rs\<close>.
  \<^item> \<open>TR_Routing\<close>, \<open>TR_Policy\<close>, \<open>TR_Headers\<close>, \<open>TR_Engine\<close>: \<open>transport/routing.rs\<close>, \<open>policy.rs\<close>,
    \<open>headers.rs\<close>, \<open>engine.rs\<close> and \<open>mod.rs\<close>. \<open>execute\<close> is the whole retry loop; its result is the trace of
    requests and pauses with the outcome. Shown: how often, where and with which identical requests a
    call is sent, what each header slot holds, that telemetry never changes a call, and that a
    credential-free call carries no credential.
  \<^item> \<open>TR_Telemetry\<close>, \<open>TR_Recorder\<close>, \<open>TR_Identity\<close>, \<open>TR_Wire\<close>: \<open>telemetry.rs\<close> and \<open>telemetry/wire.rs\<close>. Shown:
    bounds and grammar of the attempt header in every reachable recorder state.
  \<^item> \<open>TR_Window\<close>, \<open>TR_Reporter\<close>, \<open>TR_Beacon\<close>, \<open>TR_Delivery\<close>, \<open>TR_Runs\<close>: \<open>telemetry/reporter.rs\<close>. A step of
    \<open>rep_step\<close> is one critical section, so a list of steps is an interleaving of callers, worker, server
    answers and close. Shown for every such list: bounded memory, conserved counters, delivery at most
    once, the closed schema of what is posted, silence after switching off, backoff and resumption.
  \<^item> \<open>TR_Serde\<close>, \<open>TR_Models\<close>, \<open>TR_Catalogue\<close>, \<open>TR_Tools\<close>: \<open>types.rs\<close> and \<open>tools.rs\<close>. Every struct is a
    \<open>record\<close> with its encoder and decoder. Shown: answers are read back without loss.
  \<^item> \<open>TR_Client\<close>: \<open>client.rs\<close>. \<open>build\<close> constructs a client from a builder; every endpoint method is the call
    it makes, and \<open>api_endpoint\<close> collects them. Shown for all of them: which base they go to and that
    mutations keep one idempotency key; and the exact body of a prompt.
  \<^item> \<open>TR_Sse\<close>, \<open>TR_Streams\<close>: \<open>sse.rs\<close> and \<open>blocking.rs\<close>. A stream is a generator that is polled and may be
    dropped at any time. Shown: which streams end cleanly, that validation is never downgraded, that a
    stream is reported at most once, and that blocking consumption ends.
  \<^item> \<open>TR_Jws\<close>, \<open>TR_Capture\<close>, \<open>TR_Receipts\<close>: \<open>receipts.rs\<close>. Shown: what a verified receipt proves about its
    signature, its claims, the request and response bytes, and a captured stream.
  \<^item> \<open>TR_Attestation\<close>, \<open>TR_ReceiptKey\<close>: \<open>attestation.rs\<close> and the evidence check of \<open>receipts.rs\<close>. Shown: what
    an accepted token proves about the workload, the nonce and the channel. The theorem below joins
    receipts and attestation.
  \<^item> \<open>TR_OAuth\<close>: \<open>oauth.rs\<close>. Shown: the authorization flow closes, the exchange discloses nothing else, and
    exactly which callbacks the listener accepts.
  \<^item> \<open>TR_Ffi\<close>: \<open>trusted-router-ffi/src/lib.rs\<close>. Shown: the ownership and shape of results, and that prompts
    keep one key.

  \<^bold>\<open>Interfaces.\<close> \<open>TR_Machines\<close> holds the contracts of the stateful components: invariants kept under a guard,
  silence, budgets, events that happen once, and a ledger of items delivered at most once. The recorder,
  the streams and the reporter interpret them. \<open>attempt_contract\<close> is what the retry loop needs of one
  attempt, \<open>stream_source\<close> what the blocking loop needs of a stream, \<open>raw_typed\<close> relates a raw validator
  to its typed one, \<open>row_measure\<close> is a count that folding keeps, and \<open>codec\<close>, \<open>plain_codec\<close> and
  \<open>struct_codec\<close> are the laws of encoders and decoders. Each is interpreted on the definitions of the
  program.

  \<^bold>\<open>Parameters.\<close> Third-party code is an argument: URL parsing (\<open>url_api\<close>, \<open>query_api\<close>), header values
  (\<open>http_api\<close>), the network and its clocks (\<open>net_env\<close>), random draws, JSON tokenizing and printing, hashing,
  signatures and base64 (\<open>receipt_libs\<close>, \<open>attestation_env\<close>, \<open>oauth_libs\<close>), frame decoding (\<open>stream_env\<close>) and
  the compiler's release (\<open>build_env\<close>). What a property relies on is a named hypothesis: \<open>http_api_ok\<close> (names
  are read in lower case, visible texts are kept), \<open>build_keeps\<close> (building a request keeps its
  headers), \<open>query_api_ok\<close> (query pairs are kept and printed URLs parse back), \<open>telemetry_blind\<close> (the network
  ignores the telemetry slot). Each has an executable instance, on which the witnesses run.

  \<^bold>\<open>Numbers and loops.\<close> Counters, statuses and durations are natural numbers with the saturation, clamping
  and checked subtraction of the code written out; issue times of receipts are integers with the 64-bit bounds written out, and a
  duration is a number of nanoseconds. All definitions are total; the retry loop ends by the remaining
  attempts, the frame loops by the remaining bytes. The loop of the blocking methods is a partial function,
  and that it returns is proved. No fuel is used in a model of the program.

  \<^bold>\<open>Not modelled.\<close> Thread scheduling and locks beyond the order of critical sections; the asynchronous
  runtime, beyond whether it could be created; panics, beyond their containment at the C boundary; debug
  output, accessors that return a field, and the blocking methods that only wait for the asynchronous
  method of the same name; \<open>tr_client_free\<close>, which only drops the client; the model names in
  \<open>constants.rs\<close>; \<open>build.rs\<close>, which runs the compiler; the examples, scripts and tests.
\<close>

section \<open>Receipts and attestation together\<close>


definition example_key_claims :: json where
  "example_key_claims = obj
     [(''iss'', JString GCP_ISSUER), (''exp'', JNumber (PosInt 2000)), (''dbgstat'', JString ''disabled-since-boot''),
      (''swname'', JString ''CONFIDENTIAL_SPACE''), (''secboot'', JBool True), (''hwmodel'', JString ''GCP_INTEL_TDX''),
      (''submods'', obj [(''container'', obj [(''image_digest'', JString ''sha256:new'')])]),
      (''eat_nonce'', JString (hex (example_digest (KEY_COMMITMENT_DOMAIN @ example_key))))]"

definition example_release_env :: "unit release_env" where
  "example_release_env =
     \<lparr>re_attestation = example_env_at\<lparr>at_decode := (\<lambda>_ _ _ _ _. Inr example_key_claims)\<rparr>,
      re_get_release = (\<lambda>_ _. Inr (200, Inr example_release))\<rparr>"


end
